theory Spec2Isabelle
  imports Main "HOL-Library.Sublist"
begin

section \<open>JavaScript strings and values\<close>

text \<open>
  A JavaScript string is a sequence of UTF-16 code units. The ticket text contains the
  box-drawing separator U+2501, which is one code unit, and the regular expressions of the
  parser work on code units, so a string is a list of code units here. ASCII literals are
  written \<open>js ''...''\<close>.
\<close>

type_synonym jsstring = "nat list"

definition js :: "string \<Rightarrow> jsstring" where
  "js s = map of_char s"

text \<open>
  The values a JSON request body can hold, plus \<open>undefined\<close> for a missing property.
  Numbers are kept as integers; no claim depends on fractions.
\<close>

datatype json =
    JUndefined
  | JNull
  | JBool bool
  | JNum int
  | JStr jsstring
  | JArr "json list"
  | JObj "(jsstring \<times> json) list"

text \<open>JavaScript truthiness, as used by \<open>!x\<close>, \<open>x || y\<close> and \<open>if (x)\<close>.\<close>

fun truthy :: "json \<Rightarrow> bool" where
  "truthy JUndefined = False"
| "truthy JNull = False"
| "truthy (JBool b) = b"
| "truthy (JNum n) = (n \<noteq> 0)"
| "truthy (JStr s) = (s \<noteq> [])"
| "truthy (JArr _) = True"
| "truthy (JObj _) = True"

text \<open>\<open>a || b\<close>\<close>

definition js_or :: "json \<Rightarrow> json \<Rightarrow> json" where
  "js_or a b = (if truthy a then a else b)"

section \<open>String operations of the platform\<close>

text \<open>
  The code units that \<open>\s\<close> matches in a regular expression and that \<open>trim()\<close>
  removes: the white space and line terminator code points of ECMAScript.
\<close>

definition isWhiteSpace :: "nat \<Rightarrow> bool" where
  "isWhiteSpace c \<longleftrightarrow>
     c \<in> {9, 10, 11, 12, 13, 32, 160, 5760, 8232, 8233, 8239, 8287, 12288, 65279}
     \<or> (8192 \<le> c \<and> c \<le> 8202)"

text \<open>The code units that \<open>.\<close> does not match: the line terminators.\<close>

definition isLineTerminator :: "nat \<Rightarrow> bool" where
  "isLineTerminator c \<longleftrightarrow> c \<in> {10, 13, 8232, 8233}"

text \<open>The word characters \<open>[A-Za-z0-9_]\<close> that decide \<open>\b\<close>.\<close>

definition isWordChar :: "nat \<Rightarrow> bool" where
  "isWordChar c \<longleftrightarrow>
     (65 \<le> c \<and> c \<le> 90) \<or> (97 \<le> c \<and> c \<le> 122) \<or> (48 \<le> c \<and> c \<le> 57) \<or> c = 95"

text \<open>\<open>String.prototype.trim\<close>\<close>

definition trim :: "jsstring \<Rightarrow> jsstring" where
  "trim s = rev (dropWhile isWhiteSpace (rev (dropWhile isWhiteSpace s)))"

text \<open>
  Upper case of an ASCII letter, any other code unit unchanged. Under the flag \<open>i\<close>
  (without \<open>u\<close>) a code unit of the text matches an ASCII character of the pattern
  exactly when the two agree after this mapping: the canonicalisation of ECMAScript never
  maps a code unit outside ASCII to one inside.
\<close>

definition ascii_upper :: "nat \<Rightarrow> nat" where
  "ascii_upper c = (if 97 \<le> c \<and> c \<le> 122 then c - 32 else c)"

text \<open>
  A literal at the head of the text: the rest of the text after it, or \<open>None\<close>. The
  second function compares under the flag \<open>i\<close>.
\<close>

fun after_literal :: "jsstring \<Rightarrow> jsstring \<Rightarrow> jsstring option" where
  "after_literal [] s = Some s"
| "after_literal (p # ps) [] = None"
| "after_literal (p # ps) (c # cs) = (if p = c then after_literal ps cs else None)"

fun after_literal_i :: "jsstring \<Rightarrow> jsstring \<Rightarrow> jsstring option" where
  "after_literal_i [] s = Some s"
| "after_literal_i (p # ps) [] = None"
| "after_literal_i (p # ps) (c # cs) =
     (if ascii_upper p = ascii_upper c then after_literal_i ps cs else None)"

text \<open>
  A greedy \<open>X*\<close> over a class \<open>X\<close> of code units, followed by the rest \<open>k\<close> of the
  pattern: the engine first takes one more code unit of the class, and only when the rest
  of the match fails from there does it try \<open>k\<close> at the present position.
\<close>

fun star :: "(nat \<Rightarrow> bool) \<Rightarrow> (jsstring \<Rightarrow> 'a option) \<Rightarrow> jsstring \<Rightarrow> 'a option" where
  "star X k [] = k []"
| "star X k (c # cs) =
     (if X c then (case star X k cs of Some r \<Rightarrow> Some r | None \<Rightarrow> k (c # cs))
      else k (c # cs))"

text \<open>A greedy \<open>X+\<close>: one code unit of the class, then \<open>X*\<close>.\<close>

fun plus :: "(nat \<Rightarrow> bool) \<Rightarrow> (jsstring \<Rightarrow> 'a option) \<Rightarrow> jsstring \<Rightarrow> 'a option" where
  "plus X k [] = None"
| "plus X k (c # cs) = (if X c then star X k cs else None)"

text \<open>
  \<open>String.prototype.match\<close> with a pattern that is not anchored and has no flag \<open>g\<close>:
  the pattern \<open>p\<close> is tried at every position from left to right, the end of the text
  included, and the first success is the match.
\<close>

fun search :: "(jsstring \<Rightarrow> 'a option) \<Rightarrow> jsstring \<Rightarrow> 'a option" where
  "search p [] = p []"
| "search p (c # cs) = (case p (c # cs) of Some r \<Rightarrow> Some r | None \<Rightarrow> search p cs)"

section \<open>Rate limiter\<close>

text \<open>
  \<open>rateLimitMap\<close> is a \<open>Map\<close> from the caller key to \<open>{ count, resetTime }\<close>.
  \<open>Date.now()\<close> is an integer number of milliseconds.
\<close>

record rate_entry =
  count :: int
  resetTime :: int

type_synonym rate_map = "jsstring \<rightharpoonup> rate_entry"

definition RATE_LIMIT_WINDOW :: int where
  "RATE_LIMIT_WINDOW = 60000"

text \<open>The body of the 429 response, the same text in every endpoint.\<close>

definition too_many_requests :: "nat \<times> jsstring" where
  "too_many_requests = (429, js ''Too many requests. Please try again in a minute.'')"

text \<open>
  The caller key of the serverless functions:
  \<open>req.headers['x-forwarded-for'] || req.headers['x-real-ip'] || 'unknown'\<close>.
\<close>

definition caller_key :: "json \<Rightarrow> json \<Rightarrow> json" where
  "caller_key forwarded_for real_ip = js_or (js_or forwarded_for real_ip) (JStr (js ''unknown''))"

text \<open>
  The rate limiting block at the head of the serverless handlers
  (\<open>api/push-to-jira.js\<close> lines 28-44, \<open>netlify/functions/generate-ticket.cjs\<close>
  lines 13-36). The two texts differ only in \<open>MAX_REQUESTS_PER_WINDOW\<close>, the first
  argument. The result is the 429 response when the handler returns it, \<open>None\<close> when the
  handler goes on, and the map after the call.
\<close>

definition handler_rate_limit ::
  "int \<Rightarrow> rate_map \<Rightarrow> jsstring \<Rightarrow> int \<Rightarrow> (nat \<times> jsstring) option \<times> rate_map" where
  "handler_rate_limit MAX_REQUESTS_PER_WINDOW m ip now =
     (case m ip of
        Some limit \<Rightarrow>
          if now < resetTime limit then
            if count limit \<ge> MAX_REQUESTS_PER_WINDOW then (Some too_many_requests, m)
            else (None, m(ip \<mapsto> limit\<lparr>count := count limit + 1\<rparr>))
          else (None, m(ip \<mapsto> \<lparr>count = 1, resetTime = now + RATE_LIMIT_WINDOW\<rparr>))
      | None \<Rightarrow> (None, m(ip \<mapsto> \<lparr>count = 1, resetTime = now + RATE_LIMIT_WINDOW\<rparr>)))"

definition push_rate_limit ::
  "rate_map \<Rightarrow> jsstring \<Rightarrow> int \<Rightarrow> (nat \<times> jsstring) option \<times> rate_map" where
  "push_rate_limit = handler_rate_limit 10"

definition generate_rate_limit ::
  "rate_map \<Rightarrow> jsstring \<Rightarrow> int \<Rightarrow> (nat \<times> jsstring) option \<times> rate_map" where
  "generate_rate_limit = handler_rate_limit 15"

text \<open>
  The middleware \<open>rateLimit\<close> of \<open>server.js\<close> (lines 78-107), with
  \<open>MAX_REQUESTS_PER_WINDOW = 20\<close>. \<open>None\<close> stands for the call of \<open>next()\<close>.
\<close>

definition rateLimit ::
  "rate_map \<Rightarrow> jsstring \<Rightarrow> int \<Rightarrow> (nat \<times> jsstring) option \<times> rate_map" where
  "rateLimit m ip now =
     (case m ip of
        None \<Rightarrow> (None, m(ip \<mapsto> \<lparr>count = 1, resetTime = now + RATE_LIMIT_WINDOW\<rparr>))
      | Some limit \<Rightarrow>
          if now > resetTime limit then
            (None, m(ip \<mapsto> limit\<lparr>count := 1, resetTime := now + RATE_LIMIT_WINDOW\<rparr>))
          else if count limit \<ge> 20 then (Some too_many_requests, m)
          else (None, m(ip \<mapsto> limit\<lparr>count := count limit + 1\<rparr>)))"

text \<open>
  The cleanup timer of \<open>server.js\<close> (lines 142-150): every entry whose window ended more
  than a minute ago is deleted.
\<close>

definition cleanup :: "rate_map \<Rightarrow> int \<Rightarrow> rate_map" where
  "cleanup m now =
     (\<lambda>ip. case m ip of
             None \<Rightarrow> None
           | Some limit \<Rightarrow> if now > resetTime limit + 60000 then None else Some limit)"

text \<open>
  A process serves its requests one after the other; \<open>serve\<close> threads the map through a
  list of requests \<open>(caller key, time)\<close> and returns the map left behind.
\<close>

fun serve ::
  "(rate_map \<Rightarrow> jsstring \<Rightarrow> int \<Rightarrow> (nat \<times> jsstring) option \<times> rate_map) \<Rightarrow>
     rate_map \<Rightarrow> (jsstring \<times> int) list \<Rightarrow> rate_map" where
  "serve limiter m [] = m"
| "serve limiter m ((ip, now) # rs) = serve limiter (snd (limiter m ip now)) rs"

text \<open>The local server also runs its cleanup timer between requests.\<close>

datatype server_event = Request jsstring int | Cleanup int

fun server_run :: "rate_map \<Rightarrow> server_event list \<Rightarrow> rate_map" where
  "server_run m [] = m"
| "server_run m (Request ip now # es) = server_run (snd (rateLimit m ip now)) es"
| "server_run m (Cleanup now # es) = server_run (cleanup m now) es"

text \<open>How many of the requests come from caller \<open>k\<close>.\<close>

definition requests_of :: "jsstring \<Rightarrow> (jsstring \<times> int) list \<Rightarrow> nat" where
  "requests_of k rs = length (filter (\<lambda>r. fst r = k) rs)"

text \<open>The invariant of the map: every stored count lies between 1 and the threshold.\<close>

definition counts_bounded :: "int \<Rightarrow> rate_map \<Rightarrow> bool" where
  "counts_bounded M m \<longleftrightarrow> (\<forall>ip e. m ip = Some e \<longrightarrow> 1 \<le> count e \<and> count e \<le> M)"

section \<open>URL validator\<close>

text \<open>
  \<open>String.prototype.endsWith(searchString)\<close>: the last \<open>searchString.length\<close> code units
  of the string are compared with \<open>searchString\<close>; a longer \<open>searchString\<close> gives
  \<open>false\<close>.
\<close>

definition endsWith :: "jsstring \<Rightarrow> jsstring \<Rightarrow> bool" where
  "endsWith s searchString =
     (length searchString \<le> length s \<and>
      drop (length s - length searchString) s = searchString)"

text \<open>
  The two properties of a \<open>URL\<close> object that the validator reads. The constructor
  \<open>new URL(url)\<close> belongs to the platform, not to the repository: it is the parameter
  \<open>URL\<close> of the validator, \<open>None\<close> when the constructor throws.
\<close>

record parsed_url =
  protocol :: jsstring
  hostname :: jsstring

record validation =
  valid :: bool
  error :: "jsstring option"

text \<open>
  \<open>validateJiraUrl\<close>, the same text in \<open>api/push-to-jira.js\<close> (lines 12-25) and in
  \<open>server.js\<close> (lines 32-47).
\<close>

definition validateJiraUrl :: "(jsstring \<Rightarrow> parsed_url option) \<Rightarrow> jsstring \<Rightarrow> validation" where
  "validateJiraUrl URL url =
     (case URL url of
        None \<Rightarrow> \<lparr>valid = False, error = Some (js ''Invalid Jira URL format'')\<rparr>
      | Some parsedUrl \<Rightarrow>
          if protocol parsedUrl \<noteq> js ''https:'' then
            \<lparr>valid = False, error = Some (js ''Jira URL must use HTTPS'')\<rparr>
          else if \<not> endsWith (hostname parsedUrl) (js ''.atlassian.net'') then
            \<lparr>valid = False, error = Some (js ''Only Atlassian-hosted Jira instances are allowed'')\<rparr>
          else \<lparr>valid = True, error = None\<rparr>)"

text \<open>
  What \<open>new URL\<close> returns for the sample addresses used below, and an exception for
  every other string.
\<close>

definition sample_URL :: "jsstring \<Rightarrow> parsed_url option" where
  "sample_URL url =
     (if url = js ''https://acme.atlassian.net'' then
        Some \<lparr>protocol = js ''https:'', hostname = js ''acme.atlassian.net''\<rparr>
      else if url = js ''http://acme.atlassian.net'' then
        Some \<lparr>protocol = js ''http:'', hostname = js ''acme.atlassian.net''\<rparr>
      else if url = js ''https://evil.com'' then
        Some \<lparr>protocol = js ''https:'', hostname = js ''evil.com''\<rparr>
      else if url = js ''https://atlassian.net'' then
        Some \<lparr>protocol = js ''https:'', hostname = js ''atlassian.net''\<rparr>
      else if url = js ''https://evilatlassian.net'' then
        Some \<lparr>protocol = js ''https:'', hostname = js ''evilatlassian.net''\<rparr>
      else None)"

section \<open>Ticket field parser\<close>

text \<open>
  \<open>parseTicketForJira\<close> of \<open>src/components/FormattedTicket.jsx\<close> (lines 1208-1316).
  Each regular expression of the function is written as the matcher it denotes, anchored
  at the head of the text, and \<open>search\<close> moves it along the text.
\<close>

record ticket_fields =
  title :: jsstring
  description :: jsstring
  steps :: jsstring
  expected :: jsstring
  actual :: jsstring
  impact :: jsstring
  priorityId :: jsstring
  priorityName :: jsstring
  environment :: jsstring

text \<open>
  \<open>([\s\S]*?)(?:\n\<box>|$)\<close>, where \<open>\<box>\<close> stands for the separator character U+2501
  (code unit 9473): the lazy group stops at the first position that is the end of the text
  or is followed by a line feed and the separator. It always matches; the result is the
  group.
\<close>

fun body_group :: "jsstring \<Rightarrow> jsstring" where
  "body_group [] = []"
| "body_group (c # cs) =
     (if c = 10 \<and> (case cs of [] \<Rightarrow> False | d # _ \<Rightarrow> d = 9473) then []
      else c # body_group cs)"

text \<open>\<open>\n([\s\S]*?)(?:\n\<box>|$)\<close>: a line feed, then the group.\<close>

fun newline_body :: "jsstring \<Rightarrow> jsstring option" where
  "newline_body [] = None"
| "newline_body (c # cs) = (if c = 10 then Some (body_group cs) else None)"

text \<open>
  \<open>/\*\*Label:\*\*\s*\n([\s\S]*?)(?:\n\<box>|$)/\<close> for the bold label given, the pattern of
  the sections Description, Steps to Reproduce, Expected Behaviour, Actual Behaviour,
  Impact and Environment. The result is group 1 of the match.
\<close>

definition section_at :: "jsstring \<Rightarrow> jsstring \<Rightarrow> jsstring option" where
  "section_at label s =
     (case after_literal label s of
        None \<Rightarrow> None
      | Some r \<Rightarrow> star isWhiteSpace newline_body r)"

definition section_match :: "jsstring \<Rightarrow> jsstring \<Rightarrow> jsstring option" where
  "section_match label s = search (section_at label) s"

text \<open>\<open>match ? match[1].trim() : ''\<close>\<close>

definition section_field :: "jsstring \<Rightarrow> jsstring \<Rightarrow> jsstring" where
  "section_field label s =
     (case section_match label s of Some b \<Rightarrow> trim b | None \<Rightarrow> [])"

text \<open>
  \<open>.*?(?:\n|$)\<close> and \<open>(.+?)(?:\n|$)\<close>: the lazy group of code units that are not line
  terminators stops at the first line feed or at the end of the text; a different line
  terminator in its way makes the match fail.
\<close>

fun line_rest :: "jsstring \<Rightarrow> jsstring option" where
  "line_rest [] = Some []"
| "line_rest (c # cs) =
     (if c = 10 then Some []
      else if \<not> isLineTerminator c then map_option ((#) c) (line_rest cs)
      else None)"

fun line_group :: "jsstring \<Rightarrow> jsstring option" where
  "line_group [] = None"
| "line_group (c # cs) =
     (if \<not> isLineTerminator c then map_option ((#) c) (line_rest cs) else None)"

text \<open>\<open>/\*\*Title:\*\*\s*(.+?)(?:\n|$)/\<close>, group 1.\<close>

definition title_at :: "jsstring \<Rightarrow> jsstring option" where
  "title_at s =
     (case after_literal (js ''**Title:**'') s of
        None \<Rightarrow> None
      | Some r \<Rightarrow> star isWhiteSpace line_group r)"

text \<open>
  \<open>([Pp][1-4])\b\<close>: the letter, the digit, and then the end of the text or a code unit
  that is not a word character. The result is the group.
\<close>

fun code_group :: "jsstring \<Rightarrow> jsstring option" where
  "code_group (p # d # rest) =
     (if (p = 80 \<or> p = 112) \<and> 49 \<le> d \<and> d \<le> 52
         \<and> (case rest of [] \<Rightarrow> True | e # _ \<Rightarrow> \<not> isWordChar e)
      then Some [p, d] else None)"
| "code_group _ = None"

text \<open>Pattern 1: \<open>/\*\*Priority:\*\*\s*([Pp][1-4])\b/\<close>\<close>

definition priorityMatch1 :: "jsstring \<Rightarrow> jsstring option" where
  "priorityMatch1 s =
     search (\<lambda>t. case after_literal (js ''**Priority:**'') t of
                   None \<Rightarrow> None
                 | Some r \<Rightarrow> star isWhiteSpace code_group r) s"

text \<open>Pattern 2: \<open>/Priority:\s*([Pp][1-4])\b/i\<close>\<close>

definition priorityMatch2 :: "jsstring \<Rightarrow> jsstring option" where
  "priorityMatch2 s =
     search (\<lambda>t. case after_literal_i (js ''Priority:'') t of
                   None \<Rightarrow> None
                 | Some r \<Rightarrow> star isWhiteSpace code_group r) s"

text \<open>Pattern 3: \<open>/Priority\s+([Pp][1-4])\b/i\<close>\<close>

definition priorityMatch3 :: "jsstring \<Rightarrow> jsstring option" where
  "priorityMatch3 s =
     search (\<lambda>t. case after_literal_i (js ''Priority'') t of
                   None \<Rightarrow> None
                 | Some r \<Rightarrow> plus isWhiteSpace code_group r) s"

text \<open>Pattern 4: \<open>/Priority[:\s\*]*\s*([Pp][1-4])\b/i\<close>\<close>

definition priorityMatch4 :: "jsstring \<Rightarrow> jsstring option" where
  "priorityMatch4 s =
     search (\<lambda>t. case after_literal_i (js ''Priority'') t of
                   None \<Rightarrow> None
                 | Some r \<Rightarrow>
                     star (\<lambda>c. c = 58 \<or> isWhiteSpace c \<or> c = 42)
                       (star isWhiteSpace code_group) r) s"

text \<open>
  Pattern 5: \<open>/\*\*Priority:\*\*[\s\S]{0,30}/i\<close> gives the label as it stands in the text
  with up to 30 code units after it; \<open>/([Pp][1-4])\b/\<close> is then matched inside that piece.
\<close>

definition prioritySection :: "jsstring \<Rightarrow> jsstring option" where
  "prioritySection s =
     search (\<lambda>t. case after_literal_i (js ''**Priority:**'') t of
                   None \<Rightarrow> None
                 | Some r \<Rightarrow> Some (take (length (js ''**Priority:**'') + 30) t)) s"

definition priorityMatch5 :: "jsstring \<Rightarrow> jsstring option" where
  "priorityMatch5 s =
     (case prioritySection s of
        None \<Rightarrow> None
      | Some piece \<Rightarrow> search code_group piece)"

text \<open>
  \<open>match[1].trim().toUpperCase()\<close>. The group holds a letter P and a digit, on which
  \<open>toUpperCase\<close> is the upper case of ASCII.
\<close>

definition code_text :: "jsstring \<Rightarrow> jsstring" where
  "code_text g = map ascii_upper (trim g)"

text \<open>The cascade of the five patterns; \<open>None\<close> is the initial \<open>null\<close>.\<close>

definition priorityText :: "jsstring \<Rightarrow> jsstring option" where
  "priorityText s =
     (case priorityMatch1 s of
        Some g \<Rightarrow> Some (code_text g)
      | None \<Rightarrow>
     (case priorityMatch2 s of
        Some g \<Rightarrow> Some (code_text g)
      | None \<Rightarrow>
     (case priorityMatch3 s of
        Some g \<Rightarrow> Some (code_text g)
      | None \<Rightarrow>
     (case priorityMatch4 s of
        Some g \<Rightarrow> Some (code_text g)
      | None \<Rightarrow>
     (case priorityMatch5 s of
        Some g \<Rightarrow> Some (code_text g)
      | None \<Rightarrow> None)))))"

text \<open>\<open>/^P[1-4]$/.test(priorityText)\<close>\<close>

definition is_priority_code :: "jsstring \<Rightarrow> bool" where
  "is_priority_code t \<longleftrightarrow> (case t of [p, d] \<Rightarrow> p = 80 \<and> 49 \<le> d \<and> d \<le> 52 | _ \<Rightarrow> False)"

text \<open>The table \<open>priorityIdMap\<close>.\<close>

definition priorityIdMap :: "(jsstring \<times> jsstring) list" where
  "priorityIdMap =
     [(js ''P1'', js ''1''), (js ''P2'', js ''2''), (js ''P3'', js ''3''), (js ''P4'', js ''4'')]"

text \<open>
  The priority part of the parser (lines 1236-1301): the name and the identifier it
  stores. A missing or malformed text falls back to \<open>P3\<close>, a missing entry of the table
  to \<open>3\<close>; the last test of the source (an identifier that is empty) resets both.
\<close>

definition parse_priority :: "jsstring \<Rightarrow> jsstring \<times> jsstring" where
  "parse_priority s =
     (let found = priorityText s;
          name = (case found of
                    None \<Rightarrow> js ''P3''
                  | Some t \<Rightarrow> if t = [] \<or> \<not> is_priority_code t then js ''P3'' else t);
          ident = (case map_of priorityIdMap name of
                     None \<Rightarrow> js ''3''
                   | Some i \<Rightarrow> if i = [] then js ''3'' else i)
      in if ident = [] then (js ''3'', js ''P3'') else (ident, name))"

definition parseTicketForJira :: "jsstring \<Rightarrow> ticket_fields" where
  "parseTicketForJira ticketContent =
     \<lparr>title = (case search title_at ticketContent of
                 Some g \<Rightarrow> trim g
               | None \<Rightarrow> js ''Bug Report''),
      description = section_field (js ''**Description:**'') ticketContent,
      steps = section_field (js ''**Steps to Reproduce:**'') ticketContent,
      expected = section_field (js ''**Expected Behaviour:**'') ticketContent,
      actual = section_field (js ''**Actual Behaviour:**'') ticketContent,
      impact = section_field (js ''**Impact:**'') ticketContent,
      priorityId = fst (parse_priority ticketContent),
      priorityName = snd (parse_priority ticketContent),
      environment = section_field (js ''**Environment:**'') ticketContent\<rparr>"

text \<open>
  What a well-formed section is, for the statements about the parser. The text holds no
  line feed followed by the separator character:
\<close>

fun no_separator :: "jsstring \<Rightarrow> bool" where
  "no_separator (c # d # cs) \<longleftrightarrow> \<not> (c = 10 \<and> d = 9473) \<and> no_separator (d # cs)"
| "no_separator _ \<longleftrightarrow> True"

text \<open>
  The text is not empty and neither begins nor ends with white space, so that \<open>trim\<close>
  leaves it as it is:
\<close>

definition trimmed :: "jsstring \<Rightarrow> bool" where
  "trimmed b \<longleftrightarrow> b \<noteq> [] \<and> \<not> isWhiteSpace (hd b) \<and> \<not> isWhiteSpace (last b)"

text \<open>
  The blob \<open>s\<close> holds the section \<open>label\<close> with the body \<open>body\<close>: the label stands
  here for the first time (no occurrence of it begins in the text \<open>pre\<close> before); white space with at least one line feed follows; then the body,
  which is trimmed and free of separators; then white space; and then the text ends or a
  separator line begins.
\<close>

definition has_section :: "jsstring \<Rightarrow> jsstring \<Rightarrow> jsstring \<Rightarrow> bool" where
  "has_section s label body \<longleftrightarrow>
     (\<exists>pre ws1 ws2 rest.
        s = pre @ label @ ws1 @ body @ ws2 @ rest
        \<and> \<not> sublist label (pre @ butlast label)
        \<and> (\<forall>c \<in> set ws1. isWhiteSpace c) \<and> 10 \<in> set ws1
        \<and> trimmed body \<and> no_separator body
        \<and> (\<forall>c \<in> set ws2. isWhiteSpace c)
        \<and> (rest = [] \<or> (\<exists>rest'. rest = 10 # 9473 # rest')))"

text \<open>
  The blob \<open>s\<close> holds the title \<open>t\<close>: the label \<open>**Title:**\<close> stands here for the first
  time; white space may follow; then the title, trimmed and on one line; then white space
  of the same line; and then the text ends or a line feed follows.
\<close>

definition has_title :: "jsstring \<Rightarrow> jsstring \<Rightarrow> bool" where
  "has_title s t \<longleftrightarrow>
     (\<exists>pre ws1 ws2 rest.
        s = pre @ js ''**Title:**'' @ ws1 @ t @ ws2 @ rest
        \<and> \<not> sublist (js ''**Title:**'') (pre @ butlast (js ''**Title:**''))
        \<and> (\<forall>c \<in> set ws1. isWhiteSpace c)
        \<and> trimmed t \<and> (\<forall>c \<in> set t. \<not> isLineTerminator c)
        \<and> (\<forall>c \<in> set ws2. isWhiteSpace c \<and> \<not> isLineTerminator c)
        \<and> (rest = [] \<or> (\<exists>rest'. rest = 10 # rest')))"

text \<open>
  What the five priority patterns look for, said without the matchers. A code is the
  letter P in either case and a digit from 1 to 4; it ends at a word boundary when the
  text ends after it or goes on with a character that is no word character.
\<close>

definition is_code :: "jsstring \<Rightarrow> bool" where
  "is_code c \<longleftrightarrow> (\<exists>p d. c = [p, d] \<and> (p = 80 \<or> p = 112) \<and> 49 \<le> d \<and> d \<le> 52)"

definition word_end :: "jsstring \<Rightarrow> bool" where
  "word_end rest \<longleftrightarrow> rest = [] \<or> \<not> isWordChar (hd rest)"

text \<open>Two texts are the same up to the case of ASCII letters.\<close>

definition same_i :: "jsstring \<Rightarrow> jsstring \<Rightarrow> bool" where
  "same_i a b \<longleftrightarrow> map ascii_upper a = map ascii_upper b"

text \<open>The text \<open>t\<close> begins with the code \<open>c\<close>, which ends at a word boundary.\<close>

definition code_shape :: "jsstring \<Rightarrow> jsstring \<Rightarrow> bool" where
  "code_shape t c \<longleftrightarrow> (\<exists>rest. t = c @ rest \<and> is_code c \<and> word_end rest)"

text \<open>
  The text \<open>t\<close> begins with a label, then a gap, then the code \<open>c\<close> at a word
  boundary.
\<close>

definition labelled ::
  "(jsstring \<Rightarrow> bool) \<Rightarrow> (jsstring \<Rightarrow> bool) \<Rightarrow> jsstring \<Rightarrow> jsstring \<Rightarrow> bool" where
  "labelled is_label is_gap t c \<longleftrightarrow>
     (\<exists>l g rest. t = l @ g @ c @ rest \<and> is_label l \<and> is_gap g \<and> is_code c \<and> word_end rest)"

text \<open>
  The four patterns with a label: the bold label \<open>**Priority:**\<close> as it is written and
  white space; \<open>Priority:\<close> in any case and white space; \<open>Priority\<close> in any case and
  white space that is not empty; \<open>Priority\<close> in any case and any run of colons, white
  space and asterisks.
\<close>

definition bold_shape :: "jsstring \<Rightarrow> jsstring \<Rightarrow> bool" where
  "bold_shape = labelled (\<lambda>l. l = js ''**Priority:**'') (\<lambda>g. \<forall>x \<in> set g. isWhiteSpace x)"

definition colon_shape :: "jsstring \<Rightarrow> jsstring \<Rightarrow> bool" where
  "colon_shape = labelled (\<lambda>l. same_i l (js ''Priority:'')) (\<lambda>g. \<forall>x \<in> set g. isWhiteSpace x)"

definition space_shape :: "jsstring \<Rightarrow> jsstring \<Rightarrow> bool" where
  "space_shape =
     labelled (\<lambda>l. same_i l (js ''Priority'')) (\<lambda>g. g \<noteq> [] \<and> (\<forall>x \<in> set g. isWhiteSpace x))"

definition loose_shape :: "jsstring \<Rightarrow> jsstring \<Rightarrow> bool" where
  "loose_shape =
     labelled (\<lambda>l. same_i l (js ''Priority''))
       (\<lambda>g. \<forall>x \<in> set g. x = 58 \<or> isWhiteSpace x \<or> x = 42)"

text \<open>
  A pattern is matched at the first position of the text \<open>s\<close> where its shape stands,
  and \<open>c\<close> is the code found there; or its shape stands nowhere in \<open>s\<close>.
\<close>

definition first_match :: "(jsstring \<Rightarrow> jsstring \<Rightarrow> bool) \<Rightarrow> jsstring \<Rightarrow> jsstring \<Rightarrow> bool" where
  "first_match shape s c \<longleftrightarrow>
     (\<exists>pre t. s = pre @ t \<and> shape t c \<and> (\<forall>i < length pre. \<forall>c'. \<not> shape (drop i s) c'))"

definition no_match :: "(jsstring \<Rightarrow> jsstring \<Rightarrow> bool) \<Rightarrow> jsstring \<Rightarrow> bool" where
  "no_match shape s \<longleftrightarrow> (\<forall>i \<le> length s. \<forall>c. \<not> shape (drop i s) c)"

text \<open>
  The fifth pattern: at the first place where \<open>**Priority:**\<close> stands in any case, the
  label and the 30 code units after it (fewer at the end of the text) are cut out, and
  \<open>c\<close> is the first code inside that piece; the end of the piece is a word boundary.
\<close>

definition near_shape :: "jsstring \<Rightarrow> jsstring \<Rightarrow> bool" where
  "near_shape s c \<longleftrightarrow>
     (\<exists>pre l rest. s = pre @ l @ rest \<and> same_i l (js ''**Priority:**'')
        \<and> (\<forall>i < length pre. \<not> same_i (take 13 (drop i s)) (js ''**Priority:**''))
        \<and> first_match code_shape (l @ take 30 rest) c)"

text \<open>A short ticket in the format the generator is asked for.\<close>

definition sample_ticket :: jsstring where
  "sample_ticket =
     js ''**Title:** Login broken'' @ [10, 10, 9473, 9473, 9473, 10, 10] @
     js ''**Description:** '' @ [10] @ js ''Tap does nothing.'' @ [10, 10, 9473, 9473, 9473, 10, 10] @
     js ''**Priority:** P2''"

section \<open>Jira push proxy\<close>

text \<open>
  The handler of \<open>api/push-to-jira.js\<close>. The calls that leave the process are
  parameters of the model, collected in an environment: the URL constructor, the metadata
  request, the request that creates the issue, the import of \<open>form-data\<close> and the upload
  of each attachment.
\<close>

subsection \<open>Reading JSON values\<close>

text \<open>
  \<open>v.name\<close> on a value that is neither \<open>null\<close> nor \<open>undefined\<close>. Of a repeated key
  the last entry counts, as in \<open>JSON.parse\<close>. The names read by the handler are no
  properties of strings, numbers, booleans or arrays.
\<close>

fun get :: "json \<Rightarrow> jsstring \<Rightarrow> json" where
  "get (JObj kvs) name = (case map_of (rev kvs) name of Some v \<Rightarrow> v | None \<Rightarrow> JUndefined)"
| "get _ name = JUndefined"

text \<open>\<open>v[0]\<close> on a value that is neither \<open>null\<close> nor \<open>undefined\<close>.\<close>

fun index0 :: "json \<Rightarrow> json" where
  "index0 (JArr (x # _)) = x"
| "index0 (JStr (c # _)) = JStr [c]"
| "index0 (JObj kvs) = get (JObj kvs) (js ''0'')"
| "index0 _ = JUndefined"

text \<open>
  \<open>String(v)\<close> and \<open>${v}\<close> throw a \<open>TypeError\<close> when the value has no usable
  conversion: an object with an own property \<open>toString\<close>, which in a JSON body is never
  a function (the inherited \<open>valueOf\<close> returns the object itself). An array is joined
  element by element, \<open>null\<close> as the empty string, and throws when an element does.
\<close>

fun string_throws :: "json \<Rightarrow> bool" where
  "string_throws (JObj kvs) \<longleftrightarrow> js ''toString'' \<in> fst ` set kvs"
| "string_throws (JArr xs) \<longleftrightarrow> (\<exists>x \<in> set xs. string_throws x)"
| "string_throws _ \<longleftrightarrow> False"

text \<open>
  \<open>String(v)\<close> and \<open>${v}\<close>: \<open>None\<close> is the \<open>TypeError\<close>. The text that numbers,
  arrays and objects convert to is the platform's and is the parameter \<open>toStr\<close>.
\<close>

definition js_String :: "(json \<Rightarrow> jsstring) \<Rightarrow> json \<Rightarrow> jsstring option" where
  "js_String toStr v =
     (if string_throws v then None
      else Some (case v of
                   JStr s \<Rightarrow> s
                 | JUndefined \<Rightarrow> js ''undefined''
                 | JNull \<Rightarrow> js ''null''
                 | JBool b \<Rightarrow> (if b then js ''true'' else js ''false'')
                 | _ \<Rightarrow> toStr v))"

subsection \<open>The lookup of the engineering team\<close>

text \<open>
  What the request for the create metadata came to: the \<open>fetch\<close> or the reading of its
  body threw, the response was not \<open>ok\<close>, or it was \<open>ok\<close> with the parsed body.
\<close>

datatype meta_outcome = MetaThrows | MetaNotOk | MetaOk json

text \<open>
  \<open>allowedValues.find(opt => opt.value === teamValue || opt.name === teamValue)\<close>.
  Reading a property of a \<open>null\<close> element throws; \<open>None\<close> is that exception, and
  \<open>Some JUndefined\<close> the result of a search that finds nothing.
\<close>

fun find_option :: "jsstring \<Rightarrow> json list \<Rightarrow> json option" where
  "find_option teamValue [] = Some JUndefined"
| "find_option teamValue (opt # opts) =
     (if opt = JNull \<or> opt = JUndefined then None
      else if get opt (js ''value'') = JStr teamValue \<or> get opt (js ''name'') = JStr teamValue
      then Some opt
      else find_option teamValue opts)"

text \<open>
  \<open>getEngineeringTeamId\<close> (lines 93-126). The result is the identifier, or \<open>null\<close>, and
  whether the warning of the \<open>catch\<close> block was logged. The address of the request is
  a template with \<open>${projectKey}\<close>, inside the \<open>try\<close>: a project key that cannot be
  converted ends the lookup in the \<open>catch\<close> block before anything is requested.
\<close>

definition getEngineeringTeamId :: "json \<Rightarrow> meta_outcome \<Rightarrow> jsstring \<Rightarrow> json \<times> bool" where
  "getEngineeringTeamId projectKey outcome teamValue =
     (if string_throws projectKey then (JNull, True) else
      case outcome of
        MetaThrows \<Rightarrow> (JNull, True)
      | MetaNotOk \<Rightarrow> (JNull, False)
      | MetaOk metadata \<Rightarrow>
          if metadata = JNull \<or> metadata = JUndefined then (JNull, True)
          else
            let projects = get metadata (js ''projects'');
                issuetypes = get (index0 projects) (js ''issuetypes'');
                fields' = get (index0 issuetypes) (js ''fields'');
                field = get fields' (js ''customfield_11737'')
            in if truthy projects \<and> truthy (index0 projects)
                  \<and> truthy issuetypes \<and> truthy (index0 issuetypes)
                  \<and> truthy fields' \<and> truthy field
               then
                 let allowedValues = get field (js ''allowedValues'')
                 in if truthy allowedValues then
                      (case allowedValues of
                         JArr opts \<Rightarrow>
                           (case find_option teamValue opts of
                              None \<Rightarrow> (JNull, True)
                            | Some matchingOption \<Rightarrow>
                                if truthy matchingOption \<and> truthy (get matchingOption (js ''id''))
                                then (get matchingOption (js ''id''), False)
                                else (JNull, False))
                       | _ \<Rightarrow> (JNull, True))
                    else (JNull, False)
               else (JNull, False))"

subsection \<open>The payload\<close>

text \<open>The two shapes of \<open>customfield_11737\<close>: \<open>{ id, value }\<close> and \<open>{ value }\<close>.\<close>

datatype team_field = IdAndValue json jsstring | ValueOnly jsstring

record jira_payload =
  project_key :: json
  summary :: json
  description_text :: jsstring
  issuetype_name :: jsstring
  priority_id :: json
  priority_name :: json
  customfield_11888 :: "json option"
  customfield_11924 :: "json option"
  components :: "json option"
  customfield_11744 :: "json option"
  customfield_11737 :: "team_field option"

text \<open>
  The lines the handler logs about the engineering team and the attachments. The other
  output of \<open>console.log\<close> is left out; nothing depends on it.
\<close>

datatype log_event =
    WarningMetadata
  | TeamIdAndValue
  | TeamValueOnly
  | TeamEmptyAfterTrim
  | TeamMissing
  | Uploaded nat
  | UploadFailed nat
  | UploadError nat
  | AllProcessed
  | AttachmentsError

text \<open>
  \<open>jiraDescription\<close> (lines 129-134): \<open>None\<close> when one of the six values cannot be
  converted.
\<close>

definition jiraDescription :: "(json \<Rightarrow> jsstring) \<Rightarrow> json \<Rightarrow> jsstring option" where
  "jiraDescription toStr fields' =
     (case (js_String toStr (get fields' (js ''description'')),
            js_String toStr (get fields' (js ''steps'')),
            js_String toStr (get fields' (js ''expected'')),
            js_String toStr (get fields' (js ''actual'')),
            js_String toStr (get fields' (js ''impact'')),
            js_String toStr (get fields' (js ''environment''))) of
        (Some d, Some s, Some e, Some a, Some i, Some v) \<Rightarrow>
          Some (js ''*Description:*'' @ [10] @ d @ [10, 10] @
                js ''*Steps to Reproduce:*'' @ [10] @ s @ [10, 10] @
                js ''*Expected Behaviour:*'' @ [10] @ e @ [10, 10] @
                js ''*Actual Behaviour:*'' @ [10] @ a @ [10, 10] @
                js ''*Impact:*'' @ [10] @ i @ [10, 10] @
                js ''*Environment:*'' @ [10] @ v)
      | _ \<Rightarrow> None)"

text \<open>\<open>if (customFields.x) payload.fields.y = { ... customFields.x }\<close>\<close>

definition custom :: "json \<Rightarrow> jsstring \<Rightarrow> json option" where
  "custom customFields name =
     (if truthy customFields \<and> truthy (get customFields name)
      then Some (get customFields name) else None)"

text \<open>
  The engineering team (lines 195-218), inside \<open>if (customFields)\<close>: the field of the
  payload and the lines logged. \<open>None\<close> is the \<open>TypeError\<close> of
  \<open>String(customFields.engineeringTeam)\<close>, thrown before the lookup is started.
\<close>

definition engineering_team ::
  "(json \<Rightarrow> jsstring) \<Rightarrow> json \<Rightarrow> meta_outcome \<Rightarrow> json \<Rightarrow>
     (team_field option \<times> log_event list) option" where
  "engineering_team toStr projectKey outcome customFields =
     (if truthy (get customFields (js ''engineeringTeam'')) then
        (case js_String toStr (get customFields (js ''engineeringTeam'')) of
           None \<Rightarrow> None
         | Some text \<Rightarrow>
             let engTeamValue = trim text
             in if engTeamValue \<noteq> [] then
                  let (engTeamId, warned) = getEngineeringTeamId projectKey outcome engTeamValue
                  in if truthy engTeamId
                     then Some (Some (IdAndValue engTeamId engTeamValue),
                                (if warned then [WarningMetadata] else []) @ [TeamIdAndValue])
                     else Some (Some (ValueOnly engTeamValue),
                                (if warned then [WarningMetadata] else []) @ [TeamValueOnly])
                else Some (None, [TeamEmptyAfterTrim]))
      else Some (None, [TeamMissing]))"

text \<open>
  \<open>jiraPayload\<close> as it is sent (lines 128-219), and the lines logged on the way.
  \<open>None\<close> is a \<open>TypeError\<close> on the way, which the outer \<open>catch\<close> turns into the
  response 500.
\<close>

definition jiraPayload ::
  "(json \<Rightarrow> jsstring) \<Rightarrow> meta_outcome \<Rightarrow> json \<Rightarrow> json \<Rightarrow> json \<Rightarrow>
     (jira_payload \<times> log_event list) option" where
  "jiraPayload toStr outcome projectKey fields' customFields =
     (case jiraDescription toStr fields' of
        None \<Rightarrow> None
      | Some text \<Rightarrow>
          (case (if truthy customFields
                 then engineering_team toStr projectKey outcome customFields
                 else Some (None, [])) of
             None \<Rightarrow> None
           | Some team \<Rightarrow>
               Some (\<lparr>project_key = projectKey,
                      summary = get fields' (js ''title''),
                      description_text = text,
                      issuetype_name = js ''Bug'',
                      priority_id = js_or (get fields' (js ''priorityId'')) (JStr (js ''3'')),
                      priority_name = js_or (get fields' (js ''priorityName'')) (JStr (js ''P3'')),
                      customfield_11888 = custom customFields (js ''instance''),
                      customfield_11924 = custom customFields (js ''productLine''),
                      components = custom customFields (js ''component''),
                      customfield_11744 = custom customFields (js ''foundVersion''),
                      customfield_11737 = fst team\<rparr>,
                     snd team)))"

subsection \<open>The attachments\<close>

text \<open>
  What the platform did with the upload of one attachment, once its data was decoded: the
  rest of the inner \<open>try\<close> threw (building the form, the \<open>fetch\<close>, reading the body
  of a response that is not \<open>ok\<close>), or the response arrived with this status.
\<close>

datatype upload_outcome = UploadThrows | UploadStatus nat

text \<open>
  The body of a response: none; \<open>{ error }\<close> with a text of the handler or the message
  of a failed request to Jira; \<open>{ error }\<close> with the message that the platform gave to
  an exception it threw (a \<open>TypeError\<close>, an error of the body parser); the body built
  from an answer of Jira that is not \<open>ok\<close>; and \<open>{ key, id, self, url }\<close>.
\<close>

datatype body =
    NoBody
  | ErrorBody jsstring
  | ThrownBody
  | UpstreamErrorBody
  | CreatedBody json json json jsstring

text \<open>
  What the caller gets from the handler: a response, or nothing when an exception leaves
  the handler and the platform answers in its place.
\<close>

datatype response = Response nat body | Uncaught

definition too_large :: response where
  "too_large = Response 413 (ErrorBody
     (js ''One or more files are too large for Jira. Please remove large files and try again.''))"

text \<open>
  How the loop over the attachments ended: it ran to its end, an exception left it for
  the outer \<open>catch\<close> (line 324), or it returned a response.
\<close>

datatype loop_end = Completed | Aborted | Returned response

definition isString :: "json \<Rightarrow> bool" where
  "isString v \<longleftrightarrow> (case v of JStr _ \<Rightarrow> True | _ \<Rightarrow> False)"

text \<open>
  The \<open>catch\<close> block of one attachment (lines 317-320) writes
  \<open>${attachment.filename}\<close> to the log. That throws for an element that is \<open>null\<close>
  or \<open>undefined\<close> and for a file name that cannot be converted, and the exception
  leaves the loop.
\<close>

definition catch_throws :: "json \<Rightarrow> bool" where
  "catch_throws attachment \<longleftrightarrow>
     attachment = JNull \<or> attachment = JUndefined
     \<or> string_throws (get attachment (js ''filename''))"

definition continue_with :: "log_event list \<Rightarrow> nat list \<Rightarrow> log_event list \<times> nat list \<times> loop_end \<Rightarrow>
    log_event list \<times> nat list \<times> loop_end" where
  "continue_with lines requests r = (lines @ fst r, requests @ fst (snd r), snd (snd r))"

text \<open>
  The loop over the attachments (lines 278-321), from index \<open>i\<close> on: the lines logged,
  the indices of the attachments whose upload was handed to the platform, and how the loop
  ended. \<open>key_throws\<close> says that \<open>${data.key}\<close> in the address of the upload cannot
  be converted. Before the upload, \<open>attachment.data.split\<close> throws unless the element
  is an object with a string \<open>data\<close>. After an upload that is \<open>ok\<close> the file name is
  written to the log, inside the \<open>try\<close>.
\<close>

fun upload_loop ::
  "bool \<Rightarrow> (nat \<Rightarrow> upload_outcome) \<Rightarrow> nat \<Rightarrow> json list \<Rightarrow>
     log_event list \<times> nat list \<times> loop_end" where
  "upload_loop key_throws upload i [] = ([], [], Completed)"
| "upload_loop key_throws upload i (attachment # rest) =
     (if attachment = JNull \<or> attachment = JUndefined
         \<or> \<not> isString (get attachment (js ''data'')) \<or> key_throws then
        if catch_throws attachment then ([], [], Aborted)
        else continue_with [UploadError i] [] (upload_loop key_throws upload (i + 1) rest)
      else
        (case upload i of
           UploadThrows \<Rightarrow>
             if catch_throws attachment then ([], [i], Aborted)
             else continue_with [UploadError i] [i] (upload_loop key_throws upload (i + 1) rest)
         | UploadStatus st \<Rightarrow>
             if 200 \<le> st \<and> st \<le> 299 then
               if catch_throws attachment then ([], [i], Aborted)
               else continue_with [Uploaded i] [i] (upload_loop key_throws upload (i + 1) rest)
             else if st = 413 then ([UploadFailed i], [i], Returned too_large)
             else continue_with [UploadFailed i] [i] (upload_loop key_throws upload (i + 1) rest)))"

subsection \<open>The handler\<close>

text \<open>
  What the request that creates the issue came to: the \<open>fetch\<close>, the reading of the
  body or the handling of an error body threw, with this message; the response was not
  \<open>ok\<close>, with this status, and its body was handled; or it was \<open>ok\<close>, with the parsed
  body.
\<close>

datatype create_outcome = CreateThrows jsstring | CreateNotOk nat | CreateOk json

text \<open>The body of the request; a missing property is \<open>undefined\<close>.\<close>

record push_body =
  jiraUrl :: json
  email :: json
  apiToken :: json
  projectKey :: json
  fields' :: json
  customFields :: json
  attachments :: json

text \<open>
  \<open>attachments && attachments.length > 0\<close> (lines 83 and 270) and the elements
  \<open>attachments[i]\<close> that the loop visits. An array has its elements and a string its
  code units; a number or a boolean has no \<open>length\<close>. For an object that is no array
  the comparison converts the value of its property \<open>length\<close> to a number, which throws
  as the conversion to a string does; what the comparison and the loop make of a value
  that can be converted is the platform's, the parameter \<open>items\<close> (no elements when
  the comparison is false). \<open>None\<close> is the \<open>TypeError\<close>.
\<close>

definition length_throws :: "json \<Rightarrow> bool" where
  "length_throws v \<longleftrightarrow>
     (case v of
        JObj kvs \<Rightarrow> string_throws (get v (js ''length''))
      | _ \<Rightarrow> False)"

definition attachment_items :: "(json \<Rightarrow> json list) \<Rightarrow> json \<Rightarrow> json list option" where
  "attachment_items items v =
     (if length_throws v then None
      else Some (case v of
                   JArr xs \<Rightarrow> xs
                 | JStr s \<Rightarrow> map (\<lambda>c. JStr [c]) s
                 | JObj kvs \<Rightarrow> items v
                 | _ \<Rightarrow> []))"

text \<open>
  What the handler meets outside the repository: the list \<open>ALLOWED_ORIGINS\<close> of the
  deployment, the URL constructor, the conversion of numbers, arrays and objects to a
  string, the elements of an object used as an array, and the answers of Jira.
\<close>

record environment =
  ALLOWED_ORIGINS :: "jsstring list"
  new_URL :: "jsstring \<Rightarrow> parsed_url option"
  to_string :: "json \<Rightarrow> jsstring"
  object_items :: "json \<Rightarrow> json list"
  fetch_metadata :: meta_outcome
  create_issue :: "jira_payload \<Rightarrow> create_outcome"
  import_form_data :: bool
  fetch_upload :: "nat \<Rightarrow> upload_outcome"

text \<open>
  What one call of the handler did: its response, the payload it sent to
  \<open>/rest/api/2/issue\<close> if it got that far, the lines it logged, and the attachments
  whose upload it handed to the platform.
\<close>

record outcome =
  response :: response
  submitted :: "jira_payload option"
  logged :: "log_event list"
  uploads :: "nat list"

text \<open>\<open>jiraUrl.replace(/\/$/, '')\<close>\<close>

definition cleanJiraUrl :: "jsstring \<Rightarrow> jsstring" where
  "cleanJiraUrl u = (if u \<noteq> [] \<and> last u = 47 then butlast u else u)"

text \<open>
  The outer \<open>catch\<close> (lines 336-341), \<open>error.message || 'Internal server error'\<close>: for
  a request to Jira that failed with this message, and for an exception of the platform.
\<close>

definition server_error :: "jsstring \<Rightarrow> response" where
  "server_error message =
     Response 500 (ErrorBody (if message \<noteq> [] then message else js ''Internal server error''))"

definition thrown :: response where
  "thrown = Response 500 ThrownBody"

text \<open>
  The attachments of a created issue (lines 270-328): nothing to do, the import of
  \<open>form-data\<close> fails, or the loop runs.
\<close>

definition upload_all ::
  "environment \<Rightarrow> json \<Rightarrow> json list \<Rightarrow> log_event list \<times> nat list \<times> loop_end" where
  "upload_all env data atts =
     (if atts = [] then ([], [], Completed)
      else if \<not> import_form_data env then ([AttachmentsError], [], Aborted)
      else
        (case upload_loop (string_throws (get data (js ''key''))) (fetch_upload env) 0 atts of
           (lines, requests, Completed) \<Rightarrow> (lines @ [AllProcessed], requests, Completed)
         | (lines, requests, Aborted) \<Rightarrow> (lines @ [AttachmentsError], requests, Aborted)
         | (lines, requests, Returned r) \<Rightarrow> (lines, requests, Returned r)))"

text \<open>
  The part of the handler after the issue was created (lines 267-335): the uploads and the
  final response, whose \<open>url\<close> is a template with \<open>${data.key}\<close>.
\<close>

definition after_create ::
  "environment \<Rightarrow> jsstring \<Rightarrow> json \<Rightarrow> json list \<Rightarrow> response \<times> log_event list \<times> nat list" where
  "after_create env url data atts =
     (if data = JNull \<or> data = JUndefined then (thrown, [], [])
      else
        (case upload_all env data atts of
           (lines, requests, Returned r) \<Rightarrow> (r, lines, requests)
         | (lines, requests, _) \<Rightarrow>
             (case js_String (to_string env) (get data (js ''key'')) of
                None \<Rightarrow> (thrown, lines, requests)
              | Some key \<Rightarrow>
                  (Response 200
                     (CreatedBody (get data (js ''key'')) (get data (js ''id''))
                        (get data (js ''self''))
                        (cleanJiraUrl url @ js ''/browse/'' @ key)),
                   lines, requests))))"

text \<open>
  The body of the outer \<open>try\<close> (lines 68-335) of a \<open>POST\<close> request that passed the rate
  limiter. \<open>None\<close> is a body that cannot be read or taken apart: \<open>req.body\<close> throws
  or is \<open>undefined\<close>. \<open>new URL(jiraUrl)\<close> converts its argument inside the \<open>try\<close>
  of the validator; the comparison of line 83, the template \<open>${email}:${apiToken}\<close>
  (line 89) and \<open>jiraUrl.replace\<close> (line 90) throw for the outer \<open>catch\<close>.
\<close>

definition push_try :: "environment \<Rightarrow> push_body option \<Rightarrow> outcome" where
  "push_try env req_body =
     (case req_body of
        None \<Rightarrow>
          \<lparr>response = thrown, submitted = None, logged = [], uploads = []\<rparr>
      | Some b \<Rightarrow>
          if \<not> truthy (jiraUrl b) \<or> \<not> truthy (email b) \<or> \<not> truthy (apiToken b)
             \<or> \<not> truthy (projectKey b) \<or> \<not> truthy (fields' b)
          then \<lparr>response = Response 400 (ErrorBody
                   (js ''Missing required fields: jiraUrl, email, apiToken, projectKey, fields'')),
                submitted = None, logged = [], uploads = []\<rparr>
          else
            let urlValidation =
                  (case js_String (to_string env) (jiraUrl b) of
                     None \<Rightarrow> \<lparr>valid = False, error = Some (js ''Invalid Jira URL format'')\<rparr>
                   | Some text \<Rightarrow> validateJiraUrl (new_URL env) text)
            in if \<not> valid urlValidation
               then \<lparr>response = Response 400
                        (ErrorBody (case error urlValidation of Some e \<Rightarrow> e | None \<Rightarrow> [])),
                     submitted = None, logged = [], uploads = []\<rparr>
               else
                 (case attachment_items (object_items env) (attachments b) of
                    None \<Rightarrow>
                      \<lparr>response = thrown, submitted = None, logged = [], uploads = []\<rparr>
                  | Some items \<Rightarrow>
                      if string_throws (email b) \<or> string_throws (apiToken b)
                      then \<lparr>response = thrown, submitted = None, logged = [], uploads = []\<rparr>
                      else
                        (case jiraUrl b of
                           JStr url \<Rightarrow>
                             (case jiraPayload (to_string env) (fetch_metadata env)
                                     (projectKey b) (fields' b) (customFields b) of
                                None \<Rightarrow>
                                  \<lparr>response = thrown, submitted = None, logged = [],
                                   uploads = []\<rparr>
                              | Some (payload, lines) \<Rightarrow>
                                  (case create_issue env payload of
                                     CreateThrows message \<Rightarrow>
                                       \<lparr>response = server_error message,
                                        submitted = Some payload, logged = lines, uploads = []\<rparr>
                                   | CreateNotOk st \<Rightarrow>
                                       \<lparr>response = Response st UpstreamErrorBody,
                                        submitted = Some payload, logged = lines, uploads = []\<rparr>
                                   | CreateOk data \<Rightarrow>
                                       \<lparr>response = fst (after_create env url data items),
                                        submitted = Some payload,
                                        logged = lines @ fst (snd (after_create env url data items)),
                                        uploads = snd (snd (after_create env url data items))\<rparr>))
                         | _ \<Rightarrow>
                             \<lparr>response = thrown, submitted = None, logged = [],
                              uploads = []\<rparr>)))"

text \<open>
  The value of the header \<open>Access-Control-Allow-Origin\<close> (lines 47-52), from the value
  \<open>origin\<close> of \<open>req.headers.origin || req.headers.referer\<close>, which is a string or
  \<open>undefined\<close> (\<open>None\<close>): \<open>isAllowedOrigin ? origin : ALLOWED_ORIGINS[0] || '*'\<close>.
\<close>

definition allow_origin :: "jsstring list \<Rightarrow> jsstring option \<Rightarrow> jsstring option" where
  "allow_origin allowed origin =
     (if js ''*'' \<in> set allowed \<or> (\<exists>value. origin = Some value \<and> value \<in> set allowed)
      then origin
      else Some (case allowed of
                   [] \<Rightarrow> js ''*''
                 | first # _ \<Rightarrow> if first \<noteq> [] then first else js ''*''))"

text \<open>
  The handler (lines 27-342): rate limiter, headers, method, and the \<open>try\<close>.
  \<open>res.setHeader\<close> throws when the value is \<open>undefined\<close>, before the \<open>try\<close>; a
  value that is a string is one that arrived in a header or stands in the configuration,
  and the platform accepts it.
\<close>

definition push_handler ::
  "environment \<Rightarrow> rate_map \<Rightarrow> jsstring \<Rightarrow> int \<Rightarrow> jsstring option \<Rightarrow> jsstring \<Rightarrow>
     push_body option \<Rightarrow> outcome \<times> rate_map" where
  "push_handler env m ip now origin req_method req_body =
     (case push_rate_limit m ip now of
        (Some (st, message), m') \<Rightarrow>
          (\<lparr>response = Response st (ErrorBody message), submitted = None, logged = [],
            uploads = []\<rparr>, m')
      | (None, m') \<Rightarrow>
          if allow_origin (ALLOWED_ORIGINS env) origin = None then
            (\<lparr>response = Uncaught, submitted = None, logged = [], uploads = []\<rparr>, m')
          else if req_method = js ''OPTIONS'' then
            (\<lparr>response = Response 200 NoBody, submitted = None, logged = [], uploads = []\<rparr>, m')
          else if req_method \<noteq> js ''POST'' then
            (\<lparr>response = Response 405 (ErrorBody (js ''Method not allowed'')),
              submitted = None, logged = [], uploads = []\<rparr>, m')
          else (push_try env req_body, m'))"

text \<open>
  The object \<open>fields\<close> that the client sends (\<open>FormattedTicket.jsx\<close>, line 1358), as the
  proxy reads it from the request.
\<close>

definition fields_json :: "ticket_fields \<Rightarrow> json" where
  "fields_json f =
     JObj [(js ''title'', JStr (title f)),
           (js ''description'', JStr (description f)),
           (js ''steps'', JStr (steps f)),
           (js ''expected'', JStr (expected f)),
           (js ''actual'', JStr (actual f)),
           (js ''impact'', JStr (impact f)),
           (js ''priorityId'', JStr (priorityId f)),
           (js ''priorityName'', JStr (priorityName f)),
           (js ''environment'', JStr (environment f))]"

text \<open>
  The message the client shows for a response that is not \<open>ok\<close>
  (\<open>FormattedTicket.jsx\<close>, lines 1444-1484). The four statuses with a text of their own
  come first; \<open>other\<close> is the message the remaining lines build from the body of the
  response. The pictographs are written as their code units.
\<close>

definition client_too_large :: jsstring where
  "client_too_large = [55357, 56550] @
     js '' One or more files you uploaded are too large for Jira. Please remove large files (click Clear All or individual X buttons) and then push the ticket again.''"

definition pushToJira_error :: "nat \<Rightarrow> jsstring \<Rightarrow> jsstring" where
  "pushToJira_error st other =
     (if st = 413 then client_too_large
      else if st = 401 then [55357, 56592] @
        js '' Authentication failed. Please check your Jira Email and API Token in settings.''
      else if st = 403 then [55357, 57003] @
        js '' Permission denied. Your Jira account may not have permission to create tickets in this project.''
      else if st = 404 then [55357, 56589] @
        js '' Project not found. Please verify your Jira URL and Project Key in settings.''
      else other)"

section \<open>The API key of the language model\<close>

text \<open>
  \<open>process.env.ANTHROPIC_API_KEY\<close> is a string or \<open>undefined\<close>; \<open>!ANTHROPIC_API_KEY\<close>
  holds for \<open>undefined\<close> and for the empty string.
\<close>

definition key_missing :: "jsstring option \<Rightarrow> bool" where
  "key_missing k \<longleftrightarrow> (case k of None \<Rightarrow> True | Some s \<Rightarrow> s = [])"

text \<open>
  The start of \<open>server.js\<close> (lines 14-20): without the key the process ends with
  \<open>process.exit(1)\<close> before the application is set up; otherwise it goes on to listen.
\<close>

datatype startup = Exit nat | Listening

definition server_startup :: "jsstring option \<Rightarrow> startup" where
  "server_startup ANTHROPIC_API_KEY = (if key_missing ANTHROPIC_API_KEY then Exit 1 else Listening)"

text \<open>
  The life of the local server: how it started, and what the middleware \<open>rateLimit\<close> did
  with each request it received (\<open>None\<close>: passed on to the routes).
\<close>

fun server_requests :: "rate_map \<Rightarrow> (jsstring \<times> int) list \<Rightarrow> (nat \<times> jsstring) option list" where
  "server_requests m [] = []"
| "server_requests m ((ip, now) # rs) =
     fst (rateLimit m ip now) # server_requests (snd (rateLimit m ip now)) rs"

definition server_life ::
  "jsstring option \<Rightarrow> (jsstring \<times> int) list \<Rightarrow> startup \<times> (nat \<times> jsstring) option list" where
  "server_life ANTHROPIC_API_KEY rs =
     (case server_startup ANTHROPIC_API_KEY of
        Exit code \<Rightarrow> (Exit code, [])
      | Listening \<Rightarrow> (Listening, server_requests Map.empty rs))"

text \<open>
  The handler of \<open>netlify/functions/generate-ticket.cjs\<close> up to the \<open>try\<close> block
  (lines 12-76). The module reads the key when it is loaded and tests it in every call,
  after the rate limiter. \<open>Forward\<close> stands for the \<open>try\<close> block, which parses the body
  and calls the API of the language model.
\<close>

datatype generate_result = Answer nat jsstring | Forward

definition generate_handler ::
  "jsstring option \<Rightarrow> rate_map \<Rightarrow> jsstring \<Rightarrow> int \<Rightarrow> jsstring \<Rightarrow> generate_result \<times> rate_map" where
  "generate_handler ANTHROPIC_API_KEY m ip now httpMethod =
     (case generate_rate_limit m ip now of
        (Some (st, message), m') \<Rightarrow> (Answer st message, m')
      | (None, m') \<Rightarrow>
          if key_missing ANTHROPIC_API_KEY then
            (Answer 500 (js ''Server configuration error: API key not set''), m')
          else if httpMethod = js ''OPTIONS'' then (Answer 200 [], m')
          else if httpMethod \<noteq> js ''POST'' then (Answer 405 (js ''Method not allowed''), m')
          else (Forward, m'))"

text \<open>The life of one instance of the function: the result of each call, in order.\<close>

fun generate_life ::
  "jsstring option \<Rightarrow> rate_map \<Rightarrow> (jsstring \<times> int \<times> jsstring) list \<Rightarrow> generate_result list" where
  "generate_life k m [] = []"
| "generate_life k m ((ip, now, httpMethod) # rs) =
     fst (generate_handler k m ip now httpMethod)
       # generate_life k (snd (generate_handler k m ip now httpMethod)) rs"

section \<open>Requests and samples for the statements about the proxy\<close>

text \<open>
  The conversions that the handler makes on its way to the payload all succeed: the
  length of \<open>attachments\<close> (line 83), \<open>email\<close> and \<open>apiToken\<close> (line 89), the six
  texts of the description (lines 129-134) and, when it is there, the engineering team
  (line 197).
\<close>

definition converts :: "push_body \<Rightarrow> bool" where
  "converts b \<longleftrightarrow>
     \<not> length_throws (attachments b)
     \<and> \<not> string_throws (email b) \<and> \<not> string_throws (apiToken b)
     \<and> \<not> string_throws (get (fields' b) (js ''description''))
     \<and> \<not> string_throws (get (fields' b) (js ''steps''))
     \<and> \<not> string_throws (get (fields' b) (js ''expected''))
     \<and> \<not> string_throws (get (fields' b) (js ''actual''))
     \<and> \<not> string_throws (get (fields' b) (js ''impact''))
     \<and> \<not> string_throws (get (fields' b) (js ''environment''))
     \<and> (truthy (customFields b) \<and> truthy (get (customFields b) (js ''engineeringTeam''))
          \<longrightarrow> \<not> string_throws (get (customFields b) (js ''engineeringTeam'')))"

text \<open>
  A request is accepted by the push proxy when the handler gets as far as sending the
  payload: the caller is not over the limit of 10 in a running window, the header
  \<open>Access-Control-Allow-Origin\<close> gets a value, the method is \<open>POST\<close>, the five
  required values are there, the address is a string that the validator accepts, and the
  conversions succeed.
\<close>

definition accepted ::
  "environment \<Rightarrow> rate_map \<Rightarrow> jsstring \<Rightarrow> int \<Rightarrow> jsstring option \<Rightarrow> jsstring \<Rightarrow>
     push_body option \<Rightarrow> bool" where
  "accepted env m ip now origin req_method req_body \<longleftrightarrow>
     \<not> (\<exists>e. m ip = Some e \<and> now < resetTime e \<and> 10 \<le> count e)
     \<and> (origin = None \<longrightarrow> js ''*'' \<notin> set (ALLOWED_ORIGINS env))
     \<and> req_method = js ''POST'' \<and>
     (\<exists>b url. req_body = Some b \<and> jiraUrl b = JStr url \<and> url \<noteq> []
        \<and> truthy (email b) \<and> truthy (apiToken b) \<and> truthy (projectKey b) \<and> truthy (fields' b)
        \<and> valid (validateJiraUrl (new_URL env) url)
        \<and> converts b)"

text \<open>
  An attachment as the client sends it: an object with a string \<open>data\<close> and a file name
  that can be written to the log.
\<close>

definition well_formed_attachment :: "json \<Rightarrow> bool" where
  "well_formed_attachment a \<longleftrightarrow>
     a \<noteq> JNull \<and> a \<noteq> JUndefined \<and> isString (get a (js ''data''))
     \<and> \<not> string_throws (get a (js ''filename''))"

text \<open>
  A sample: a deployment that allows every origin, a request from a page of the
  application, the metadata of a project whose engineering teams do not include the one
  asked for, a tracker that creates the issue \<open>BUG-1\<close>, and uploads of which the third
  fails and the fourth is too large.
\<close>

definition sample_field :: json where
  "sample_field =
     JObj [(js ''allowedValues'',
            JArr [JObj [(js ''id'', JStr (js ''10500'')), (js ''value'', JStr (js ''Platform''))]])]"

definition sample_metadata :: json where
  "sample_metadata =
     JObj [(js ''projects'',
            JArr [JObj [(js ''issuetypes'',
                         JArr [JObj [(js ''fields'',
                                      JObj [(js ''customfield_11737'', sample_field)])]])]])]"

definition sample_env :: environment where
  "sample_env =
     \<lparr>ALLOWED_ORIGINS = [js ''*''],
      new_URL = sample_URL,
      to_string = (\<lambda>v. []),
      object_items = (\<lambda>v. []),
      fetch_metadata = MetaOk sample_metadata,
      create_issue = (\<lambda>p. CreateOk (JObj [(js ''key'', JStr (js ''BUG-1''))])),
      import_form_data = True,
      fetch_upload = (\<lambda>i. if i = 2 then UploadStatus 500
                          else if i = 3 then UploadStatus 413 else UploadStatus 200)\<rparr>"

definition sample_origin :: "jsstring option" where
  "sample_origin = Some (js ''https://tickets.example.com'')"

definition sample_attachment :: json where
  "sample_attachment =
     JObj [(js ''filename'', JStr (js ''screen.png'')),
           (js ''contentType'', JStr (js ''image/png'')),
           (js ''data'', JStr (js ''data:image/png;base64,AAAA''))]"

definition sample_body :: "json list \<Rightarrow> push_body" where
  "sample_body atts =
     \<lparr>jiraUrl = JStr (js ''https://acme.atlassian.net''),
      email = JStr (js ''qa@example.com''),
      apiToken = JStr (js ''token''),
      projectKey = JStr (js ''BUG''),
      fields' = fields_json (parseTicketForJira sample_ticket),
      customFields = JObj [(js ''engineeringTeam'', JStr (js '' Checkout ''))],
      attachments = JArr atts\<rparr>"

section \<open>Properties of the rate limiter\<close>

subsection \<open>Strings\<close>

lemma js_eq_iff [simp]: "js a = js b \<longleftrightarrow> a = b"
proof -
  have "inj (of_char :: char \<Rightarrow> nat)" by (rule injI) simp
  then show ?thesis by (simp add: js_def inj_map_eq_map)
qed

subsection \<open>One caller inside one window\<close>

lemma handler_rate_limit_other:
  "ip \<noteq> k \<Longrightarrow> snd (handler_rate_limit M m ip now) k = m k"
  by (simp add: handler_rate_limit_def split: option.splits)

lemma handler_rate_limit_window:
  assumes "m k = Some e" "now < resetTime e"
  shows "handler_rate_limit M m k now =
           (if M \<le> count e then (Some too_many_requests, m)
            else (None, m(k \<mapsto> e\<lparr>count := count e + 1\<rparr>)))"
  using assms by (simp add: handler_rate_limit_def)

lemma handler_rate_limit_fresh:
  assumes "m k = None \<or> (\<exists>e. m k = Some e \<and> resetTime e \<le> now)"
  shows "handler_rate_limit M m k now =
           (None, m(k \<mapsto> \<lparr>count = 1, resetTime = now + RATE_LIMIT_WINDOW\<rparr>))"
  using assms by (auto simp add: handler_rate_limit_def)

lemma serve_handler_window:
  assumes "m k = Some \<lparr>count = c, resetTime = R\<rparr>" "c \<le> M"
    and "\<forall>r\<in>set rs. fst r = k \<longrightarrow> snd r < R"
  shows "serve (handler_rate_limit M) m rs k =
           Some \<lparr>count = min (c + int (requests_of k rs)) M, resetTime = R\<rparr>"
  using assms
proof (induction rs arbitrary: m c)
  case Nil
  then show ?case by (simp add: requests_of_def)
next
  case (Cons r rs)
  obtain ip now where r: "r = (ip, now)" by (cases r)
  show ?case
  proof (cases "ip = k")
    case False
    then have "snd (handler_rate_limit M m ip now) k = Some \<lparr>count = c, resetTime = R\<rparr>"
      using Cons.prems(1) by (simp add: handler_rate_limit_other)
    from Cons.IH [of "snd (handler_rate_limit M m ip now)" c, OF this Cons.prems(2)] Cons.prems(3) False r
    show ?thesis by (simp add: requests_of_def)
  next
    case True
    have now: "now < R" using Cons.prems(3) True r by simp
    show ?thesis
    proof (cases "M \<le> c")
      case full: True
      then have "snd (handler_rate_limit M m ip now) k = Some \<lparr>count = c, resetTime = R\<rparr>"
        using Cons.prems(1) now True by (simp add: handler_rate_limit_window)
      from Cons.IH [of "snd (handler_rate_limit M m ip now)" c, OF this Cons.prems(2)] Cons.prems(3) full Cons.prems(2) True r
      show ?thesis by (simp add: requests_of_def)
    next
      case room: False
      then have "snd (handler_rate_limit M m ip now) k = Some \<lparr>count = c + 1, resetTime = R\<rparr>"
        using Cons.prems(1) now True by (simp add: handler_rate_limit_window)
      moreover have "c + 1 \<le> M" using room by simp
      ultimately have "serve (handler_rate_limit M) (snd (handler_rate_limit M m ip now)) rs k =
           Some \<lparr>count = min (c + 1 + int (requests_of k rs)) M, resetTime = R\<rparr>"
        using Cons.IH [of "snd (handler_rate_limit M m ip now)" "c + 1"] Cons.prems(3) by simp
      then show ?thesis using True r by (simp add: requests_of_def add.commute add.left_commute)
    qed
  qed
qed

lemma rateLimit_other:
  "ip \<noteq> k \<Longrightarrow> snd (rateLimit m ip now) k = m k"
  by (simp add: rateLimit_def split: option.splits)

lemma rateLimit_window:
  assumes "m k = Some e" "now \<le> resetTime e"
  shows "rateLimit m k now =
           (if 20 \<le> count e then (Some too_many_requests, m)
            else (None, m(k \<mapsto> e\<lparr>count := count e + 1\<rparr>)))"
  using assms by (simp add: rateLimit_def)

lemma rateLimit_fresh:
  assumes "m k = None \<or> (\<exists>e. m k = Some e \<and> resetTime e < now)"
  shows "rateLimit m k now =
           (None, m(k \<mapsto> \<lparr>count = 1, resetTime = now + RATE_LIMIT_WINDOW\<rparr>))"
proof -
  have h: "e\<lparr>count := 1, resetTime := r\<rparr> = \<lparr>count = 1, resetTime = r\<rparr>" for e :: rate_entry and r
    by (cases e) simp
  show ?thesis using assms by (auto simp add: rateLimit_def h)
qed

lemma serve_rateLimit_window:
  assumes "m k = Some \<lparr>count = c, resetTime = R\<rparr>" "c \<le> 20"
    and "\<forall>r\<in>set rs. fst r = k \<longrightarrow> snd r \<le> R"
  shows "serve rateLimit m rs k =
           Some \<lparr>count = min (c + int (requests_of k rs)) 20, resetTime = R\<rparr>"
  using assms
proof (induction rs arbitrary: m c)
  case Nil
  then show ?case by (simp add: requests_of_def)
next
  case (Cons r rs)
  obtain ip now where r: "r = (ip, now)" by (cases r)
  show ?case
  proof (cases "ip = k")
    case False
    then have "snd (rateLimit m ip now) k = Some \<lparr>count = c, resetTime = R\<rparr>"
      using Cons.prems(1) by (simp add: rateLimit_other)
    from Cons.IH [of "snd (rateLimit m ip now)" c, OF this Cons.prems(2)] Cons.prems(3) False r
    show ?thesis by (simp add: requests_of_def)
  next
    case True
    have now: "now \<le> R" using Cons.prems(3) True r by simp
    show ?thesis
    proof (cases "20 \<le> c")
      case full: True
      then have "snd (rateLimit m ip now) k = Some \<lparr>count = c, resetTime = R\<rparr>"
        using Cons.prems(1) now True by (simp add: rateLimit_window)
      from Cons.IH [of "snd (rateLimit m ip now)" c, OF this Cons.prems(2)] Cons.prems(3) full Cons.prems(2) True r
      show ?thesis by (simp add: requests_of_def)
    next
      case room: False
      then have "snd (rateLimit m ip now) k = Some \<lparr>count = c + 1, resetTime = R\<rparr>"
        using Cons.prems(1) now True by (simp add: rateLimit_window)
      moreover have "c + 1 \<le> 20" using room by simp
      ultimately have "serve rateLimit (snd (rateLimit m ip now)) rs k =
           Some \<lparr>count = min (c + 1 + int (requests_of k rs)) 20, resetTime = R\<rparr>"
        using Cons.IH [of "snd (rateLimit m ip now)" "c + 1"] Cons.prems(3) by simp
      then show ?thesis using True r by (simp add: requests_of_def add.commute add.left_commute)
    qed
  qed
qed

text \<open>The state of caller k after its first request at t0 and the requests rs of the same window.\<close>

lemma handler_after_window:
  assumes "m k = None \<or> (\<exists>e. m k = Some e \<and> resetTime e \<le> t0)" "1 \<le> M"
    and "\<forall>r\<in>set rs. fst r = k \<longrightarrow> snd r < t0 + RATE_LIMIT_WINDOW"
  shows "serve (handler_rate_limit M) m ((k, t0) # rs) k =
     Some \<lparr>count = min (int (requests_of k ((k, t0) # rs))) M, resetTime = t0 + RATE_LIMIT_WINDOW\<rparr>"
proof -
  let ?m1 = "m(k \<mapsto> \<lparr>count = 1, resetTime = t0 + RATE_LIMIT_WINDOW\<rparr>)"
  have "serve (handler_rate_limit M) ?m1 rs k =
      Some \<lparr>count = min (1 + int (requests_of k rs)) M, resetTime = t0 + RATE_LIMIT_WINDOW\<rparr>"
    using assms(2,3) by (intro serve_handler_window) simp_all
  then show ?thesis
    using handler_rate_limit_fresh [of m k t0 M] assms(1) by (simp add: requests_of_def)
qed

lemma rateLimit_after_window:
  assumes "m k = None \<or> (\<exists>e. m k = Some e \<and> resetTime e < t0)"
    and "\<forall>r\<in>set rs. fst r = k \<longrightarrow> snd r \<le> t0 + RATE_LIMIT_WINDOW"
  shows "serve rateLimit m ((k, t0) # rs) k =
     Some \<lparr>count = min (int (requests_of k ((k, t0) # rs))) 20, resetTime = t0 + RATE_LIMIT_WINDOW\<rparr>"
proof -
  let ?m1 = "m(k \<mapsto> \<lparr>count = 1, resetTime = t0 + RATE_LIMIT_WINDOW\<rparr>)"
  have "serve rateLimit ?m1 rs k =
      Some \<lparr>count = min (1 + int (requests_of k rs)) 20, resetTime = t0 + RATE_LIMIT_WINDOW\<rparr>"
    using assms(2) by (intro serve_rateLimit_window) simp_all
  then show ?thesis
    using rateLimit_fresh [of m k t0] assms(1) by (simp add: requests_of_def)
qed

lemma handler_nth:
  assumes "m k = None \<or> (\<exists>e. m k = Some e \<and> resetTime e \<le> t0)" "1 \<le> M"
    and "\<forall>r\<in>set rs. fst r = k \<longrightarrow> snd r < t0 + RATE_LIMIT_WINDOW"
    and "t < t0 + RATE_LIMIT_WINDOW"
    and "N = int (requests_of k ((k, t0) # rs)) + 1"
  shows "handler_rate_limit M (serve (handler_rate_limit M) m ((k, t0) # rs)) k t =
          (if M < N then (Some too_many_requests, serve (handler_rate_limit M) m ((k, t0) # rs))
           else (None, (serve (handler_rate_limit M) m ((k, t0) # rs))
                   (k \<mapsto> \<lparr>count = N, resetTime = t0 + RATE_LIMIT_WINDOW\<rparr>)))"
  using handler_after_window [of m k t0 M rs] assms
  by (simp add: handler_rate_limit_window min_def)

lemma rateLimit_nth:
  assumes "m k = None \<or> (\<exists>e. m k = Some e \<and> resetTime e < t0)"
    and "\<forall>r\<in>set rs. fst r = k \<longrightarrow> snd r \<le> t0 + RATE_LIMIT_WINDOW"
    and "t \<le> t0 + RATE_LIMIT_WINDOW"
    and "N = int (requests_of k ((k, t0) # rs)) + 1"
  shows "rateLimit (serve rateLimit m ((k, t0) # rs)) k t =
          (if 20 < N then (Some too_many_requests, serve rateLimit m ((k, t0) # rs))
           else (None, (serve rateLimit m ((k, t0) # rs))
                   (k \<mapsto> \<lparr>count = N, resetTime = t0 + RATE_LIMIT_WINDOW\<rparr>)))"
  using rateLimit_after_window [of m k t0 rs] assms
  by (simp add: rateLimit_window min_def)

text \<open>
  Claim C1. A caller \<open>k\<close> that has no running window (no entry, or an entry whose
  window has ended) sends a request at \<open>t0\<close>; it is allowed and stores count 1. Any
  requests \<open>rs\<close> follow, of this and other callers, those of \<open>k\<close> before the end
  \<open>t0 + RATE_LIMIT_WINDOW\<close> of the window. Then the next request of \<open>k\<close> in the window
  is the \<open>N\<close>th of the window, and it gets the response with status 429 and the text
  \<open>Too many requests. Please try again in a minute.\<close> if and only if \<open>N\<close> exceeds
  the threshold of the endpoint: 10 for the Jira push proxy, 15 for the ticket generation
  proxy, 20 for the local server. Up to the threshold it is allowed and the stored count
  becomes \<open>N\<close>.
\<close>

theorem nth_request_denied_iff_over_threshold:
  assumes "(limiter, threshold) \<in>
             {(push_rate_limit, 10), (generate_rate_limit, 15), (rateLimit, 20)}"
    and "m k = None \<or> (\<exists>e. m k = Some e \<and> resetTime e < t0)"
    and "\<forall>r\<in>set rs. fst r = k \<longrightarrow> snd r < t0 + RATE_LIMIT_WINDOW"
    and "t < t0 + RATE_LIMIT_WINDOW"
    and "N = int (requests_of k ((k, t0) # rs)) + 1"
    and "m' = serve limiter m ((k, t0) # rs)"
  shows "limiter m k t0 = (None, m(k \<mapsto> \<lparr>count = 1, resetTime = t0 + RATE_LIMIT_WINDOW\<rparr>))
       \<and> (fst (limiter m' k t) = Some (429, js ''Too many requests. Please try again in a minute.'')
            \<longleftrightarrow> threshold < N)
       \<and> (N \<le> threshold \<longrightarrow>
            limiter m' k t = (None, m'(k \<mapsto> \<lparr>count = N, resetTime = t0 + RATE_LIMIT_WINDOW\<rparr>)))"
proof -
  have lit: "(429, js ''Too many requests. Please try again in a minute.'') = too_many_requests"
    by (simp add: too_many_requests_def)
  have fresh: "m k = None \<or> (\<exists>e. m k = Some e \<and> resetTime e \<le> t0)"
    using assms(2) by auto
  have w: "\<forall>r\<in>set rs. fst r = k \<longrightarrow> snd r \<le> t0 + RATE_LIMIT_WINDOW"
    using assms(3) by auto
  consider "limiter = handler_rate_limit 10" "threshold = 10"
    | "limiter = handler_rate_limit 15" "threshold = 15"
    | "limiter = rateLimit" "threshold = 20"
    using assms(1) by (auto simp: push_rate_limit_def generate_rate_limit_def)
  then show ?thesis
  proof cases
    case 1
    then show ?thesis
      using handler_nth [of m k t0 10 rs t N] handler_rate_limit_fresh [of m k t0 10] fresh assms(3,4,5,6)
      unfolding lit by simp
  next
    case 2
    then show ?thesis
      using handler_nth [of m k t0 15 rs t N] handler_rate_limit_fresh [of m k t0 15] fresh assms(3,4,5,6)
      unfolding lit by simp
  next
    case 3
    then show ?thesis
      using rateLimit_nth [of m k t0 rs t N] rateLimit_fresh [of m k t0] w assms(2,4,5,6)
      unfolding lit by simp
  qed
qed

theorem nth_request_denied_iff_over_threshold_witness:
  "fst (push_rate_limit
          (serve push_rate_limit Map.empty
             ((js ''203.0.113.7'', 1000) # replicate 9 (js ''203.0.113.7'', 1500)))
          (js ''203.0.113.7'') 2000)
     = Some (429, js ''Too many requests. Please try again in a minute.'')
   \<and> requests_of (js ''203.0.113.7'')
         ((js ''203.0.113.7'', 1000) # replicate 9 (js ''203.0.113.7'', 1500)) = 10"
proof -
  let ?k = "js ''203.0.113.7''"
  let ?rs = "replicate 9 (?k, 1500 :: int)"
  have h1: "(push_rate_limit, 10) \<in>
             {(push_rate_limit, 10), (generate_rate_limit, 15), (rateLimit, 20)}"
    by simp
  have h2: "Map.empty ?k = None \<or> (\<exists>e. Map.empty ?k = Some e \<and> resetTime e < 1000)"
    by simp
  have h3: "\<forall>r\<in>set ?rs. fst r = ?k \<longrightarrow> snd r < 1000 + RATE_LIMIT_WINDOW"
    by (simp add: RATE_LIMIT_WINDOW_def)
  have h4: "(2000::int) < 1000 + RATE_LIMIT_WINDOW"
    by (simp add: RATE_LIMIT_WINDOW_def)
  have h5: "(11::int) = int (requests_of ?k ((?k, 1000) # ?rs)) + 1"
    by (simp add: requests_of_def)
  show ?thesis
    using nth_request_denied_iff_over_threshold [OF h1 h2 h3 h4 h5 refl] h5
    by (simp del: serve.simps)
qed

text \<open>
  The cleanup timer of the local server does not touch an entry whose window is running:
  it deletes an entry only more than a minute after the end of its window.
\<close>

lemma cleanup_keeps_running_window:
  assumes "m k = Some e" "now \<le> resetTime e + 60000"
  shows "cleanup m now k = Some e"
  using assms by (simp add: cleanup_def)

subsection \<open>The invariant\<close>

lemma counts_bounded_empty: "counts_bounded M Map.empty"
  by (simp add: counts_bounded_def)

lemma counts_bounded_upd:
  "counts_bounded M m \<Longrightarrow> 1 \<le> count e \<Longrightarrow> count e \<le> M \<Longrightarrow> counts_bounded M (m(ip \<mapsto> e))"
  by (simp add: counts_bounded_def)

lemma counts_boundedD:
  "counts_bounded M m \<Longrightarrow> m ip = Some e \<Longrightarrow> 1 \<le> count e \<and> count e \<le> M"
  by (simp add: counts_bounded_def)

lemma handler_rate_limit_bounded:
  assumes "counts_bounded M m" "1 \<le> M"
  shows "counts_bounded M (snd (handler_rate_limit M m ip now))"
proof (cases "m ip")
  case None
  then show ?thesis
    using assms by (simp add: handler_rate_limit_def counts_bounded_upd)
next
  case (Some limit)
  then show ?thesis
    using assms counts_boundedD [OF assms(1) Some]
    by (simp add: handler_rate_limit_def counts_bounded_upd)
qed

lemma rateLimit_bounded:
  assumes "counts_bounded 20 m"
  shows "counts_bounded 20 (snd (rateLimit m ip now))"
proof (cases "m ip")
  case None
  then show ?thesis
    using assms by (simp add: rateLimit_def counts_bounded_upd)
next
  case (Some limit)
  then show ?thesis
    using assms counts_boundedD [OF assms Some]
    by (simp add: rateLimit_def counts_bounded_upd)
qed

lemma cleanup_bounded:
  assumes "counts_bounded M m"
  shows "counts_bounded M (cleanup m now)"
  using assms unfolding counts_bounded_def cleanup_def
  by (auto split: option.splits if_splits)

lemma serve_handler_bounded:
  "counts_bounded M m \<Longrightarrow> 1 \<le> M \<Longrightarrow> counts_bounded M (serve (handler_rate_limit M) m rs)"
proof (induction rs arbitrary: m)
  case Nil
  then show ?case by simp
next
  case (Cons r rs)
  obtain ip now where "r = (ip, now)" by (cases r)
  then show ?case
    using Cons.IH [of "snd (handler_rate_limit M m ip now)"] Cons.prems
    by (simp add: handler_rate_limit_bounded)
qed

lemma server_run_bounded:
  "counts_bounded 20 m \<Longrightarrow> counts_bounded 20 (server_run m es)"
proof (induction es arbitrary: m)
  case Nil
  then show ?case by simp
next
  case (Cons ev es)
  then show ?case
    by (cases ev) (simp_all add: rateLimit_bounded cleanup_bounded)
qed

lemma handler_denied_unchanged:
  "fst (handler_rate_limit M m ip now) = Some r \<Longrightarrow> snd (handler_rate_limit M m ip now) = m"
  by (auto simp: handler_rate_limit_def split: option.splits if_splits)

lemma rateLimit_denied_unchanged:
  "fst (rateLimit m ip now) = Some r \<Longrightarrow> snd (rateLimit m ip now) = m"
  by (auto simp: rateLimit_def split: option.splits if_splits)

text \<open>
  Claim C8. From the empty map of a fresh process, after any sequence of requests (and, in
  the local server, any runs of the cleanup timer), every stored count is at most the
  threshold of the endpoint; and a request that is denied leaves the map as it was.
\<close>

theorem count_never_exceeds_threshold:
  "(serve push_rate_limit Map.empty rs ip = Some e \<longrightarrow> count e \<le> 10)
 \<and> (serve generate_rate_limit Map.empty rs ip = Some e \<longrightarrow> count e \<le> 15)
 \<and> (server_run Map.empty es ip = Some e \<longrightarrow> count e \<le> 20)
 \<and> (fst (push_rate_limit m ip now) = Some r \<longrightarrow> snd (push_rate_limit m ip now) = m)
 \<and> (fst (generate_rate_limit m ip now) = Some r \<longrightarrow> snd (generate_rate_limit m ip now) = m)
 \<and> (fst (rateLimit m ip now) = Some r \<longrightarrow> snd (rateLimit m ip now) = m)"
proof -
  have "counts_bounded 10 (serve (handler_rate_limit 10) Map.empty rs)"
    by (rule serve_handler_bounded) (simp_all add: counts_bounded_empty)
  moreover have "counts_bounded 15 (serve (handler_rate_limit 15) Map.empty rs)"
    by (rule serve_handler_bounded) (simp_all add: counts_bounded_empty)
  moreover have "counts_bounded 20 (server_run Map.empty es)"
    by (rule server_run_bounded) (simp add: counts_bounded_empty)
  ultimately show ?thesis
    unfolding push_rate_limit_def generate_rate_limit_def
    using handler_denied_unchanged [of 10 m ip now r] handler_denied_unchanged [of 15 m ip now r]
      rateLimit_denied_unchanged [of m ip now r]
    by (simp add: counts_bounded_def)
qed

theorem count_never_exceeds_threshold_witness:
  "serve push_rate_limit Map.empty (replicate 12 (js ''203.0.113.7'', 1000)) (js ''203.0.113.7'')
     = Some \<lparr>count = 10, resetTime = 61000\<rparr>
   \<and> count \<lparr>count = 10, resetTime = 61000\<rparr> \<le> 10"
proof -
  have h: "serve push_rate_limit Map.empty (replicate 12 (js ''203.0.113.7'', 1000)) (js ''203.0.113.7'')
     = Some \<lparr>count = 10, resetTime = 61000\<rparr>"
    by (simp add: push_rate_limit_def handler_rate_limit_def RATE_LIMIT_WINDOW_def numeral_eq_Suc)
  show ?thesis
    using h count_never_exceeds_threshold
      [of "replicate 12 (js ''203.0.113.7'', 1000)" "js ''203.0.113.7''"
          "\<lparr>count = 10, resetTime = 61000\<rparr>"]
    by simp
qed

subsection \<open>The window boundary\<close>

text \<open>
  In the serverless handlers a request at the stored \<open>resetTime\<close> itself starts a fresh
  window.
\<close>

lemma handler_rate_limit_boundary:
  assumes "m k = Some e" "now = resetTime e"
  shows "handler_rate_limit M m k now =
           (None, m(k \<mapsto> \<lparr>count = 1, resetTime = now + RATE_LIMIT_WINDOW\<rparr>))"
  using assms by (simp add: handler_rate_limit_def)

text \<open>
  Claim C7. The middleware of the local server tests \<open>now > limit.resetTime\<close>: after
  20 requests at time 0 the entry is \<open>{count: 20, resetTime: 60000}\<close>, and a request at
  time 60000, the stored end of the window, is answered 429 under the old window instead of
  starting a fresh one. The push proxy, on the same history, starts a fresh window with
  count 1.
\<close>

theorem server_boundary_request_not_reset:
  "rateLimit (serve rateLimit Map.empty (replicate 20 (js ''203.0.113.7'', 0)))
       (js ''203.0.113.7'') 60000
     = (Some too_many_requests, serve rateLimit Map.empty (replicate 20 (js ''203.0.113.7'', 0)))
   \<and> serve rateLimit Map.empty (replicate 20 (js ''203.0.113.7'', 0)) (js ''203.0.113.7'')
       = Some \<lparr>count = 20, resetTime = 60000\<rparr>
   \<and> fst (push_rate_limit (serve push_rate_limit Map.empty (replicate 20 (js ''203.0.113.7'', 0)))
       (js ''203.0.113.7'') 60000) = None
   \<and> snd (push_rate_limit (serve push_rate_limit Map.empty (replicate 20 (js ''203.0.113.7'', 0)))
       (js ''203.0.113.7'') 60000) (js ''203.0.113.7'') = Some \<lparr>count = 1, resetTime = 120000\<rparr>"
proof -
  have s: "serve rateLimit Map.empty (replicate 20 (js ''203.0.113.7'', 0)) (js ''203.0.113.7'')
       = Some \<lparr>count = 20, resetTime = 60000\<rparr>"
    by (simp add: rateLimit_def RATE_LIMIT_WINDOW_def numeral_eq_Suc)
  have p: "serve push_rate_limit Map.empty (replicate 20 (js ''203.0.113.7'', 0)) (js ''203.0.113.7'')
       = Some \<lparr>count = 10, resetTime = 60000\<rparr>"
    by (simp add: push_rate_limit_def handler_rate_limit_def RATE_LIMIT_WINDOW_def numeral_eq_Suc)
  have "rateLimit (serve rateLimit Map.empty (replicate 20 (js ''203.0.113.7'', 0)))
       (js ''203.0.113.7'') 60000
     = (Some too_many_requests, serve rateLimit Map.empty (replicate 20 (js ''203.0.113.7'', 0)))"
    using s by (simp add: rateLimit_window)
  moreover have "push_rate_limit (serve push_rate_limit Map.empty (replicate 20 (js ''203.0.113.7'', 0)))
       (js ''203.0.113.7'') 60000 = (None, (serve push_rate_limit Map.empty (replicate 20 (js ''203.0.113.7'', 0)))
           (js ''203.0.113.7'' \<mapsto> \<lparr>count = 1, resetTime = 60000 + RATE_LIMIT_WINDOW\<rparr>))"
    unfolding push_rate_limit_def
    by (rule handler_rate_limit_fresh) (use p in \<open>simp add: push_rate_limit_def\<close>)
  ultimately show ?thesis using s by (simp add: RATE_LIMIT_WINDOW_def)
qed

section \<open>Properties of the URL validator\<close>

lemma endsWith_iff_suffix: "endsWith s x \<longleftrightarrow> suffix x s"
proof
  assume "endsWith s x"
  then have "s = take (length s - length x) s @ x"
    by (metis append_take_drop_id endsWith_def)
  then show "suffix x s" by (metis suffixI)
next
  assume "suffix x s"
  then obtain zs where "s = zs @ x" by (auto simp: suffix_def)
  then show "endsWith s x" by (simp add: endsWith_def)
qed

text \<open>
  Claim C2. For every candidate string, the validator accepts if and only if the string
  parses as a URL whose protocol is exactly \<open>https:\<close> and whose hostname ends with
  \<open>.atlassian.net\<close>. Otherwise it rejects, with one reason for a string that does not
  parse, another for a wrong scheme and a third for a wrong host; the three reasons are
  pairwise different.
\<close>

theorem validateJiraUrl_accepts_iff:
  "(valid (validateJiraUrl URL url) \<longleftrightarrow>
      (\<exists>p. URL url = Some p \<and> protocol p = js ''https:''
           \<and> suffix (js ''.atlassian.net'') (hostname p)))
   \<and> (URL url = None \<longrightarrow>
        validateJiraUrl URL url = \<lparr>valid = False, error = Some (js ''Invalid Jira URL format'')\<rparr>)
   \<and> (\<forall>p. URL url = Some p \<and> protocol p \<noteq> js ''https:'' \<longrightarrow>
        validateJiraUrl URL url = \<lparr>valid = False, error = Some (js ''Jira URL must use HTTPS'')\<rparr>)
   \<and> (\<forall>p. URL url = Some p \<and> protocol p = js ''https:''
            \<and> \<not> suffix (js ''.atlassian.net'') (hostname p) \<longrightarrow>
        validateJiraUrl URL url =
          \<lparr>valid = False, error = Some (js ''Only Atlassian-hosted Jira instances are allowed'')\<rparr>)
   \<and> (valid (validateJiraUrl URL url) \<longrightarrow> error (validateJiraUrl URL url) = None)
   \<and> js ''Invalid Jira URL format'' \<noteq> js ''Jira URL must use HTTPS''
   \<and> js ''Invalid Jira URL format'' \<noteq> js ''Only Atlassian-hosted Jira instances are allowed''
   \<and> js ''Jira URL must use HTTPS'' \<noteq> js ''Only Atlassian-hosted Jira instances are allowed''"
  by (cases "URL url") (auto simp: validateJiraUrl_def endsWith_iff_suffix)

theorem validateJiraUrl_accepts_iff_witness:
  "valid (validateJiraUrl sample_URL (js ''https://acme.atlassian.net''))
   \<and> validateJiraUrl sample_URL (js ''http://acme.atlassian.net'')
        = \<lparr>valid = False, error = Some (js ''Jira URL must use HTTPS'')\<rparr>
   \<and> validateJiraUrl sample_URL (js ''https://evil.com'')
        = \<lparr>valid = False, error = Some (js ''Only Atlassian-hosted Jira instances are allowed'')\<rparr>
   \<and> validateJiraUrl sample_URL (js ''not a url'')
        = \<lparr>valid = False, error = Some (js ''Invalid Jira URL format'')\<rparr>"
proof -
  have e1: "suffix (js ''.atlassian.net'') (js ''acme.atlassian.net'')"
    by (simp add: endsWith_iff_suffix [symmetric] endsWith_def js_def)
  have e2: "\<not> suffix (js ''.atlassian.net'') (js ''evil.com'')"
    by (simp add: endsWith_iff_suffix [symmetric] endsWith_def js_def)
  have a: "valid (validateJiraUrl sample_URL (js ''https://acme.atlassian.net''))"
    using validateJiraUrl_accepts_iff [of sample_URL "js ''https://acme.atlassian.net''"] e1
    by (simp add: sample_URL_def)
  have b: "validateJiraUrl sample_URL (js ''http://acme.atlassian.net'')
        = \<lparr>valid = False, error = Some (js ''Jira URL must use HTTPS'')\<rparr>"
    using validateJiraUrl_accepts_iff [of sample_URL "js ''http://acme.atlassian.net''"]
    by (simp add: sample_URL_def)
  have c: "validateJiraUrl sample_URL (js ''https://evil.com'')
        = \<lparr>valid = False, error = Some (js ''Only Atlassian-hosted Jira instances are allowed'')\<rparr>"
    using validateJiraUrl_accepts_iff [of sample_URL "js ''https://evil.com''"] e2
    by (simp add: sample_URL_def)
  have d: "validateJiraUrl sample_URL (js ''not a url'')
        = \<lparr>valid = False, error = Some (js ''Invalid Jira URL format'')\<rparr>"
    using validateJiraUrl_accepts_iff [of sample_URL "js ''not a url''"]
    by (simp add: sample_URL_def)
  from a b c d show ?thesis by simp
qed

text \<open>
  Claim C10. The trusted suffix is compared with its leading dot. For a URL with protocol
  \<open>https:\<close>: every hostname \<open>sub.atlassian.net\<close> is accepted, the bare apex
  \<open>atlassian.net\<close> is rejected, and so is the look-alike \<open>evilatlassian.net\<close>, as
  is every hostname that does not end with the string \<open>.atlassian.net\<close>.
\<close>

theorem trusted_suffix_needs_leading_dot:
  assumes "URL url = Some p" and "protocol p = js ''https:''"
  shows "(hostname p = sub @ js ''.atlassian.net'' \<longrightarrow>
            validateJiraUrl URL url = \<lparr>valid = True, error = None\<rparr>)
       \<and> (hostname p = js ''atlassian.net'' \<longrightarrow>
            validateJiraUrl URL url =
              \<lparr>valid = False, error = Some (js ''Only Atlassian-hosted Jira instances are allowed'')\<rparr>)
       \<and> (hostname p = js ''evilatlassian.net'' \<longrightarrow>
            validateJiraUrl URL url =
              \<lparr>valid = False, error = Some (js ''Only Atlassian-hosted Jira instances are allowed'')\<rparr>)
       \<and> (\<not> endsWith (hostname p) (js ''.atlassian.net'') \<longrightarrow> \<not> valid (validateJiraUrl URL url))"
proof -
  have 1: "\<not> endsWith (js ''atlassian.net'') (js ''.atlassian.net'')"
    by (simp add: endsWith_def js_def)
  have 2: "\<not> endsWith (js ''evilatlassian.net'') (js ''.atlassian.net'')"
    by (simp add: endsWith_def js_def)
  have 3: "endsWith (sub @ js ''.atlassian.net'') (js ''.atlassian.net'')"
    by (simp add: endsWith_def)
  show ?thesis using assms 1 2 3 by (simp add: validateJiraUrl_def)
qed

theorem trusted_suffix_needs_leading_dot_witness:
  "validateJiraUrl sample_URL (js ''https://acme.atlassian.net'') = \<lparr>valid = True, error = None\<rparr>
   \<and> validateJiraUrl sample_URL (js ''https://atlassian.net'') =
       \<lparr>valid = False, error = Some (js ''Only Atlassian-hosted Jira instances are allowed'')\<rparr>
   \<and> validateJiraUrl sample_URL (js ''https://evilatlassian.net'') =
       \<lparr>valid = False, error = Some (js ''Only Atlassian-hosted Jira instances are allowed'')\<rparr>"
proof -
  have a: "sample_URL (js ''https://acme.atlassian.net'') =
      Some \<lparr>protocol = js ''https:'', hostname = js ''acme.atlassian.net''\<rparr>"
    by (simp add: sample_URL_def)
  have b: "sample_URL (js ''https://atlassian.net'') =
      Some \<lparr>protocol = js ''https:'', hostname = js ''atlassian.net''\<rparr>"
    by (simp add: sample_URL_def)
  have c: "sample_URL (js ''https://evilatlassian.net'') =
      Some \<lparr>protocol = js ''https:'', hostname = js ''evilatlassian.net''\<rparr>"
    by (simp add: sample_URL_def)
  have s: "js ''acme.atlassian.net'' = js ''acme'' @ js ''.atlassian.net''"
    by (simp add: js_def)
  show ?thesis
    using
      trusted_suffix_needs_leading_dot [of sample_URL "js ''https://acme.atlassian.net''" _ "js ''acme''", OF a]
      trusted_suffix_needs_leading_dot [of sample_URL "js ''https://atlassian.net''" _ "[]", OF b]
      trusted_suffix_needs_leading_dot [of sample_URL "js ''https://evilatlassian.net''" _ "[]", OF c] s
    by simp
qed

section \<open>Properties of the ticket field parser\<close>

subsection \<open>Literals and search\<close>

lemma after_literal_iff: "after_literal l s = Some r \<longleftrightarrow> s = l @ r"
  by (induction l s rule: after_literal.induct) auto

lemma after_literal_None: "after_literal l s = None \<longleftrightarrow> \<not> prefix l s"
proof -
  have "after_literal l s \<noteq> None \<longleftrightarrow> prefix l s"
    by (auto simp: after_literal_iff prefix_def)
  then show ?thesis by blast
qed

lemma search_hit: "p s = Some r \<Longrightarrow> search p s = Some r"
  by (cases s) simp_all

lemma search_skip:
  "(\<forall>i < length pre. p (drop i (pre @ rest)) = None) \<Longrightarrow> search p (pre @ rest) = search p rest"
proof (induction pre)
  case Nil
  then show ?case by simp
next
  case (Cons c pre)
  have "p (drop 0 ((c # pre) @ rest)) = None" using Cons.prems by blast
  moreover have "\<forall>i < length pre. p (drop i (pre @ rest)) = None"
  proof (intro allI impI)
    fix i assume "i < length pre"
    then have "p (drop (Suc i) ((c # pre) @ rest)) = None" using Cons.prems by (metis Suc_less_eq length_Cons)
    then show "p (drop i (pre @ rest)) = None" by simp
  qed
  ultimately show ?case using Cons.IH by simp
qed

lemma search_none:
  "(\<forall>i \<le> length s. p (drop i s) = None) \<Longrightarrow> search p s = None"
proof (induction s)
  case Nil
  then show ?case by simp
next
  case (Cons c s)
  have "p (drop 0 (c # s)) = None" using Cons.prems by blast
  moreover have "\<forall>i \<le> length s. p (drop i s) = None"
  proof (intro allI impI)
    fix i assume "i \<le> length s"
    then have "p (drop (Suc i) (c # s)) = None" using Cons.prems by (metis Suc_le_mono length_Cons)
    then show "p (drop i s) = None" by simp
  qed
  ultimately show ?case using Cons.IH by simp
qed

lemma first_occurrence:
  assumes "\<not> sublist l (pre @ butlast l)" "i < length pre"
  shows "\<not> prefix l (drop i (pre @ l @ R))"
proof
  assume p: "prefix l (drop i (pre @ l @ R))"
  have l: "l \<noteq> []" using assms(1) by auto
  let ?A = "drop i pre @ butlast l"
  have "drop i (pre @ l @ R) = ?A @ (last l # R)"
    using assms(2) l by simp
  moreover have "prefix ?A (?A @ (last l # R))" by simp
  moreover have "length l \<le> length ?A" using assms(2) l by (cases l) auto
  ultimately have "prefix l ?A" using p prefix_length_prefix by metis
  then have "sublist l (take i pre @ ?A)" by (metis sublist_append prefix_imp_sublist)
  then show False using assms(1) by (metis append.assoc append_take_drop_id)
qed

lemma not_ws_sep: "\<not> isWhiteSpace 9473"
  by (simp add: isWhiteSpace_def)

lemma ws_nl: "isWhiteSpace 10"
  by (simp add: isWhiteSpace_def)

text \<open>white space without a line feed in front of other text: nothing for \s*\n\<close>

lemma star_newline_none:
  assumes "\<forall>c \<in> set ws. isWhiteSpace c" "10 \<notin> set ws"
    and "R = [] \<or> \<not> isWhiteSpace (hd R)"
  shows "star isWhiteSpace newline_body (ws @ R) = None"
  using assms
proof (induction ws)
  case Nil
  then show ?case using ws_nl by (cases R) auto
next
  case (Cons c ws)
  then show ?case by simp
qed

lemma star_newline_some:
  assumes "\<forall>c \<in> set ws. isWhiteSpace c" "10 \<in> set ws"
    and "R = [] \<or> \<not> isWhiteSpace (hd R)"
  shows "\<exists>w. (\<forall>c \<in> set w. isWhiteSpace c) \<and> 10 \<notin> set w
           \<and> star isWhiteSpace newline_body (ws @ R) = Some (body_group (w @ R))"
  using assms
proof (induction ws)
  case Nil
  then show ?case by simp
next
  case (Cons c ws)
  show ?case
  proof (cases "10 \<in> set ws")
    case True
    then obtain w where "(\<forall>c \<in> set w. isWhiteSpace c)" "10 \<notin> set w"
      "star isWhiteSpace newline_body (ws @ R) = Some (body_group (w @ R))"
      using Cons.IH Cons.prems by auto
    then show ?thesis using Cons.prems by auto
  next
    case False
    then have c: "c = 10" using Cons.prems(2) by simp
    have "star isWhiteSpace newline_body (ws @ R) = None"
      using star_newline_none [of ws R] False Cons.prems by simp
    then have "star isWhiteSpace newline_body ((c # ws) @ R) = Some (body_group (ws @ R))"
      using c ws_nl by simp
    then show ?thesis using False Cons.prems(1) by auto
  qed
qed

lemma body_group_ws_no_nl:
  assumes "\<forall>c \<in> set w. isWhiteSpace c" "10 \<notin> set w"
  shows "body_group (w @ R) = w @ body_group R"
  using assms by (induction w) auto

lemma body_group_body:
  assumes "no_separator b" "b \<noteq> []" "last b \<noteq> 10"
  shows "body_group (b @ R) = b @ body_group R"
  using assms by (induction b rule: no_separator.induct) auto

lemma body_group_ws_end:
  assumes "\<forall>c \<in> set ws. isWhiteSpace c" "rest = [] \<or> (\<exists>rest'. rest = 10 # 9473 # rest')"
  shows "body_group (ws @ rest) = ws"
  using assms
proof (induction ws)
  case Nil
  then show ?case by auto
next
  case (Cons c ws)
  then have IH: "body_group (ws @ rest) = ws" by simp
  have "\<not> (c = 10 \<and> (case ws @ rest of [] \<Rightarrow> False | d # _ \<Rightarrow> d = 9473))"
  proof (cases ws)
    case Nil
    then show ?thesis using Cons.prems(2) by auto
  next
    case (Cons d ds)
    then have "isWhiteSpace d" using Cons.prems(1) \<open>\<forall>c\<in>set (c # ws). isWhiteSpace c\<close> by simp
    then show ?thesis using Cons not_ws_sep by auto
  qed
  then show ?case using IH by simp
qed

lemma trim_sandwich:
  assumes "\<forall>c \<in> set a. isWhiteSpace c" "\<forall>c \<in> set z. isWhiteSpace c" "trimmed b"
  shows "trim (a @ b @ z) = b"
proof -
  obtain x xs where b: "b = x # xs" "\<not> isWhiteSpace x"
    using assms(3) by (cases b) (auto simp: trimmed_def)
  have 1: "dropWhile isWhiteSpace (a @ b @ z) = b @ z"
    using assms(1) b by (simp add: dropWhile_append2)
  have "rev b \<noteq> []" "\<not> isWhiteSpace (hd (rev b))"
    using assms(3) by (auto simp: trimmed_def hd_rev)
  then obtain y ys where rb: "rev b = y # ys" "\<not> isWhiteSpace y"
    by (cases "rev b") auto
  have "dropWhile isWhiteSpace (rev (b @ z)) = dropWhile isWhiteSpace (rev z @ rev b)" by simp
  also have "\<dots> = dropWhile isWhiteSpace (rev b)"
    using assms(2) by (intro dropWhile_append2) simp
  also have "\<dots> = rev b" using rb by simp
  finally show ?thesis using 1 by (simp add: trim_def)
qed

lemma section_field_has_section:
  assumes "has_section s label body"
  shows "section_field label s = body"
proof -
  from assms obtain pre ws1 ws2 rest where
    s: "s = pre @ label @ ws1 @ body @ ws2 @ rest"
    and first0: "\<not> sublist label (pre @ butlast label)"
    and ws1: "\<forall>c \<in> set ws1. isWhiteSpace c" "10 \<in> set ws1"
    and body: "trimmed body" "no_separator body"
    and ws2: "\<forall>c \<in> set ws2. isWhiteSpace c"
    and rest: "rest = [] \<or> (\<exists>rest'. rest = 10 # 9473 # rest')"
    unfolding has_section_def by blast
  have first: "\<forall>i < length pre. \<not> prefix label (drop i s)"
    using first_occurrence [OF first0] s by simp
  let ?R = "body @ ws2 @ rest"
  have hdR: "?R = [] \<or> \<not> isWhiteSpace (hd ?R)"
    using body(1) by (auto simp: trimmed_def)
  obtain w where w: "\<forall>c \<in> set w. isWhiteSpace c" "10 \<notin> set w"
    and st: "star isWhiteSpace newline_body (ws1 @ ?R) = Some (body_group (w @ ?R))"
    using star_newline_some [OF ws1 hdR] by blast
  have last: "body \<noteq> []" "last body \<noteq> 10"
    using body(1) ws_nl by (auto simp: trimmed_def)
  have "body_group (w @ ?R) = w @ body_group (body @ ws2 @ rest)"
    using w by (rule body_group_ws_no_nl)
  also have "\<dots> = w @ body @ body_group (ws2 @ rest)"
    using body_group_body [OF body(2) last] by simp
  also have "\<dots> = w @ body @ ws2"
    using body_group_ws_end [OF ws2 rest] by simp
  finally have grp: "body_group (w @ ?R) = w @ body @ ws2" .
  have at: "section_at label (label @ ws1 @ ?R) = Some (w @ body @ ws2)"
    using st grp by (simp add: section_at_def after_literal_iff [THEN iffD2])
  have "\<forall>i < length pre. section_at label (drop i (pre @ label @ ws1 @ ?R)) = None"
    using first s by (simp add: section_at_def after_literal_None [THEN iffD2])
  then have "search (section_at label) (pre @ label @ ws1 @ ?R)
      = search (section_at label) (label @ ws1 @ ?R)"
    by (rule search_skip)
  then have "section_match label s = Some (w @ body @ ws2)"
    using at s by (simp add: section_match_def search_hit)
  then show ?thesis
    using trim_sandwich [OF w(1) ws2 body(1)] by (simp add: section_field_def)
qed

subsection \<open>Title, missing sections and priority\<close>

lemma line_rest_line:
  assumes "\<forall>c \<in> set t. \<not> isLineTerminator c" "rest = [] \<or> (\<exists>rest'. rest = 10 # rest')"
  shows "line_rest (t @ rest) = Some t"
  using assms
proof (induction t)
  case Nil
  then show ?case by auto
next
  case (Cons c t)
  then have "c \<noteq> 10" by (auto simp: isLineTerminator_def)
  then show ?case using Cons by simp
qed

lemma line_group_line:
  assumes "t \<noteq> []" "\<forall>c \<in> set t. \<not> isLineTerminator c" "rest = [] \<or> (\<exists>rest'. rest = 10 # rest')"
  shows "line_group (t @ rest) = Some t"
proof -
  obtain x xs where t: "t = x # xs" using assms(1) by (cases t) auto
  then have "line_rest (xs @ rest) = Some xs"
    using assms(2,3) by (intro line_rest_line) auto
  then show ?thesis using t assms(2) by simp
qed

lemma star_ws_then:
  assumes "\<forall>c \<in> set ws. isWhiteSpace c" "R \<noteq> []" "\<not> isWhiteSpace (hd R)" "k R = Some r"
  shows "star isWhiteSpace k (ws @ R) = Some r"
  using assms
proof (induction ws)
  case Nil
  then show ?case by (cases R) auto
next
  case (Cons c ws)
  then show ?case by simp
qed

lemma title_has_title:
  assumes "has_title s t"
  shows "title (parseTicketForJira s) = t"
proof -
  let ?l = "js ''**Title:**''"
  from assms obtain pre ws1 ws2 rest where
    s: "s = pre @ ?l @ ws1 @ t @ ws2 @ rest"
    and first0: "\<not> sublist ?l (pre @ butlast ?l)"
    and ws1: "\<forall>c \<in> set ws1. isWhiteSpace c"
    and t: "trimmed t" "\<forall>c \<in> set t. \<not> isLineTerminator c"
    and ws2: "\<forall>c \<in> set ws2. isWhiteSpace c \<and> \<not> isLineTerminator c"
    and rest: "rest = [] \<or> (\<exists>rest'. rest = 10 # rest')"
    unfolding has_title_def by blast
  have first: "\<forall>i < length pre. \<not> prefix ?l (drop i s)"
    using first_occurrence [OF first0] s by simp
  have t0: "t \<noteq> []" "\<not> isWhiteSpace (hd t)" using t(1) by (auto simp: trimmed_def)
  have "line_group ((t @ ws2) @ rest) = Some (t @ ws2)"
    using t0(1) t(2) ws2 rest by (intro line_group_line) auto
  then have "star isWhiteSpace line_group (ws1 @ t @ ws2 @ rest) = Some (t @ ws2)"
    using ws1 t0 by (intro star_ws_then) auto
  then have at: "title_at (?l @ ws1 @ t @ ws2 @ rest) = Some (t @ ws2)"
    by (simp add: title_at_def after_literal_iff [THEN iffD2])
  have "\<forall>i < length pre. title_at (drop i (pre @ ?l @ ws1 @ t @ ws2 @ rest)) = None"
    using first s by (simp add: title_at_def after_literal_None [THEN iffD2])
  then have "search title_at (pre @ ?l @ ws1 @ t @ ws2 @ rest)
             = search title_at (?l @ ws1 @ t @ ws2 @ rest)"
    by (rule search_skip)
  then have "search title_at s = Some (t @ ws2)"
    using at s by (simp add: search_hit)
  moreover have "trim (t @ ws2) = t"
    using trim_sandwich [of "[]" ws2 t] t(1) ws2 by simp
  ultimately show ?thesis by (simp add: parseTicketForJira_def)
qed

lemma prefix_drop_sublist: "prefix l (drop i s) \<Longrightarrow> sublist l s"
proof -
  assume "prefix l (drop i s)"
  then obtain r where "drop i s = l @ r" by (auto simp: prefix_def)
  then have "s = take i s @ l @ r" by (metis append_take_drop_id)
  then show ?thesis unfolding sublist_def by blast
qed

lemma section_field_missing:
  assumes "\<not> sublist label s"
  shows "section_field label s = []"
proof -
  have "\<not> prefix label (drop i s)" for i
    using assms prefix_drop_sublist [of label i s] by blast
  then have "\<forall>i \<le> length s. section_at label (drop i s) = None"
    by (simp add: section_at_def after_literal_None [THEN iffD2])
  then have "search (section_at label) s = None" by (rule search_none)
  then show ?thesis by (simp add: section_field_def section_match_def)
qed

lemma title_missing:
  assumes "\<not> sublist (js ''**Title:**'') s"
  shows "title (parseTicketForJira s) = js ''Bug Report''"
proof -
  have "\<not> prefix (js ''**Title:**'') (drop i s)" for i
    using assms prefix_drop_sublist [of "js ''**Title:**''" i s] by blast
  then have "\<forall>i \<le> length s. title_at (drop i s) = None"
    by (simp add: title_at_def after_literal_None [THEN iffD2])
  then have "search title_at s = None" by (rule search_none)
  then show ?thesis by (simp add: parseTicketForJira_def)
qed

lemma is_priority_code_cases:
  "is_priority_code t \<longleftrightarrow> t = js ''P1'' \<or> t = js ''P2'' \<or> t = js ''P3'' \<or> t = js ''P4''"
proof
  assume "is_priority_code t"
  then obtain d where t: "t = [80, d]" "49 \<le> d" "d \<le> 52"
    by (auto simp: is_priority_code_def split: list.splits)
  then have "d = 49 \<or> d = 50 \<or> d = 51 \<or> d = 52" by arith
  then show "t = js ''P1'' \<or> t = js ''P2'' \<or> t = js ''P3'' \<or> t = js ''P4''"
    using t(1) by (auto simp: js_def)
next
  assume "t = js ''P1'' \<or> t = js ''P2'' \<or> t = js ''P3'' \<or> t = js ''P4''"
  then show "is_priority_code t" by (auto simp: is_priority_code_def js_def)
qed

lemma parse_priority_default:
  "priorityText s = None \<Longrightarrow> parse_priority s = (js ''3'', js ''P3'')"
  by (simp add: parse_priority_def priorityIdMap_def Let_def js_def)

lemma parse_priority_in_table:
  "(fst (parse_priority s), snd (parse_priority s)) \<in>
     {(js ''1'', js ''P1''), (js ''2'', js ''P2''), (js ''3'', js ''P3''), (js ''4'', js ''P4'')}"
proof -
  define name where "name = (case priorityText s of
                    None \<Rightarrow> js ''P3''
                  | Some t \<Rightarrow> if t = [] \<or> \<not> is_priority_code t then js ''P3'' else t)"
  have "is_priority_code name"
    unfolding name_def by (auto simp: is_priority_code_cases split: option.splits)
  then consider "name = js ''P1''" | "name = js ''P2''" | "name = js ''P3''" | "name = js ''P4''"
    by (auto simp: is_priority_code_cases)
  then show ?thesis
  proof cases
    case 1 then show ?thesis unfolding parse_priority_def Let_def name_def [symmetric]
      by (simp add: priorityIdMap_def js_def) next
    case 2 then show ?thesis unfolding parse_priority_def Let_def name_def [symmetric]
      by (simp add: priorityIdMap_def js_def) next
    case 3 then show ?thesis unfolding parse_priority_def Let_def name_def [symmetric]
      by (simp add: priorityIdMap_def js_def) next
    case 4 then show ?thesis unfolding parse_priority_def Let_def name_def [symmetric]
      by (simp add: priorityIdMap_def js_def)
  qed
qed

subsection \<open>The priority patterns\<close>

text \<open>The matcher of a code and its shape.\<close>

lemma code_group_iff: "code_group t = Some c \<longleftrightarrow> code_shape t c"
proof
  assume "code_group t = Some c"
  then show "code_shape t c"
    by (cases t rule: code_group.cases)
      (auto simp: code_shape_def is_code_def word_end_def split: if_splits list.splits)
next
  assume "code_shape t c"
  then obtain p d rest where "t = [p, d] @ rest" "c = [p, d]" "p = 80 \<or> p = 112"
    "49 \<le> d" "d \<le> 52" "word_end rest"
    unfolding code_shape_def is_code_def by blast
  then show "code_group t = Some c"
    by (cases rest) (auto simp: word_end_def)
qed

lemma code_group_head:
  assumes "code_group t = Some c"
  shows "t \<noteq> [] \<and> (hd t = 80 \<or> hd t = 112)"
  using assms by (cases t rule: code_group.cases) (auto split: if_splits)

text \<open>
  A greedy run over a class that holds neither \<open>P\<close> nor \<open>p\<close>, followed by a code:
  the run takes all it can, since a code cannot begin inside it.
\<close>

lemma star_code_group:
  assumes "\<not> X 80" "\<not> X 112"
  shows "star X code_group r = code_group (dropWhile X r)"
proof (induction r)
  case Nil
  then show ?case by simp
next
  case (Cons x xs)
  show ?case
  proof (cases "X x")
    case True
    then have "x \<noteq> 80" "x \<noteq> 112" using assms by auto
    then have "code_group (x # xs) = None"
      using code_group_head [of "x # xs"] by (cases "code_group (x # xs)") auto
    then show ?thesis using True Cons.IH by (simp split: option.splits)
  next
    case False
    then show ?thesis by simp
  qed
qed

lemma plus_code_group:
  assumes "\<not> X 80" "\<not> X 112"
  shows "plus X code_group r =
           (if r \<noteq> [] \<and> X (hd r) then code_group (dropWhile X r) else None)"
  using star_code_group [OF assms] by (cases r) simp_all

lemma code_after_gap:
  assumes "\<not> X 80" "\<not> X 112"
  shows "code_group (dropWhile X r) = Some c \<longleftrightarrow>
           (\<exists>g rest. r = g @ c @ rest \<and> (\<forall>x \<in> set g. X x) \<and> is_code c \<and> word_end rest)"
proof
  assume "code_group (dropWhile X r) = Some c"
  then obtain rest where "dropWhile X r = c @ rest" "is_code c" "word_end rest"
    unfolding code_group_iff code_shape_def by blast
  moreover have "r = takeWhile X r @ dropWhile X r" by simp
  moreover have "\<forall>x \<in> set (takeWhile X r). X x" by (auto dest: set_takeWhileD)
  ultimately show "\<exists>g rest. r = g @ c @ rest \<and> (\<forall>x \<in> set g. X x) \<and> is_code c \<and> word_end rest"
    by metis
next
  assume "\<exists>g rest. r = g @ c @ rest \<and> (\<forall>x \<in> set g. X x) \<and> is_code c \<and> word_end rest"
  then obtain g rest where r: "r = g @ c @ rest" "\<forall>x \<in> set g. X x" "is_code c" "word_end rest"
    by blast
  then obtain p d where c: "c = [p, d]" "p = 80 \<or> p = 112" unfolding is_code_def by blast
  then have "\<not> X p" using assms by auto
  then have "dropWhile X r = c @ rest"
    using r(1,2) c(1) by (simp add: dropWhile_append2)
  then show "code_group (dropWhile X r) = Some c"
    using r(3,4) unfolding code_group_iff code_shape_def by blast
qed

lemma ws_not_P: "\<not> isWhiteSpace 80" "\<not> isWhiteSpace 112"
  by (simp_all add: isWhiteSpace_def)

text \<open>The run of pattern 4, \<open>[:\s\*]*\s*\<close>, takes what the first class can take.\<close>

lemma star_star_code_group:
  "star (\<lambda>c. c = 58 \<or> isWhiteSpace c \<or> c = 42) (star isWhiteSpace code_group) r
     = code_group (dropWhile (\<lambda>c. c = 58 \<or> isWhiteSpace c \<or> c = 42) r)"
proof (induction r)
  case Nil
  then show ?case by simp
next
  case (Cons x xs)
  let ?X = "\<lambda>c. c = 58 \<or> isWhiteSpace c \<or> c = 42"
  have inner: "star isWhiteSpace code_group t = code_group (dropWhile isWhiteSpace t)" for t
    using star_code_group [OF ws_not_P] .
  show ?case
  proof (cases "?X x")
    case True
    have "code_group (dropWhile isWhiteSpace (x # xs)) = None"
      if n: "code_group (dropWhile ?X xs) = None"
    proof (cases "isWhiteSpace x")
      case False
      then have "x \<noteq> 80" "x \<noteq> 112" using True by auto
      then have "code_group (x # xs) = None"
        using code_group_head [of "x # xs"] by (cases "code_group (x # xs)") auto
      then show ?thesis using False by simp
    next
      case ws: True
      show ?thesis
      proof (rule ccontr)
        assume "code_group (dropWhile isWhiteSpace (x # xs)) \<noteq> None"
        then obtain c where c: "code_group (dropWhile isWhiteSpace xs) = Some c"
          using ws by auto
        then obtain g rest where g: "xs = g @ c @ rest" "\<forall>x \<in> set g. isWhiteSpace x"
          "is_code c" "word_end rest"
          using code_after_gap [OF ws_not_P, of xs c] by blast
        then have "\<exists>g rest. xs = g @ c @ rest \<and> (\<forall>x \<in> set g. ?X x) \<and> is_code c \<and> word_end rest"
          by blast
        then have "code_group (dropWhile ?X xs) = Some c"
          using code_after_gap [of ?X xs c] by (simp add: isWhiteSpace_def)
        then show False using n by simp
      qed
    qed
    then show ?thesis using True Cons.IH by (simp add: inner split: option.splits)
  next
    case False
    then have "\<not> isWhiteSpace x" by simp
    then show ?thesis using False by (simp add: inner)
  qed
qed

text \<open>A literal under the flag \<open>i\<close>.\<close>

lemma after_literal_i_iff:
  "after_literal_i lit t = Some r \<longleftrightarrow> (\<exists>l. t = l @ r \<and> same_i l lit)"
proof (induction lit t rule: after_literal_i.induct)
  case (1 s)
  then show ?case by (auto simp: same_i_def)
next
  case (2 p ps)
  then show ?case by (auto simp: same_i_def)
next
  case (3 p ps c cs)
  show ?case
  proof (cases "ascii_upper p = ascii_upper c")
    case True
    have "(\<exists>l. c # cs = l @ r \<and> same_i l (p # ps)) \<longleftrightarrow> (\<exists>l. cs = l @ r \<and> same_i l ps)"
    proof
      assume "\<exists>l. c # cs = l @ r \<and> same_i l (p # ps)"
      then obtain l where l: "c # cs = l @ r" "same_i l (p # ps)" by blast
      then obtain l' where "l = c # l'" by (cases l) (auto simp: same_i_def)
      then show "\<exists>l. cs = l @ r \<and> same_i l ps" using l by (auto simp: same_i_def)
    next
      assume "\<exists>l. cs = l @ r \<and> same_i l ps"
      then obtain l where "cs = l @ r" "same_i l ps" by blast
      then have "c # cs = (c # l) @ r \<and> same_i (c # l) (p # ps)"
        using True by (simp add: same_i_def)
      then show "\<exists>l. c # cs = l @ r \<and> same_i l (p # ps)" by blast
    qed
    then show ?thesis using True 3 by simp
  next
    case False
    have "\<not> (\<exists>l. c # cs = l @ r \<and> same_i l (p # ps))"
    proof
      assume "\<exists>l. c # cs = l @ r \<and> same_i l (p # ps)"
      then obtain l where l: "c # cs = l @ r" "same_i l (p # ps)" by blast
      then obtain l' where "l = c # l'" by (cases l) (auto simp: same_i_def)
      then show False using l False by (auto simp: same_i_def)
    qed
    then show ?thesis using False by simp
  qed
qed

lemma same_i_length: "same_i l lit \<Longrightarrow> length l = length lit"
  unfolding same_i_def by (rule map_eq_imp_length_eq)

lemma after_literal_i_take:
  "(\<exists>r. after_literal_i lit t = Some r) \<longleftrightarrow> same_i (take (length lit) t) lit"
proof
  assume "\<exists>r. after_literal_i lit t = Some r"
  then obtain r l where l: "t = l @ r" "same_i l lit" unfolding after_literal_i_iff by blast
  then have "take (length lit) t = l" using same_i_length [OF l(2)] by simp
  then show "same_i (take (length lit) t) lit" using l(2) by simp
next
  assume "same_i (take (length lit) t) lit"
  then have "t = take (length lit) t @ drop (length lit) t \<and> same_i (take (length lit) t) lit"
    by simp
  then show "\<exists>r. after_literal_i lit t = Some r" unfolding after_literal_i_iff by blast
qed

text \<open>\<open>match\<close> finds the first position where the pattern stands.\<close>

lemma search_Some_iff:
  "search p s = Some c \<longleftrightarrow>
     (\<exists>pre t. s = pre @ t \<and> p t = Some c \<and> (\<forall>i < length pre. p (drop i s) = None))"
proof (induction s)
  case Nil
  then show ?case by auto
next
  case (Cons x xs)
  show ?case
  proof (cases "p (x # xs)")
    case (Some r)
    have "(\<exists>pre t. x # xs = pre @ t \<and> p t = Some c \<and> (\<forall>i < length pre. p (drop i (x # xs)) = None))
          \<longleftrightarrow> r = c"
    proof
      assume "\<exists>pre t. x # xs = pre @ t \<and> p t = Some c \<and> (\<forall>i < length pre. p (drop i (x # xs)) = None)"
      then obtain pre t where h: "x # xs = pre @ t" "p t = Some c"
        "\<forall>i < length pre. p (drop i (x # xs)) = None" by blast
      have "pre = []"
      proof (rule ccontr)
        assume "pre \<noteq> []"
        then have "p (drop 0 (x # xs)) = None" using h(3) by blast
        then show False using Some by simp
      qed
      then show "r = c" using h Some by simp
    next
      assume "r = c"
      then have "x # xs = [] @ (x # xs) \<and> p (x # xs) = Some c
          \<and> (\<forall>i < length ([] :: nat list). p (drop i (x # xs)) = None)"
        using Some by simp
      then show "\<exists>pre t. x # xs = pre @ t \<and> p t = Some c \<and> (\<forall>i < length pre. p (drop i (x # xs)) = None)"
        by blast
    qed
    then show ?thesis using Some by simp
  next
    case None
    have "(\<exists>pre t. x # xs = pre @ t \<and> p t = Some c \<and> (\<forall>i < length pre. p (drop i (x # xs)) = None))
          \<longleftrightarrow> (\<exists>pre t. xs = pre @ t \<and> p t = Some c \<and> (\<forall>i < length pre. p (drop i xs) = None))"
    proof
      assume "\<exists>pre t. x # xs = pre @ t \<and> p t = Some c \<and> (\<forall>i < length pre. p (drop i (x # xs)) = None)"
      then obtain pre t where h: "x # xs = pre @ t" "p t = Some c"
        "\<forall>i < length pre. p (drop i (x # xs)) = None" by blast
      have "pre \<noteq> []" using h None by auto
      then obtain pre' where pre: "pre = x # pre'" using h(1) by (cases pre) auto
      have n: "\<forall>i < length pre'. p (drop i xs) = None"
      proof (intro allI impI)
        fix i assume "i < length pre'"
        then have "Suc i < length pre" using pre by simp
        then have "p (drop (Suc i) (x # xs)) = None" using h(3) by blast
        then show "p (drop i xs) = None" by simp
      qed
      have "xs = pre' @ t" using h(1) pre by simp
      then show "\<exists>pre t. xs = pre @ t \<and> p t = Some c \<and> (\<forall>i < length pre. p (drop i xs) = None)"
        using h(2) n by blast
    next
      assume "\<exists>pre t. xs = pre @ t \<and> p t = Some c \<and> (\<forall>i < length pre. p (drop i xs) = None)"
      then obtain pre t where h: "xs = pre @ t" "p t = Some c"
        "\<forall>i < length pre. p (drop i xs) = None" by blast
      have "\<forall>i < length (x # pre). p (drop i (x # xs)) = None"
      proof (intro allI impI)
        fix i assume i: "i < length (x # pre)"
        show "p (drop i (x # xs)) = None"
        proof (cases i)
          case 0
          then show ?thesis using None by simp
        next
          case (Suc j)
          then show ?thesis using h(3) i by simp
        qed
      qed
      then have "x # xs = (x # pre) @ t \<and> p t = Some c
          \<and> (\<forall>i < length (x # pre). p (drop i (x # xs)) = None)"
        using h(1,2) by simp
      then show "\<exists>pre t. x # xs = pre @ t \<and> p t = Some c \<and> (\<forall>i < length pre. p (drop i (x # xs)) = None)"
        by blast
    qed
    then show ?thesis using None Cons.IH by simp
  qed
qed

lemma search_None_iff:
  "search p s = None \<longleftrightarrow> (\<forall>i \<le> length s. p (drop i s) = None)"
proof (induction s)
  case Nil
  then show ?case by simp
next
  case (Cons x xs)
  have "(\<forall>i \<le> length (x # xs). p (drop i (x # xs)) = None)
        \<longleftrightarrow> p (x # xs) = None \<and> (\<forall>i \<le> length xs. p (drop i xs) = None)"
  proof
    assume a: "\<forall>i \<le> length (x # xs). p (drop i (x # xs)) = None"
    then have "p (drop 0 (x # xs)) = None" by blast
    moreover have "\<forall>i \<le> length xs. p (drop i xs) = None"
    proof (intro allI impI)
      fix i assume "i \<le> length xs"
      then have "p (drop (Suc i) (x # xs)) = None" using a by (metis Suc_le_mono length_Cons)
      then show "p (drop i xs) = None" by simp
    qed
    ultimately show "p (x # xs) = None \<and> (\<forall>i \<le> length xs. p (drop i xs) = None)" by simp
  next
    assume a: "p (x # xs) = None \<and> (\<forall>i \<le> length xs. p (drop i xs) = None)"
    show "\<forall>i \<le> length (x # xs). p (drop i (x # xs)) = None"
    proof (intro allI impI)
      fix i assume "i \<le> length (x # xs)"
      then show "p (drop i (x # xs)) = None" using a by (cases i) auto
    qed
  qed
  then show ?case using Cons.IH by (simp split: option.splits)
qed

lemma search_first_match:
  assumes "\<And>t c. p t = Some c \<longleftrightarrow> shape t c"
  shows "search p s = Some c \<longleftrightarrow> first_match shape s c"
proof -
  have n: "p t = None \<longleftrightarrow> (\<forall>c'. \<not> shape t c')" for t
    using assms [of t] by (cases "p t") auto
  show ?thesis
    unfolding search_Some_iff first_match_def n assms ..
qed

lemma search_no_match:
  assumes "\<And>t c. p t = Some c \<longleftrightarrow> shape t c"
  shows "search p s = None \<longleftrightarrow> no_match shape s"
proof -
  have n: "p t = None \<longleftrightarrow> (\<forall>c'. \<not> shape t c')" for t
    using assms [of t] by (cases "p t") auto
  show ?thesis
    unfolding search_None_iff no_match_def n ..
qed

text \<open>Each of the four patterns with a label, at the head of a text.\<close>

lemma case_option_Some_iff:
  "(case x of None \<Rightarrow> None | Some r \<Rightarrow> k r) = Some c \<longleftrightarrow> (\<exists>r. x = Some r \<and> k r = Some c)"
  by (cases x) auto

lemma bold_at_iff:
  "(case after_literal (js ''**Priority:**'') t of
      None \<Rightarrow> None
    | Some r \<Rightarrow> star isWhiteSpace code_group r) = Some c \<longleftrightarrow> bold_shape t c"
proof -
  have "(case after_literal (js ''**Priority:**'') t of
      None \<Rightarrow> None
    | Some r \<Rightarrow> star isWhiteSpace code_group r) = Some c
    \<longleftrightarrow> (\<exists>r. t = js ''**Priority:**'' @ r \<and> code_group (dropWhile isWhiteSpace r) = Some c)"
    unfolding case_option_Some_iff after_literal_iff star_code_group [OF ws_not_P] ..
  also have "\<dots> \<longleftrightarrow> bold_shape t c"
    unfolding code_after_gap [OF ws_not_P] bold_shape_def labelled_def by blast
  finally show ?thesis .
qed

lemma colon_at_iff:
  "(case after_literal_i (js ''Priority:'') t of
      None \<Rightarrow> None
    | Some r \<Rightarrow> star isWhiteSpace code_group r) = Some c \<longleftrightarrow> colon_shape t c"
proof -
  have "(case after_literal_i (js ''Priority:'') t of
      None \<Rightarrow> None
    | Some r \<Rightarrow> star isWhiteSpace code_group r) = Some c
    \<longleftrightarrow> (\<exists>l r. t = l @ r \<and> same_i l (js ''Priority:'')
              \<and> code_group (dropWhile isWhiteSpace r) = Some c)"
    unfolding case_option_Some_iff after_literal_i_iff star_code_group [OF ws_not_P] by blast
  also have "\<dots> \<longleftrightarrow> colon_shape t c"
    unfolding code_after_gap [OF ws_not_P] colon_shape_def labelled_def by blast
  finally show ?thesis .
qed

lemma gap_not_empty:
  assumes "\<not> X 80" "\<not> X 112"
  shows "r \<noteq> [] \<and> X (hd r) \<and> code_group (dropWhile X r) = Some c \<longleftrightarrow>
           (\<exists>g rest. r = g @ c @ rest \<and> g \<noteq> [] \<and> (\<forall>x \<in> set g. X x) \<and> is_code c \<and> word_end rest)"
proof
  assume a: "r \<noteq> [] \<and> X (hd r) \<and> code_group (dropWhile X r) = Some c"
  then obtain g rest where g: "r = g @ c @ rest" "\<forall>x \<in> set g. X x" "is_code c" "word_end rest"
    unfolding code_after_gap [OF assms] by blast
  obtain p d where c: "c = [p, d]" "p = 80 \<or> p = 112" using g(3) unfolding is_code_def by blast
  have "g \<noteq> []"
  proof
    assume "g = []"
    then have "hd r = p" using g(1) c(1) by simp
    then show False using a c(2) assms by auto
  qed
  then show "\<exists>g rest. r = g @ c @ rest \<and> g \<noteq> [] \<and> (\<forall>x \<in> set g. X x) \<and> is_code c \<and> word_end rest"
    using g by blast
next
  assume "\<exists>g rest. r = g @ c @ rest \<and> g \<noteq> [] \<and> (\<forall>x \<in> set g. X x) \<and> is_code c \<and> word_end rest"
  then obtain g rest where g: "r = g @ c @ rest" "g \<noteq> []" "\<forall>x \<in> set g. X x" "is_code c"
    "word_end rest" by blast
  then have "code_group (dropWhile X r) = Some c"
    unfolding code_after_gap [OF assms] by blast
  moreover have "r \<noteq> []" "X (hd r)" using g(1,2,3) by (cases g; simp)+
  ultimately show "r \<noteq> [] \<and> X (hd r) \<and> code_group (dropWhile X r) = Some c" by simp
qed

lemma space_at_iff:
  "(case after_literal_i (js ''Priority'') t of
      None \<Rightarrow> None
    | Some r \<Rightarrow> plus isWhiteSpace code_group r) = Some c \<longleftrightarrow> space_shape t c"
proof -
  have "(case after_literal_i (js ''Priority'') t of
      None \<Rightarrow> None
    | Some r \<Rightarrow> plus isWhiteSpace code_group r) = Some c
    \<longleftrightarrow> (\<exists>l r. t = l @ r \<and> same_i l (js ''Priority'')
              \<and> (r \<noteq> [] \<and> isWhiteSpace (hd r) \<and> code_group (dropWhile isWhiteSpace r) = Some c))"
    unfolding case_option_Some_iff after_literal_i_iff plus_code_group [OF ws_not_P]
    by (auto split: if_splits)
  also have "\<dots> \<longleftrightarrow> space_shape t c"
    unfolding gap_not_empty [OF ws_not_P] space_shape_def labelled_def by blast
  finally show ?thesis .
qed

lemma loose_at_iff:
  "(case after_literal_i (js ''Priority'') t of
      None \<Rightarrow> None
    | Some r \<Rightarrow> star (\<lambda>c. c = 58 \<or> isWhiteSpace c \<or> c = 42)
                  (star isWhiteSpace code_group) r) = Some c \<longleftrightarrow> loose_shape t c"
proof -
  let ?X = "\<lambda>c. c = 58 \<or> isWhiteSpace c \<or> c = 42"
  have x: "\<not> ?X 80" "\<not> ?X 112" by (simp_all add: isWhiteSpace_def)
  have "(case after_literal_i (js ''Priority'') t of
      None \<Rightarrow> None
    | Some r \<Rightarrow> star ?X (star isWhiteSpace code_group) r) = Some c
    \<longleftrightarrow> (\<exists>l r. t = l @ r \<and> same_i l (js ''Priority'')
              \<and> code_group (dropWhile ?X r) = Some c)"
    unfolding case_option_Some_iff after_literal_i_iff star_star_code_group by blast
  also have "\<dots> \<longleftrightarrow> loose_shape t c"
    unfolding code_after_gap [of ?X, OF x] loose_shape_def labelled_def by blast
  finally show ?thesis .
qed

text \<open>The five patterns on the whole text.\<close>

lemma priorityMatch1_iff:
  "priorityMatch1 s = Some c \<longleftrightarrow> first_match bold_shape s c"
  "priorityMatch1 s = None \<longleftrightarrow> no_match bold_shape s"
  unfolding priorityMatch1_def
  by (rule search_first_match [OF bold_at_iff], rule search_no_match [OF bold_at_iff])

lemma priorityMatch2_iff:
  "priorityMatch2 s = Some c \<longleftrightarrow> first_match colon_shape s c"
  "priorityMatch2 s = None \<longleftrightarrow> no_match colon_shape s"
  unfolding priorityMatch2_def
  by (rule search_first_match [OF colon_at_iff], rule search_no_match [OF colon_at_iff])

lemma priorityMatch3_iff:
  "priorityMatch3 s = Some c \<longleftrightarrow> first_match space_shape s c"
  "priorityMatch3 s = None \<longleftrightarrow> no_match space_shape s"
  unfolding priorityMatch3_def
  by (rule search_first_match [OF space_at_iff], rule search_no_match [OF space_at_iff])

lemma priorityMatch4_iff:
  "priorityMatch4 s = Some c \<longleftrightarrow> first_match loose_shape s c"
  "priorityMatch4 s = None \<longleftrightarrow> no_match loose_shape s"
  unfolding priorityMatch4_def
  by (rule search_first_match [OF loose_at_iff], rule search_no_match [OF loose_at_iff])

lemma prioritySection_iff:
  "prioritySection s = Some piece \<longleftrightarrow>
     (\<exists>pre l rest. s = pre @ l @ rest \<and> same_i l (js ''**Priority:**'')
        \<and> (\<forall>i < length pre. \<not> same_i (take 13 (drop i s)) (js ''**Priority:**''))
        \<and> piece = l @ take 30 rest)"
proof -
  let ?L = "js ''**Priority:**''"
  let ?q = "\<lambda>t. case after_literal_i ?L t of
                   None \<Rightarrow> None
                 | Some r \<Rightarrow> Some (take (length ?L + 30) t)"
  have len: "length ?L = 13" by (simp add: js_def)
  have n: "?q t = None \<longleftrightarrow> \<not> same_i (take 13 t) ?L" for t
    using after_literal_i_take [of ?L t] unfolding len by (cases "after_literal_i ?L t") auto
  have y: "?q t = Some piece \<longleftrightarrow>
      (\<exists>l rest. t = l @ rest \<and> same_i l ?L \<and> piece = l @ take 30 rest)" for t
  proof
    assume "?q t = Some piece"
    then obtain r where r: "after_literal_i ?L t = Some r" "piece = take (13 + 30) t"
      unfolding len by (cases "after_literal_i ?L t") auto
    then obtain l where l: "t = l @ r" "same_i l ?L" unfolding after_literal_i_iff by blast
    then have "length l = 13" using same_i_length [OF l(2)] len by simp
    then have "piece = l @ take 30 r" using r(2) l(1) by simp
    then show "\<exists>l rest. t = l @ rest \<and> same_i l ?L \<and> piece = l @ take 30 rest"
      using l by blast
  next
    assume "\<exists>l rest. t = l @ rest \<and> same_i l ?L \<and> piece = l @ take 30 rest"
    then obtain l rest where l: "t = l @ rest" "same_i l ?L" "piece = l @ take 30 rest" by blast
    then have a: "after_literal_i ?L t = Some rest" unfolding after_literal_i_iff by blast
    have "length l = 13" using same_i_length [OF l(2)] len by simp
    then have "take (length ?L + 30) t = piece" using l(1,3) len by simp
    then show "?q t = Some piece" using a by simp
  qed
  have "prioritySection s = Some piece \<longleftrightarrow>
     (\<exists>pre t. s = pre @ t \<and> ?q t = Some piece \<and> (\<forall>i < length pre. ?q (drop i s) = None))"
    unfolding prioritySection_def by (rule search_Some_iff)
  also have "\<dots> \<longleftrightarrow> (\<exists>pre l rest. s = pre @ l @ rest \<and> same_i l ?L
        \<and> (\<forall>i < length pre. \<not> same_i (take 13 (drop i s)) ?L)
        \<and> piece = l @ take 30 rest)"
    unfolding n y by blast
  finally show ?thesis .
qed

lemma priorityMatch5_iff:
  "priorityMatch5 s = Some c \<longleftrightarrow> near_shape s c"
proof -
  have "priorityMatch5 s = Some c \<longleftrightarrow>
      (\<exists>piece. prioritySection s = Some piece \<and> search code_group piece = Some c)"
    unfolding priorityMatch5_def by (cases "prioritySection s") auto
  also have "\<dots> \<longleftrightarrow> near_shape s c"
    unfolding prioritySection_iff search_first_match [of code_group code_shape, OF code_group_iff]
      near_shape_def
    by blast
  finally show ?thesis .
qed

lemma priorityMatch5_None: "priorityMatch5 s = None \<longleftrightarrow> \<not> (\<exists>c. near_shape s c)"
  using priorityMatch5_iff [of s] by (cases "priorityMatch5 s") auto

text \<open>What the parser stores for a code that a pattern found.\<close>

lemma is_code_text:
  assumes "is_code c"
  shows "code_text c = map ascii_upper c \<and> is_priority_code (map ascii_upper c)
       \<and> map ascii_upper c \<noteq> [] \<and> tl c \<noteq> []
       \<and> map_of priorityIdMap (map ascii_upper c) = Some (tl c)"
proof -
  from assms obtain p d where c: "c = [p, d]" "p = 80 \<or> p = 112" "49 \<le> d" "d \<le> 52"
    unfolding is_code_def by blast
  then have d: "d = 49 \<or> d = 50 \<or> d = 51 \<or> d = 52" by arith
  have t: "trim c = c"
    using c d by (auto simp: trim_def isWhiteSpace_def)
  have u: "map ascii_upper c = [80, d]"
    using c d by (auto simp: ascii_upper_def)
  have m: "map_of priorityIdMap [80, d] = Some [d]"
    using d by (auto simp: priorityIdMap_def js_def)
  show ?thesis
    unfolding code_text_def t u using c m by (simp add: is_priority_code_def)
qed

lemma parse_priority_found:
  assumes "is_code c" "priorityText s = Some (code_text c)"
  shows "parse_priority s = (tl c, map ascii_upper c)"
proof -
  note f = is_code_text [OF assms(1)]
  have t: "priorityText s = Some (map ascii_upper c)" using assms(2) f by simp
  show ?thesis
    unfolding parse_priority_def Let_def t
    using f by simp
qed

lemma first_match_labelled_code:
  "first_match (labelled a b) s c \<Longrightarrow> is_code c"
  unfolding first_match_def labelled_def by blast

lemma near_shape_code: "near_shape s c \<Longrightarrow> is_code c"
  unfolding near_shape_def first_match_def code_shape_def by blast

text \<open>The cascade of the five patterns.\<close>

lemma parse_priority_cascade:
  "first_match bold_shape s c \<Longrightarrow> parse_priority s = (tl c, map ascii_upper c)"
  "no_match bold_shape s \<Longrightarrow> first_match colon_shape s c
     \<Longrightarrow> parse_priority s = (tl c, map ascii_upper c)"
  "no_match bold_shape s \<Longrightarrow> no_match colon_shape s \<Longrightarrow> first_match space_shape s c
     \<Longrightarrow> parse_priority s = (tl c, map ascii_upper c)"
  "no_match bold_shape s \<Longrightarrow> no_match colon_shape s \<Longrightarrow> no_match space_shape s
     \<Longrightarrow> first_match loose_shape s c
     \<Longrightarrow> parse_priority s = (tl c, map ascii_upper c)"
  "no_match bold_shape s \<Longrightarrow> no_match colon_shape s \<Longrightarrow> no_match space_shape s
     \<Longrightarrow> no_match loose_shape s \<Longrightarrow> near_shape s c
     \<Longrightarrow> parse_priority s = (tl c, map ascii_upper c)"
  "no_match bold_shape s \<Longrightarrow> no_match colon_shape s \<Longrightarrow> no_match space_shape s
     \<Longrightarrow> no_match loose_shape s \<Longrightarrow> \<not> (\<exists>c. near_shape s c)
     \<Longrightarrow> parse_priority s = (js ''3'', js ''P3'')"
proof -
  show "parse_priority s = (tl c, map ascii_upper c)" if "first_match bold_shape s c"
  proof -
    have "is_code c" using that unfolding bold_shape_def by (rule first_match_labelled_code)
    moreover have "priorityText s = Some (code_text c)"
      using that by (simp add: priorityText_def priorityMatch1_iff [symmetric])
    ultimately show ?thesis by (rule parse_priority_found)
  qed
  show "parse_priority s = (tl c, map ascii_upper c)"
    if "no_match bold_shape s" "first_match colon_shape s c"
  proof -
    have "is_code c" using that(2) unfolding colon_shape_def by (rule first_match_labelled_code)
    moreover have "priorityText s = Some (code_text c)"
      using that
      by (simp add: priorityText_def priorityMatch1_iff [symmetric] priorityMatch2_iff [symmetric])
    ultimately show ?thesis by (rule parse_priority_found)
  qed
  show "parse_priority s = (tl c, map ascii_upper c)"
    if "no_match bold_shape s" "no_match colon_shape s" "first_match space_shape s c"
  proof -
    have "is_code c" using that(3) unfolding space_shape_def by (rule first_match_labelled_code)
    moreover have "priorityText s = Some (code_text c)"
      using that
      by (simp add: priorityText_def priorityMatch1_iff [symmetric] priorityMatch2_iff [symmetric]
          priorityMatch3_iff [symmetric])
    ultimately show ?thesis by (rule parse_priority_found)
  qed
  show "parse_priority s = (tl c, map ascii_upper c)"
    if "no_match bold_shape s" "no_match colon_shape s" "no_match space_shape s"
      "first_match loose_shape s c"
  proof -
    have "is_code c" using that(4) unfolding loose_shape_def by (rule first_match_labelled_code)
    moreover have "priorityText s = Some (code_text c)"
      using that
      by (simp add: priorityText_def priorityMatch1_iff [symmetric] priorityMatch2_iff [symmetric]
          priorityMatch3_iff [symmetric] priorityMatch4_iff [symmetric])
    ultimately show ?thesis by (rule parse_priority_found)
  qed
  show "parse_priority s = (tl c, map ascii_upper c)"
    if "no_match bold_shape s" "no_match colon_shape s" "no_match space_shape s"
      "no_match loose_shape s" "near_shape s c"
  proof -
    have "is_code c" using that(5) by (rule near_shape_code)
    moreover have "priorityText s = Some (code_text c)"
      using that
      by (simp add: priorityText_def priorityMatch1_iff [symmetric] priorityMatch2_iff [symmetric]
          priorityMatch3_iff [symmetric] priorityMatch4_iff [symmetric]
          priorityMatch5_iff [symmetric])
    ultimately show ?thesis by (rule parse_priority_found)
  qed
  show "parse_priority s = (js ''3'', js ''P3'')"
    if "no_match bold_shape s" "no_match colon_shape s" "no_match space_shape s"
      "no_match loose_shape s" "\<not> (\<exists>c. near_shape s c)"
  proof -
    have "priorityMatch5 s = None" using that(5) unfolding priorityMatch5_None .
    then have "priorityText s = None"
      using that(1-4)
      by (simp add: priorityText_def priorityMatch1_iff [symmetric] priorityMatch2_iff [symmetric]
          priorityMatch3_iff [symmetric] priorityMatch4_iff [symmetric])
    then show ?thesis by (rule parse_priority_default)
  qed
qed

subsection \<open>The sample ticket\<close>

lemma sample_has_title: "has_title sample_ticket (js ''Login broken'')"
  unfolding has_title_def
  apply (rule exI [of _ "[]"])
  apply (rule exI [of _ "[32]"])
  apply (rule exI [of _ "[]"])
  apply (rule exI [of _ "[10, 10, 9473, 9473, 9473, 10, 10] @
     js ''**Description:** '' @ [10] @ js ''Tap does nothing.'' @ [10, 10, 9473, 9473, 9473, 10, 10] @
     js ''**Priority:** P2''"])
  apply (simp add: sample_ticket_def js_def trimmed_def isWhiteSpace_def isLineTerminator_def sublist_Cons_right)
  done

lemma sample_has_description:
  "has_section sample_ticket (js ''**Description:**'') (js ''Tap does nothing.'')"
  unfolding has_section_def
  apply (rule exI [of _ "js ''**Title:** Login broken'' @ [10, 10, 9473, 9473, 9473, 10, 10]"])
  apply (rule exI [of _ "[32, 10]"])
  apply (rule exI [of _ "[10]"])
  apply (rule exI [of _ "[10, 9473, 9473, 9473, 10, 10] @ js ''**Priority:** P2''"])
  apply (simp add: sample_ticket_def js_def trimmed_def isWhiteSpace_def sublist_Cons_right)
  done

lemma sample_no_impact: "\<not> sublist (js ''**Impact:**'') sample_ticket"
  by (simp add: sample_ticket_def js_def sublist_Cons_right)

text \<open>
  White space after the title on its line is trimmed away; a carriage return before the
  line feed is a line terminator that the pattern of the title cannot pass, and the title
  falls back to its default.
\<close>

lemma sample_title_trailing: "has_title (js ''**Title:** Foo '') (js ''Foo'')"
  unfolding has_title_def
  apply (rule exI [of _ "[]"])
  apply (rule exI [of _ "[32]"])
  apply (rule exI [of _ "[32]"])
  apply (rule exI [of _ "[]"])
  apply (simp add: js_def trimmed_def isWhiteSpace_def isLineTerminator_def sublist_Cons_right)
  done

lemma title_before_carriage_return:
  "title (parseTicketForJira (js ''**Title:** Foo'' @ [13, 10])) = js ''Bug Report''"
proof -
  have "search title_at (js ''**Title:** Foo'' @ [13, 10]) = None"
    by (simp add: title_at_def js_def isWhiteSpace_def isLineTerminator_def)
  then show ?thesis by (simp add: parseTicketForJira_def)
qed

lemma sample_bold: "first_match bold_shape sample_ticket (js ''P2'')"
proof -
  have "priorityMatch1 sample_ticket = Some [80, 50]"
    by (simp add: priorityMatch1_def sample_ticket_def js_def isWhiteSpace_def isWordChar_def)
  then show ?thesis unfolding priorityMatch1_iff by (simp add: js_def)
qed

text \<open>
  A code without bold markup and in lower case is found by the second pattern and stored
  in upper case.
\<close>

lemma sample_colon:
  "no_match bold_shape (js ''Priority: p1'')"
  "first_match colon_shape (js ''Priority: p1'') (js ''p1'')"
proof -
  have "priorityMatch1 (js ''Priority: p1'') = None"
    by (simp add: priorityMatch1_def js_def)
  then show "no_match bold_shape (js ''Priority: p1'')" unfolding priorityMatch1_iff .
  have "priorityMatch2 (js ''Priority: p1'') = Some [112, 49]"
    by (simp add: priorityMatch2_def js_def ascii_upper_def isWhiteSpace_def)
  then show "first_match colon_shape (js ''Priority: p1'') (js ''p1'')"
    unfolding priorityMatch2_iff by (simp add: js_def)
qed

text \<open>A label without a colon: the third pattern.\<close>

lemma sample_space:
  "no_match bold_shape (js ''priority P4'')"
  "no_match colon_shape (js ''priority P4'')"
  "first_match space_shape (js ''priority P4'') (js ''P4'')"
proof -
  have "priorityMatch1 (js ''priority P4'') = None"
    by (simp add: priorityMatch1_def js_def)
  then show "no_match bold_shape (js ''priority P4'')" unfolding priorityMatch1_iff .
  have "priorityMatch2 (js ''priority P4'') = None"
    by (simp add: priorityMatch2_def js_def ascii_upper_def)
  then show "no_match colon_shape (js ''priority P4'')" unfolding priorityMatch2_iff .
  have "priorityMatch3 (js ''priority P4'') = Some [80, 52]"
    by (simp add: priorityMatch3_def js_def ascii_upper_def isWhiteSpace_def)
  then show "first_match space_shape (js ''priority P4'') (js ''P4'')"
    unfolding priorityMatch3_iff by (simp add: js_def)
qed

text \<open>Bold markup in the wrong place: the fourth pattern.\<close>

lemma sample_loose:
  "no_match bold_shape (js ''Priority**: P2'')"
  "no_match colon_shape (js ''Priority**: P2'')"
  "no_match space_shape (js ''Priority**: P2'')"
  "first_match loose_shape (js ''Priority**: P2'') (js ''P2'')"
proof -
  have "priorityMatch1 (js ''Priority**: P2'') = None"
    by (simp add: priorityMatch1_def js_def)
  then show "no_match bold_shape (js ''Priority**: P2'')" unfolding priorityMatch1_iff .
  have "priorityMatch2 (js ''Priority**: P2'') = None"
    by (simp add: priorityMatch2_def js_def ascii_upper_def)
  then show "no_match colon_shape (js ''Priority**: P2'')" unfolding priorityMatch2_iff .
  have "priorityMatch3 (js ''Priority**: P2'') = None"
    by (simp add: priorityMatch3_def js_def ascii_upper_def isWhiteSpace_def)
  then show "no_match space_shape (js ''Priority**: P2'')" unfolding priorityMatch3_iff .
  have "priorityMatch4 (js ''Priority**: P2'') = Some [80, 50]"
    by (simp add: priorityMatch4_def js_def ascii_upper_def isWhiteSpace_def)
  then show "first_match loose_shape (js ''Priority**: P2'') (js ''P2'')"
    unfolding priorityMatch4_iff by (simp add: js_def)
qed

text \<open>A code some words after the bold label: the fifth pattern.\<close>

lemma sample_near:
  "no_match bold_shape (js ''**Priority:** High (P1)'')"
  "no_match colon_shape (js ''**Priority:** High (P1)'')"
  "no_match space_shape (js ''**Priority:** High (P1)'')"
  "no_match loose_shape (js ''**Priority:** High (P1)'')"
  "near_shape (js ''**Priority:** High (P1)'') (js ''P1'')"
proof -
  have "priorityMatch1 (js ''**Priority:** High (P1)'') = None"
    by (simp add: priorityMatch1_def js_def isWhiteSpace_def)
  then show "no_match bold_shape (js ''**Priority:** High (P1)'')" unfolding priorityMatch1_iff .
  have "priorityMatch2 (js ''**Priority:** High (P1)'') = None"
    by (simp add: priorityMatch2_def js_def ascii_upper_def isWhiteSpace_def)
  then show "no_match colon_shape (js ''**Priority:** High (P1)'')" unfolding priorityMatch2_iff .
  have "priorityMatch3 (js ''**Priority:** High (P1)'') = None"
    by (simp add: priorityMatch3_def js_def ascii_upper_def isWhiteSpace_def)
  then show "no_match space_shape (js ''**Priority:** High (P1)'')" unfolding priorityMatch3_iff .
  have "priorityMatch4 (js ''**Priority:** High (P1)'') = None"
    by (simp add: priorityMatch4_def js_def ascii_upper_def isWhiteSpace_def)
  then show "no_match loose_shape (js ''**Priority:** High (P1)'')" unfolding priorityMatch4_iff .
  have "priorityMatch5 (js ''**Priority:** High (P1)'') = Some [80, 49]"
    by (simp add: priorityMatch5_def prioritySection_def js_def ascii_upper_def isWordChar_def)
  then show "near_shape (js ''**Priority:** High (P1)'') (js ''P1'')"
    unfolding priorityMatch5_iff by (simp add: js_def)
qed

text \<open>No label and no code: none of the five patterns.\<close>

lemma sample_none:
  "no_match bold_shape (js ''Login is broken'')"
  "no_match colon_shape (js ''Login is broken'')"
  "no_match space_shape (js ''Login is broken'')"
  "no_match loose_shape (js ''Login is broken'')"
  "\<not> (\<exists>c. near_shape (js ''Login is broken'') c)"
proof -
  have "priorityMatch1 (js ''Login is broken'') = None"
    by (simp add: priorityMatch1_def js_def)
  then show "no_match bold_shape (js ''Login is broken'')" unfolding priorityMatch1_iff .
  have "priorityMatch2 (js ''Login is broken'') = None"
    by (simp add: priorityMatch2_def js_def ascii_upper_def)
  then show "no_match colon_shape (js ''Login is broken'')" unfolding priorityMatch2_iff .
  have "priorityMatch3 (js ''Login is broken'') = None"
    by (simp add: priorityMatch3_def js_def ascii_upper_def)
  then show "no_match space_shape (js ''Login is broken'')" unfolding priorityMatch3_iff .
  have "priorityMatch4 (js ''Login is broken'') = None"
    by (simp add: priorityMatch4_def js_def ascii_upper_def)
  then show "no_match loose_shape (js ''Login is broken'')" unfolding priorityMatch4_iff .
  have "priorityMatch5 (js ''Login is broken'') = None"
    by (simp add: priorityMatch5_def prioritySection_def js_def ascii_upper_def)
  then show "\<not> (\<exists>c. near_shape (js ''Login is broken'') c)" unfolding priorityMatch5_None .
qed

lemma sample_upper:
  "map ascii_upper (js ''P2'') = js ''P2''" "tl (js ''P2'') = js ''2''"
  "map ascii_upper (js ''p1'') = js ''P1''" "tl (js ''p1'') = js ''1''"
  "map ascii_upper (js ''P4'') = js ''P4''" "tl (js ''P4'') = js ''4''"
  "map ascii_upper (js ''P1'') = js ''P1''" "tl (js ''P1'') = js ''1''"
  by (simp_all add: js_def ascii_upper_def)

subsection \<open>The parser as a whole\<close>

text \<open>
  Claim C3, as stated, fails on the title: a text without the label \<open>**Title:**\<close> gives
  the title \<open>Bug Report\<close>, not the empty string.
\<close>

theorem missing_title_is_not_empty:
  "title (parseTicketForJira (js ''Login is broken'')) = js ''Bug Report''
   \<and> title (parseTicketForJira (js ''Login is broken'')) \<noteq> []"
proof -
  have "\<not> sublist (js ''**Title:**'') (js ''Login is broken'')"
    by (simp add: js_def sublist_code)
  then have "title (parseTicketForJira (js ''Login is broken'')) = js ''Bug Report''"
    by (rule title_missing)
  then show ?thesis by (simp add: js_def)
qed

text \<open>
  Claim C3, amended. The parser is a total function and every field of its result is a
  string. A title, and each of the six sections Description, Steps to Reproduce, Expected
  Behaviour, Actual Behaviour, Impact and Environment, that is present in well-formed shape
  (\<open>has_title\<close>, \<open>has_section\<close>) is recovered as its exact text. A section whose label
  does not occur in the text resolves to the empty string, and a missing title to
  \<open>Bug Report\<close>. The priority is the code found by the first of five patterns that
  matches, at the first place where it matches, stored in upper case with its digit as the
  identifier: the bold label \<open>**Priority:**\<close>, white space and a code (\<open>bold_shape\<close>);
  the unbolded label \<open>Priority:\<close> in any case, white space and a code (\<open>colon_shape\<close>);
  \<open>Priority\<close> in any case, white space that is not empty and a code (\<open>space_shape\<close>);
  \<open>Priority\<close> in any case, any run of colons, white space and asterisks and a code
  (\<open>loose_shape\<close>); and a code near the label, within the 30 code units after
  \<open>**Priority:**\<close> in any case (\<open>near_shape\<close>). When none of the five matches, the
  priority is \<open>P3\<close> with identifier \<open>3\<close>. In every case the name is one of the four
  codes and the identifier is the one the table gives for it.
\<close>

theorem parseTicketForJira_sections:
  "(has_title s t \<longrightarrow> title (parseTicketForJira s) = t)
 \<and> (has_section s (js ''**Description:**'') b \<longrightarrow> description (parseTicketForJira s) = b)
 \<and> (has_section s (js ''**Steps to Reproduce:**'') b \<longrightarrow> steps (parseTicketForJira s) = b)
 \<and> (has_section s (js ''**Expected Behaviour:**'') b \<longrightarrow> expected (parseTicketForJira s) = b)
 \<and> (has_section s (js ''**Actual Behaviour:**'') b \<longrightarrow> actual (parseTicketForJira s) = b)
 \<and> (has_section s (js ''**Impact:**'') b \<longrightarrow> impact (parseTicketForJira s) = b)
 \<and> (has_section s (js ''**Environment:**'') b \<longrightarrow> environment (parseTicketForJira s) = b)
 \<and> (\<not> sublist (js ''**Title:**'') s \<longrightarrow> title (parseTicketForJira s) = js ''Bug Report'')
 \<and> (\<not> sublist (js ''**Description:**'') s \<longrightarrow> description (parseTicketForJira s) = [])
 \<and> (\<not> sublist (js ''**Steps to Reproduce:**'') s \<longrightarrow> steps (parseTicketForJira s) = [])
 \<and> (\<not> sublist (js ''**Expected Behaviour:**'') s \<longrightarrow> expected (parseTicketForJira s) = [])
 \<and> (\<not> sublist (js ''**Actual Behaviour:**'') s \<longrightarrow> actual (parseTicketForJira s) = [])
 \<and> (\<not> sublist (js ''**Impact:**'') s \<longrightarrow> impact (parseTicketForJira s) = [])
 \<and> (\<not> sublist (js ''**Environment:**'') s \<longrightarrow> environment (parseTicketForJira s) = [])
 \<and> (first_match bold_shape s c \<longrightarrow>
       priorityName (parseTicketForJira s) = map ascii_upper c
       \<and> priorityId (parseTicketForJira s) = tl c)
 \<and> (no_match bold_shape s \<and> first_match colon_shape s c \<longrightarrow>
       priorityName (parseTicketForJira s) = map ascii_upper c
       \<and> priorityId (parseTicketForJira s) = tl c)
 \<and> (no_match bold_shape s \<and> no_match colon_shape s \<and> first_match space_shape s c \<longrightarrow>
       priorityName (parseTicketForJira s) = map ascii_upper c
       \<and> priorityId (parseTicketForJira s) = tl c)
 \<and> (no_match bold_shape s \<and> no_match colon_shape s \<and> no_match space_shape s
      \<and> first_match loose_shape s c \<longrightarrow>
       priorityName (parseTicketForJira s) = map ascii_upper c
       \<and> priorityId (parseTicketForJira s) = tl c)
 \<and> (no_match bold_shape s \<and> no_match colon_shape s \<and> no_match space_shape s
      \<and> no_match loose_shape s \<and> near_shape s c \<longrightarrow>
       priorityName (parseTicketForJira s) = map ascii_upper c
       \<and> priorityId (parseTicketForJira s) = tl c)
 \<and> (no_match bold_shape s \<and> no_match colon_shape s \<and> no_match space_shape s
      \<and> no_match loose_shape s \<and> \<not> (\<exists>c'. near_shape s c') \<longrightarrow>
       priorityName (parseTicketForJira s) = js ''P3''
       \<and> priorityId (parseTicketForJira s) = js ''3'')
 \<and> (priorityId (parseTicketForJira s), priorityName (parseTicketForJira s)) \<in>
       {(js ''1'', js ''P1''), (js ''2'', js ''P2''), (js ''3'', js ''P3''), (js ''4'', js ''P4'')}"
proof -
  have f: "description (parseTicketForJira s) = section_field (js ''**Description:**'') s"
    "steps (parseTicketForJira s) = section_field (js ''**Steps to Reproduce:**'') s"
    "expected (parseTicketForJira s) = section_field (js ''**Expected Behaviour:**'') s"
    "actual (parseTicketForJira s) = section_field (js ''**Actual Behaviour:**'') s"
    "impact (parseTicketForJira s) = section_field (js ''**Impact:**'') s"
    "environment (parseTicketForJira s) = section_field (js ''**Environment:**'') s"
    "priorityId (parseTicketForJira s) = fst (parse_priority s)"
    "priorityName (parseTicketForJira s) = snd (parse_priority s)"
    by (simp_all add: parseTicketForJira_def)
  have a: "has_section s l b \<longrightarrow> section_field l s = b" for l
    by (simp add: section_field_has_section)
  have m: "\<not> sublist l s \<longrightarrow> section_field l s = []" for l
    by (simp add: section_field_missing)
  have t: "has_title s t \<longrightarrow> title (parseTicketForJira s) = t"
    by (simp add: title_has_title)
  have n: "\<not> sublist (js ''**Title:**'') s \<longrightarrow> title (parseTicketForJira s) = js ''Bug Report''"
    by (simp add: title_missing)
  have p1: "first_match bold_shape s c \<longrightarrow>
       snd (parse_priority s) = map ascii_upper c \<and> fst (parse_priority s) = tl c"
    using parse_priority_cascade(1) [of s c] by simp
  have p2: "no_match bold_shape s \<and> first_match colon_shape s c \<longrightarrow>
       snd (parse_priority s) = map ascii_upper c \<and> fst (parse_priority s) = tl c"
    using parse_priority_cascade(2) [of s c] by simp
  have p3: "no_match bold_shape s \<and> no_match colon_shape s \<and> first_match space_shape s c \<longrightarrow>
       snd (parse_priority s) = map ascii_upper c \<and> fst (parse_priority s) = tl c"
    using parse_priority_cascade(3) [of s c] by simp
  have p4: "no_match bold_shape s \<and> no_match colon_shape s \<and> no_match space_shape s
      \<and> first_match loose_shape s c \<longrightarrow>
       snd (parse_priority s) = map ascii_upper c \<and> fst (parse_priority s) = tl c"
    using parse_priority_cascade(4) [of s c] by simp
  have p5: "no_match bold_shape s \<and> no_match colon_shape s \<and> no_match space_shape s
      \<and> no_match loose_shape s \<and> near_shape s c \<longrightarrow>
       snd (parse_priority s) = map ascii_upper c \<and> fst (parse_priority s) = tl c"
    using parse_priority_cascade(5) [of s c] by simp
  have p6: "no_match bold_shape s \<and> no_match colon_shape s \<and> no_match space_shape s
      \<and> no_match loose_shape s \<and> \<not> (\<exists>c'. near_shape s c') \<longrightarrow>
       snd (parse_priority s) = js ''P3'' \<and> fst (parse_priority s) = js ''3''"
    using parse_priority_cascade(6) [of s] by simp
  show ?thesis
    unfolding f
    by (intro conjI a m t n p1 p2 p3 p4 p5 p6 parse_priority_in_table)
qed

theorem parseTicketForJira_sections_witness:
  "has_title sample_ticket (js ''Login broken'')
   \<and> title (parseTicketForJira sample_ticket) = js ''Login broken''
   \<and> has_title (js ''**Title:** Foo '') (js ''Foo'')
   \<and> title (parseTicketForJira (js ''**Title:** Foo '')) = js ''Foo''
   \<and> has_section sample_ticket (js ''**Description:**'') (js ''Tap does nothing.'')
   \<and> description (parseTicketForJira sample_ticket) = js ''Tap does nothing.''
   \<and> \<not> sublist (js ''**Impact:**'') sample_ticket
   \<and> impact (parseTicketForJira sample_ticket) = []
   \<and> first_match bold_shape sample_ticket (js ''P2'')
   \<and> priorityName (parseTicketForJira sample_ticket) = js ''P2''
   \<and> priorityId (parseTicketForJira sample_ticket) = js ''2''
   \<and> first_match colon_shape (js ''Priority: p1'') (js ''p1'')
   \<and> priorityName (parseTicketForJira (js ''Priority: p1'')) = js ''P1''
   \<and> priorityId (parseTicketForJira (js ''Priority: p1'')) = js ''1''
   \<and> first_match space_shape (js ''priority P4'') (js ''P4'')
   \<and> priorityName (parseTicketForJira (js ''priority P4'')) = js ''P4''
   \<and> first_match loose_shape (js ''Priority**: P2'') (js ''P2'')
   \<and> priorityName (parseTicketForJira (js ''Priority**: P2'')) = js ''P2''
   \<and> near_shape (js ''**Priority:** High (P1)'') (js ''P1'')
   \<and> priorityName (parseTicketForJira (js ''**Priority:** High (P1)'')) = js ''P1''
   \<and> \<not> (\<exists>c. near_shape (js ''Login is broken'') c)
   \<and> priorityName (parseTicketForJira (js ''Login is broken'')) = js ''P3''
   \<and> priorityId (parseTicketForJira (js ''Login is broken'')) = js ''3''"
proof -
  note a = parseTicketForJira_sections
    [of sample_ticket "js ''Login broken''" "js ''Tap does nothing.''" "js ''P2''"]
  note b = parseTicketForJira_sections [of "js ''Priority: p1''" "[]" "[]" "js ''p1''"]
  note c = parseTicketForJira_sections [of "js ''priority P4''" "[]" "[]" "js ''P4''"]
  note d = parseTicketForJira_sections [of "js ''Priority**: P2''" "[]" "[]" "js ''P2''"]
  note e = parseTicketForJira_sections [of "js ''**Priority:** High (P1)''" "[]" "[]" "js ''P1''"]
  note f = parseTicketForJira_sections [of "js ''Login is broken''" "[]" "[]" "[]"]
  note g = parseTicketForJira_sections [of "js ''**Title:** Foo ''" "js ''Foo''" "[]" "[]"]
  have 0: "title (parseTicketForJira (js ''**Title:** Foo '')) = js ''Foo''"
    using g sample_title_trailing by (simp only: simp_thms)
  have 1: "title (parseTicketForJira sample_ticket) = js ''Login broken''"
    using a sample_has_title by (simp only: simp_thms)
  have 2: "description (parseTicketForJira sample_ticket) = js ''Tap does nothing.''"
    using a sample_has_description by (simp only: simp_thms)
  have 3: "impact (parseTicketForJira sample_ticket) = []"
    using a sample_no_impact by (simp only: simp_thms)
  have 4: "priorityName (parseTicketForJira sample_ticket) = js ''P2''
     \<and> priorityId (parseTicketForJira sample_ticket) = js ''2''"
    using a sample_bold unfolding sample_upper by (simp only: simp_thms)
  have 5: "priorityName (parseTicketForJira (js ''Priority: p1'')) = js ''P1''
     \<and> priorityId (parseTicketForJira (js ''Priority: p1'')) = js ''1''"
    using b sample_colon unfolding sample_upper by (simp only: simp_thms)
  have 6: "priorityName (parseTicketForJira (js ''priority P4'')) = js ''P4''"
    using c sample_space unfolding sample_upper by (simp only: simp_thms)
  have 7: "priorityName (parseTicketForJira (js ''Priority**: P2'')) = js ''P2''"
    using d sample_loose unfolding sample_upper by (simp only: simp_thms)
  have 8: "priorityName (parseTicketForJira (js ''**Priority:** High (P1)'')) = js ''P1''"
    using e sample_near unfolding sample_upper by (simp only: simp_thms)
  have 9: "priorityName (parseTicketForJira (js ''Login is broken'')) = js ''P3''
     \<and> priorityId (parseTicketForJira (js ''Login is broken'')) = js ''3''"
    using f sample_none by (simp only: simp_thms)
  show ?thesis
    using 0 1 2 3 4 5 6 7 8 9 sample_has_title sample_title_trailing
      sample_has_description sample_no_impact
      sample_bold sample_colon(2) sample_space(3) sample_loose(4) sample_near(5) sample_none(5)
    by (simp only: simp_thms)
qed

section \<open>Properties of the Jira push proxy\<close>

subsection \<open>The handler\<close>

lemma push_rate_limit_passes:
  "fst (push_rate_limit m ip now) = None
     \<longleftrightarrow> \<not> (\<exists>e. m ip = Some e \<and> now < resetTime e \<and> 10 \<le> count e)"
  by (cases "m ip") (auto simp: push_rate_limit_def handler_rate_limit_def)

lemma allow_origin_None:
  "allow_origin allowed origin = None \<longleftrightarrow> origin = None \<and> js ''*'' \<in> set allowed"
  by (auto simp: allow_origin_def)

lemma push_handler_passed:
  assumes "fst (push_rate_limit m ip now) = None"
    and "origin = None \<longrightarrow> js ''*'' \<notin> set (ALLOWED_ORIGINS env)"
  shows "fst (push_handler env m ip now origin (js ''POST'') req_body) = push_try env req_body"
  using assms by (cases "push_rate_limit m ip now")
    (auto simp: push_handler_def allow_origin_None)

lemma js_String_Some_iff:
  "(\<exists>t. js_String ts v = Some t) \<longleftrightarrow> \<not> string_throws v"
  by (simp add: js_String_def)

lemma js_String_JStr [simp]: "js_String ts (JStr s) = Some s"
  by (simp add: js_String_def)

lemma jiraDescription_Some_iff:
  "(\<exists>t. jiraDescription ts f = Some t) \<longleftrightarrow>
     \<not> string_throws (get f (js ''description'')) \<and> \<not> string_throws (get f (js ''steps''))
     \<and> \<not> string_throws (get f (js ''expected'')) \<and> \<not> string_throws (get f (js ''actual''))
     \<and> \<not> string_throws (get f (js ''impact'')) \<and> \<not> string_throws (get f (js ''environment''))"
  unfolding jiraDescription_def js_String_def by (simp split: option.splits)

lemma engineering_team_Some_iff:
  "(\<exists>r. engineering_team ts pk oc cf = Some r) \<longleftrightarrow>
     (truthy (get cf (js ''engineeringTeam'')) \<longrightarrow> \<not> string_throws (get cf (js ''engineeringTeam'')))"
  unfolding engineering_team_def js_String_def
  by (simp add: Let_def case_prod_beta split: option.splits)

lemma jiraPayload_Some_iff:
  "(\<exists>r. jiraPayload ts oc pk f cf = Some r) \<longleftrightarrow>
     \<not> string_throws (get f (js ''description'')) \<and> \<not> string_throws (get f (js ''steps''))
     \<and> \<not> string_throws (get f (js ''expected'')) \<and> \<not> string_throws (get f (js ''actual''))
     \<and> \<not> string_throws (get f (js ''impact'')) \<and> \<not> string_throws (get f (js ''environment''))
     \<and> (truthy cf \<and> truthy (get cf (js ''engineeringTeam''))
          \<longrightarrow> \<not> string_throws (get cf (js ''engineeringTeam'')))"
proof (cases "jiraDescription ts f")
  case None
  then show ?thesis
    using jiraDescription_Some_iff [of ts f] by (auto simp: jiraPayload_def)
next
  case (Some t)
  then have d: "\<not> string_throws (get f (js ''description'')) \<and> \<not> string_throws (get f (js ''steps''))
     \<and> \<not> string_throws (get f (js ''expected'')) \<and> \<not> string_throws (get f (js ''actual''))
     \<and> \<not> string_throws (get f (js ''impact'')) \<and> \<not> string_throws (get f (js ''environment''))"
    using jiraDescription_Some_iff [of ts f] by simp
  show ?thesis
  proof (cases "truthy cf")
    case True
    then show ?thesis
      using Some d engineering_team_Some_iff [of ts pk oc cf]
      by (cases "engineering_team ts pk oc cf") (simp_all add: jiraPayload_def)
  next
    case False
    then show ?thesis using Some d by (simp add: jiraPayload_def)
  qed
qed

text \<open>
  The handler sends a payload exactly when the body is there with its five required
  values, the address is a string that the validator accepts, \<open>email\<close> and \<open>apiToken\<close>
  can be converted, and the payload can be built; the payload sent is the one built.
\<close>

lemma push_try_submitted_iff:
  "submitted (push_try env req_body) = Some p \<longleftrightarrow>
     (\<exists>b url l. req_body = Some b \<and> jiraUrl b = JStr url \<and> url \<noteq> []
        \<and> truthy (email b) \<and> truthy (apiToken b) \<and> truthy (projectKey b) \<and> truthy (fields' b)
        \<and> valid (validateJiraUrl (new_URL env) url)
        \<and> \<not> string_throws (email b) \<and> \<not> string_throws (apiToken b)
        \<and> \<not> length_throws (attachments b)
        \<and> jiraPayload (to_string env) (fetch_metadata env)
             (projectKey b) (fields' b) (customFields b) = Some (p, l))"
proof (cases req_body)
  case None
  then show ?thesis by (simp add: push_try_def)
next
  case (Some b)
  show ?thesis
  proof (cases "length_throws (attachments b)")
    case True
    then show ?thesis
      using Some by (auto simp: push_try_def Let_def attachment_items_def split: json.splits)
  next
    case False
    then obtain items where
      items: "attachment_items (object_items env) (attachments b) = Some items"
      by (simp add: attachment_items_def)
    show ?thesis
    proof (cases "jiraUrl b")
      case (JStr url)
      show ?thesis
      proof (cases "jiraPayload (to_string env) (fetch_metadata env)
               (projectKey b) (fields' b) (customFields b)")
        case None
        then show ?thesis using Some JStr False items by (simp add: push_try_def Let_def)
      next
        case (Some r)
        obtain p' l' where r: "r = (p', l')" by (cases r)
        show ?thesis
          using Some \<open>req_body = Some b\<close> JStr r False items
          by (cases "create_issue env p'") (auto simp: push_try_def Let_def)
      qed
    qed (use Some False in \<open>auto simp: push_try_def Let_def split: option.splits\<close>)
  qed
qed

lemma push_handler_submitted_iff:
  "submitted (fst (push_handler env m ip now origin req_method req_body)) = Some p \<longleftrightarrow>
     fst (push_rate_limit m ip now) = None
     \<and> (origin = None \<longrightarrow> js ''*'' \<notin> set (ALLOWED_ORIGINS env))
     \<and> req_method = js ''POST''
     \<and> submitted (push_try env req_body) = Some p"
  by (cases "push_rate_limit m ip now")
    (auto simp: push_handler_def allow_origin_None js_def split: option.splits if_splits)

lemma accepted_iff_submitted:
  "accepted env m ip now origin req_method req_body \<longleftrightarrow>
     (\<exists>p. submitted (fst (push_handler env m ip now origin req_method req_body)) = Some p)"
proof
  assume "accepted env m ip now origin req_method req_body"
  then obtain b url where
    rl: "fst (push_rate_limit m ip now) = None"
    and og: "origin = None \<longrightarrow> js ''*'' \<notin> set (ALLOWED_ORIGINS env)"
    and me: "req_method = js ''POST''"
    and b: "req_body = Some b" "jiraUrl b = JStr url" "url \<noteq> []"
      "truthy (email b)" "truthy (apiToken b)" "truthy (projectKey b)" "truthy (fields' b)"
      "valid (validateJiraUrl (new_URL env) url)"
    and c: "converts b"
    unfolding accepted_def push_rate_limit_passes by blast
  from c have "\<exists>r. jiraPayload (to_string env) (fetch_metadata env)
             (projectKey b) (fields' b) (customFields b) = Some r"
    unfolding jiraPayload_Some_iff converts_def by simp
  then obtain p l where "jiraPayload (to_string env) (fetch_metadata env)
             (projectKey b) (fields' b) (customFields b) = Some (p, l)"
    by auto
  then have "submitted (push_try env req_body) = Some p"
    unfolding push_try_submitted_iff using b c by (auto simp: converts_def)
  then show "\<exists>p. submitted (fst (push_handler env m ip now origin req_method req_body)) = Some p"
    unfolding push_handler_submitted_iff using rl og me by blast
next
  assume "\<exists>p. submitted (fst (push_handler env m ip now origin req_method req_body)) = Some p"
  then obtain p where p: "fst (push_rate_limit m ip now) = None" "req_method = js ''POST''"
    "submitted (push_try env req_body) = Some p"
    and og: "origin = None \<longrightarrow> js ''*'' \<notin> set (ALLOWED_ORIGINS env)"
    unfolding push_handler_submitted_iff by blast
  from p(3) obtain b url l where b: "req_body = Some b" "jiraUrl b = JStr url" "url \<noteq> []"
      "truthy (email b)" "truthy (apiToken b)" "truthy (projectKey b)" "truthy (fields' b)"
      "valid (validateJiraUrl (new_URL env) url)"
      "\<not> string_throws (email b)" "\<not> string_throws (apiToken b)"
      "jiraPayload (to_string env) (fetch_metadata env)
             (projectKey b) (fields' b) (customFields b) = Some (p, l)"
      "\<not> length_throws (attachments b)"
    unfolding push_try_submitted_iff by blast
  from b(11) have "converts b"
    using jiraPayload_Some_iff [of "to_string env" "fetch_metadata env" "projectKey b" "fields' b" "customFields b"]
      b(9,10,12)
    by (simp add: converts_def)
  then show "accepted env m ip now origin req_method req_body"
    unfolding accepted_def using p(1,2) og b(1-8) by (auto simp: push_rate_limit_passes)
qed

lemma jiraPayload_fixed:
  assumes "jiraPayload ts oc pk f cf = Some (p, l)"
  shows "issuetype_name p = js ''Bug'' \<and> truthy (priority_id p) \<and> truthy (priority_name p)"
  using assms
  by (auto simp: jiraPayload_def js_or_def js_def split: option.splits)

lemma get_fields_json:
  "get (fields_json f) (js ''priorityId'') = JStr (priorityId f)"
  "get (fields_json f) (js ''priorityName'') = JStr (priorityName f)"
  by (simp_all add: fields_json_def)

lemma jiraPayload_from_parser:
  assumes "jiraPayload ts oc pk (fields_json (parseTicketForJira s)) cf = Some (p, l)"
  shows "priority_id p = JStr (priorityId (parseTicketForJira s))
       \<and> priority_name p = JStr (priorityName (parseTicketForJira s))"
proof -
  have "(priorityId (parseTicketForJira s), priorityName (parseTicketForJira s)) \<in>
       {(js ''1'', js ''P1''), (js ''2'', js ''P2''), (js ''3'', js ''P3''), (js ''4'', js ''P4'')}"
    using parse_priority_in_table [of s] by (simp add: parseTicketForJira_def)
  then have "priorityId (parseTicketForJira s) \<noteq> []" "priorityName (parseTicketForJira s) \<noteq> []"
    by (auto simp: js_def)
  then show ?thesis
    using assms
    by (auto simp: jiraPayload_def js_or_def get_fields_json split: option.splits)
qed

subsection \<open>The sample request\<close>

lemma sample_accepted:
  "accepted sample_env Map.empty (js ''203.0.113.7'') 0 sample_origin (js ''POST'') (Some (sample_body atts))"
proof -
  have v: "valid (validateJiraUrl sample_URL (js ''https://acme.atlassian.net''))"
    by (simp add: validateJiraUrl_def sample_URL_def endsWith_def js_def)
  have c: "converts (sample_body atts)"
    by (simp add: converts_def sample_body_def fields_json_def length_throws_def)
  have t: "truthy (fields' (sample_body atts))"
    by (simp add: sample_body_def fields_json_def)
  show ?thesis
    unfolding accepted_def using v c t
    by (simp add: sample_body_def sample_env_def sample_origin_def js_def)
qed

lemma sample_team: "trim (js '' Checkout '') = js ''Checkout''"
  by (simp add: trim_def js_def isWhiteSpace_def)

lemma sample_lookup:
  "getEngineeringTeamId (JStr (js ''BUG'')) (MetaOk sample_metadata) (js ''Checkout'') = (JNull, False)"
  by (simp add: getEngineeringTeamId_def sample_metadata_def sample_field_def Let_def)

text \<open>
  Two requests that are not accepted. The sample request with an \<open>email\<close> that cannot
  be converted to a string is answered 500 by the outer \<open>catch\<close>, and nothing is sent to
  Jira; the sample request without the headers \<open>Origin\<close> and \<open>Referer\<close> makes
  \<open>res.setHeader\<close> throw outside the \<open>try\<close>.
\<close>

lemma sample_email_object:
  "fst (push_handler sample_env Map.empty (js ''203.0.113.7'') 0 sample_origin (js ''POST'')
     (Some ((sample_body []) \<lparr>email := JObj [(js ''toString'', JNum 1)]\<rparr>)))
   = \<lparr>response = Response 500 ThrownBody, submitted = None, logged = [], uploads = []\<rparr>"
proof -
  have r: "push_rate_limit Map.empty (js ''203.0.113.7'') 0 =
      (None, [js ''203.0.113.7'' \<mapsto> \<lparr>count = 1, resetTime = 60000\<rparr>])"
    by (simp add: push_rate_limit_def handler_rate_limit_def RATE_LIMIT_WINDOW_def)
  have v: "valid (validateJiraUrl sample_URL (js ''https://acme.atlassian.net''))"
    by (simp add: validateJiraUrl_def sample_URL_def endsWith_def js_def)
  have t: "truthy (fields' (sample_body []))"
    by (simp add: sample_body_def fields_json_def)
  have "push_try sample_env (Some ((sample_body []) \<lparr>email := JObj [(js ''toString'', JNum 1)]\<rparr>))
      = \<lparr>response = Response 500 ThrownBody, submitted = None, logged = [], uploads = []\<rparr>"
    using v t
    by (simp add: push_try_def sample_body_def sample_env_def thrown_def js_def
        attachment_items_def length_throws_def)
  then show ?thesis
    by (simp add: push_handler_def r allow_origin_def sample_env_def sample_origin_def)
qed

lemma sample_without_origin:
  "response (fst (push_handler sample_env Map.empty (js ''203.0.113.7'') 0 None (js ''POST'')
     (Some (sample_body [])))) = Uncaught"
proof -
  have r: "push_rate_limit Map.empty (js ''203.0.113.7'') 0 =
      (None, [js ''203.0.113.7'' \<mapsto> \<lparr>count = 1, resetTime = 60000\<rparr>])"
    by (simp add: push_rate_limit_def handler_rate_limit_def RATE_LIMIT_WINDOW_def)
  show ?thesis
    by (simp add: push_handler_def r allow_origin_def sample_env_def)
qed

subsection \<open>The payload\<close>

lemma priorityIdMap_values:
  "map_of priorityIdMap (js ''P1'') = Some (js ''1'')"
  "map_of priorityIdMap (js ''P2'') = Some (js ''2'')"
  "map_of priorityIdMap (js ''P3'') = Some (js ''3'')"
  "map_of priorityIdMap (js ''P4'') = Some (js ''4'')"
  by (simp_all add: priorityIdMap_def)

lemma priorityIdMap_inverse:
  "map_of (map prod.swap priorityIdMap) (js ''1'') = Some (js ''P1'')"
  "map_of (map prod.swap priorityIdMap) (js ''2'') = Some (js ''P2'')"
  "map_of (map prod.swap priorityIdMap) (js ''3'') = Some (js ''P3'')"
  "map_of (map prod.swap priorityIdMap) (js ''4'') = Some (js ''P4'')"
  by (simp_all add: priorityIdMap_def)

lemma priorityIdMap_inj:
  "inj_on (map_of priorityIdMap) {js ''P1'', js ''P2'', js ''P3'', js ''P4''}"
  by (simp add: inj_on_def priorityIdMap_values)

lemma priorityIdMap_round_trip:
  "\<forall>n \<in> {js ''P1'', js ''P2'', js ''P3'', js ''P4''}.
     map_of (map prod.swap priorityIdMap) (the (map_of priorityIdMap n)) = Some n"
  by (simp add: priorityIdMap_values priorityIdMap_inverse)

lemma parser_priority_consistent:
  "map_of priorityIdMap (priorityName (parseTicketForJira s)) = Some (priorityId (parseTicketForJira s))"
proof -
  have "(priorityId (parseTicketForJira s), priorityName (parseTicketForJira s)) \<in>
       {(js ''1'', js ''P1''), (js ''2'', js ''P2''), (js ''3'', js ''P3''), (js ''4'', js ''P4'')}"
    using parse_priority_in_table [of s] by (simp add: parseTicketForJira_def)
  then show ?thesis by (auto simp: priorityIdMap_values)
qed

lemma push_handler_submitted_payload:
  assumes "submitted (fst (push_handler env m ip now origin req_method req_body)) = Some p"
  shows "\<exists>b l. req_body = Some b
           \<and> jiraPayload (to_string env) (fetch_metadata env)
               (projectKey b) (fields' b) (customFields b) = Some (p, l)"
  using assms unfolding push_handler_submitted_iff push_try_submitted_iff by blast

text \<open>
  Claim C4. The requests that the push proxy accepts are exactly those for which the
  handler sends a payload to \<open>/rest/api/2/issue\<close>: a \<open>POST\<close> request under the rate
  limit, with a value for the header \<open>Access-Control-Allow-Origin\<close>, the five required
  values, an address the validator accepts, and values that can be converted to the texts
  of the payload (a request whose \<open>email\<close>, say, is an object with a property
  \<open>toString\<close> is answered 500 and nothing is sent). Every
  payload the handler sends has the issue type \<open>Bug\<close> and a priority whose \<open>id\<close> and
  \<open>name\<close> are both present (truthy). When the fields come from the client parser, the
  two are strings and the table \<open>priorityIdMap\<close> maps the name to the id. The table maps
  \<open>P1\<close> to \<open>1\<close>, \<open>P2\<close> to \<open>2\<close>, \<open>P3\<close> to \<open>3\<close> and \<open>P4\<close> to \<open>4\<close>; it
  is injective on the four codes, and the inverse table leads from each identifier back
  to its code.
\<close>

theorem payload_is_bug_with_consistent_priority:
  "(accepted env m ip now origin req_method req_body \<longleftrightarrow>
      (\<exists>p. submitted (fst (push_handler env m ip now origin req_method req_body)) = Some p))
 \<and> (submitted (fst (push_handler env m ip now origin req_method req_body)) = Some p \<longrightarrow>
      issuetype_name p = js ''Bug'' \<and> truthy (priority_id p) \<and> truthy (priority_name p))
 \<and> (submitted (fst (push_handler env m ip now origin req_method req_body)) = Some p
      \<and> fields' (the req_body) = fields_json (parseTicketForJira s) \<longrightarrow>
      (\<exists>n i. priority_name p = JStr n \<and> priority_id p = JStr i
             \<and> map_of priorityIdMap n = Some i))
 \<and> map_of priorityIdMap (js ''P1'') = Some (js ''1'')
 \<and> map_of priorityIdMap (js ''P2'') = Some (js ''2'')
 \<and> map_of priorityIdMap (js ''P3'') = Some (js ''3'')
 \<and> map_of priorityIdMap (js ''P4'') = Some (js ''4'')
 \<and> inj_on (map_of priorityIdMap) {js ''P1'', js ''P2'', js ''P3'', js ''P4''}
 \<and> (\<forall>n \<in> {js ''P1'', js ''P2'', js ''P3'', js ''P4''}.
       map_of (map prod.swap priorityIdMap) (the (map_of priorityIdMap n)) = Some n)"
proof -
  have 1: "accepted env m ip now origin req_method req_body \<longleftrightarrow>
      (\<exists>p. submitted (fst (push_handler env m ip now origin req_method req_body)) = Some p)"
    by (rule accepted_iff_submitted)
  have 2: "issuetype_name p = js ''Bug'' \<and> truthy (priority_id p) \<and> truthy (priority_name p)"
    if "submitted (fst (push_handler env m ip now origin req_method req_body)) = Some p"
    using push_handler_submitted_payload [OF that] jiraPayload_fixed by blast
  have 3: "\<exists>n i. priority_name p = JStr n \<and> priority_id p = JStr i \<and> map_of priorityIdMap n = Some i"
    if s1: "submitted (fst (push_handler env m ip now origin req_method req_body)) = Some p"
      and s2: "fields' (the req_body) = fields_json (parseTicketForJira s)"
  proof -
    obtain b l where b: "req_body = Some b"
      "jiraPayload (to_string env) (fetch_metadata env)
                 (projectKey b) (fields' b) (customFields b) = Some (p, l)"
      using push_handler_submitted_payload [OF s1] by blast
    then have "fields' b = fields_json (parseTicketForJira s)" using s2 by simp
    then show ?thesis
      using b(2) jiraPayload_from_parser [of "to_string env" "fetch_metadata env" "projectKey b" s "customFields b" p l]
        parser_priority_consistent [of s]
      by simp
  qed
  show ?thesis
    using 1 2 3 priorityIdMap_values priorityIdMap_inj priorityIdMap_round_trip
    by blast
qed

theorem payload_is_bug_with_consistent_priority_witness:
  "accepted sample_env Map.empty (js ''203.0.113.7'') 0 sample_origin (js ''POST'') (Some (sample_body []))
   \<and> (\<exists>p. submitted (fst (push_handler sample_env Map.empty (js ''203.0.113.7'') 0 sample_origin (js ''POST'')
                (Some (sample_body [])))) = Some p
          \<and> issuetype_name p = js ''Bug''
          \<and> truthy (priority_id p) \<and> truthy (priority_name p)
          \<and> (\<exists>n i. priority_name p = JStr n \<and> priority_id p = JStr i
                 \<and> map_of priorityIdMap n = Some i))"
proof -
  let ?h = "push_handler sample_env Map.empty (js ''203.0.113.7'') 0 sample_origin (js ''POST'') (Some (sample_body []))"
  have a: "accepted sample_env Map.empty (js ''203.0.113.7'') 0 sample_origin (js ''POST'') (Some (sample_body []))"
    by (rule sample_accepted)
  have f: "fields' (the (Some (sample_body []))) = fields_json (parseTicketForJira sample_ticket)"
    by (simp add: sample_body_def)
  note t = payload_is_bug_with_consistent_priority
    [of sample_env Map.empty "js ''203.0.113.7''" 0 sample_origin "js ''POST''" "Some (sample_body [])" _ sample_ticket]
  from t a obtain p where p: "submitted (fst ?h) = Some p" by blast
  show ?thesis
    using a p f payload_is_bug_with_consistent_priority
    [of sample_env Map.empty "js ''203.0.113.7''" 0 sample_origin "js ''POST''" "Some (sample_body [])" p sample_ticket]
    by blast
qed

subsection \<open>The lookup of the engineering team\<close>

lemma getEngineeringTeamId_failed:
  "\<not> truthy (fst (getEngineeringTeamId pk MetaThrows team))"
  "\<not> truthy (fst (getEngineeringTeamId pk MetaNotOk team))"
  "snd (getEngineeringTeamId pk MetaThrows team)"
  by (simp_all add: getEngineeringTeamId_def)

lemma find_option_match:
  assumes "find_option team opts = Some opt" "truthy opt"
  shows "opt \<in> set opts \<and> (get opt (js ''value'') = JStr team \<or> get opt (js ''name'') = JStr team)"
  using assms by (induction opts) (auto split: if_splits)

lemma getEngineeringTeamId_found:
  assumes "truthy (fst (getEngineeringTeamId pk outcome team))"
  shows "\<exists>metadata opts opt. outcome = MetaOk metadata
           \<and> get (get (get (index0 (get (index0 (get metadata (js ''projects''))) (js ''issuetypes'')))
                 (js ''fields'')) (js ''customfield_11737'')) (js ''allowedValues'') = JArr opts
           \<and> opt \<in> set opts
           \<and> (get opt (js ''value'') = JStr team \<or> get opt (js ''name'') = JStr team)
           \<and> get opt (js ''id'') = fst (getEngineeringTeamId pk outcome team)"
proof (cases outcome)
  case MetaThrows
  then show ?thesis using assms by (simp add: getEngineeringTeamId_def split: if_splits)
next
  case MetaNotOk
  then show ?thesis using assms by (simp add: getEngineeringTeamId_def split: if_splits)
next
  case (MetaOk metadata)
  let ?av = "get (get (get (index0 (get (index0 (get metadata (js ''projects''))) (js ''issuetypes'')))
                 (js ''fields'')) (js ''customfield_11737'')) (js ''allowedValues'')"
  from assms MetaOk obtain opts opt where
    "?av = JArr opts" "find_option team opts = Some opt" "truthy opt"
    "get opt (js ''id'') = fst (getEngineeringTeamId pk outcome team)"
    by (auto simp: getEngineeringTeamId_def Let_def split: if_splits json.splits option.splits)
  then show ?thesis using MetaOk find_option_match [of team opts opt] by blast
qed

lemma engineering_team_value_only:
  assumes "truthy (get cf (js ''engineeringTeam''))"
    and "js_String ts (get cf (js ''engineeringTeam'')) = Some text"
    and "team = trim text" "team \<noteq> []"
    and "\<not> truthy (fst (getEngineeringTeamId pk oc team))"
  shows "engineering_team ts pk oc cf =
           Some (Some (ValueOnly team),
                 (if snd (getEngineeringTeamId pk oc team) then [WarningMetadata] else [])
                 @ [TeamValueOnly])"
  using assms by (simp add: engineering_team_def Let_def case_prod_beta)

lemma push_try_response:
  assumes "submitted (push_try env (Some b)) = Some p" "jiraUrl b = JStr url"
    and "attachment_items (object_items env) (attachments b) = Some items"
  shows "response (push_try env (Some b)) =
           (case create_issue env p of
              CreateThrows message \<Rightarrow> server_error message
            | CreateNotOk st \<Rightarrow> Response st UpstreamErrorBody
            | CreateOk data \<Rightarrow> fst (after_create env url data items))
       \<and> (\<exists>l. jiraPayload (to_string env) (fetch_metadata env)
                 (projectKey b) (fields' b) (customFields b) = Some (p, l)
              \<and> logged (push_try env (Some b)) =
                  l @ (case create_issue env p of
                         CreateOk data \<Rightarrow> fst (snd (after_create env url data items))
                       | _ \<Rightarrow> [])
              \<and> uploads (push_try env (Some b)) =
                  (case create_issue env p of
                     CreateOk data \<Rightarrow> snd (snd (after_create env url data items))
                   | _ \<Rightarrow> []))"
proof -
  from assms(1) obtain url' l where b: "jiraUrl b = JStr url'" "url' \<noteq> []"
      "truthy (email b)" "truthy (apiToken b)" "truthy (projectKey b)" "truthy (fields' b)"
      "valid (validateJiraUrl (new_URL env) url')"
      "\<not> string_throws (email b)" "\<not> string_throws (apiToken b)"
      "jiraPayload (to_string env) (fetch_metadata env)
             (projectKey b) (fields' b) (customFields b) = Some (p, l)"
    unfolding push_try_submitted_iff by blast
  have u: "url' = url" using assms(2) b(1) by simp
  show ?thesis
    using b u assms(3) by (cases "create_issue env p") (simp_all add: push_try_def Let_def)
qed

text \<open>
  Claim C5. An accepted request carries an engineering team whose text, after
  \<open>String(...).trim()\<close>, is not empty. If the metadata lookup throws, is answered with
  a status that is not \<open>ok\<close>, or yields no identifier (no option matches, see
  \<open>getEngineeringTeamId_found\<close>), the handler still sends the payload, with the team
  as \<open>{ value }\<close> alone, and logs the line of the value-only fallback (and the warning
  of the \<open>catch\<close> block when the lookup threw). The response of the handler is the one
  the creation of the issue leads to: status 500 with the message of a request that
  failed, the status of an answer of Jira that is not \<open>ok\<close>, or the response after a
  created issue and the uploads of its attachments \<open>items\<close>. The lookup aborts nothing
  and raises nothing.
\<close>

theorem engineering_team_lookup_is_best_effort:
  assumes "accepted env m ip now origin req_method req_body"
    and "jiraUrl (the req_body) = JStr url"
    and "attachment_items (object_items env) (attachments (the req_body)) = Some items"
    and "truthy (customFields (the req_body))"
    and "truthy (get (customFields (the req_body)) (js ''engineeringTeam''))"
    and "js_String (to_string env) (get (customFields (the req_body)) (js ''engineeringTeam''))
           = Some text"
    and "team = trim text"
    and "team \<noteq> []"
    and "fetch_metadata env = MetaThrows \<or> fetch_metadata env = MetaNotOk
         \<or> \<not> truthy (fst (getEngineeringTeamId (projectKey (the req_body))
                              (fetch_metadata env) team))"
  shows "\<exists>p. submitted (fst (push_handler env m ip now origin req_method req_body)) = Some p
           \<and> customfield_11737 p = Some (ValueOnly team)
           \<and> TeamValueOnly \<in> set (logged (fst (push_handler env m ip now origin req_method req_body)))
           \<and> (fetch_metadata env = MetaThrows \<longrightarrow>
                WarningMetadata \<in> set (logged (fst (push_handler env m ip now origin req_method req_body))))
           \<and> response (fst (push_handler env m ip now origin req_method req_body)) =
               (case create_issue env p of
                  CreateThrows message \<Rightarrow>
                    Response 500 (ErrorBody (if message \<noteq> [] then message
                                             else js ''Internal server error''))
                | CreateNotOk st \<Rightarrow> Response st UpstreamErrorBody
                | CreateOk data \<Rightarrow> fst (after_create env url data items))"
proof -
  from assms(1) obtain p where
    s: "submitted (fst (push_handler env m ip now origin req_method req_body)) = Some p"
    unfolding accepted_iff_submitted by blast
  then have h: "fst (push_rate_limit m ip now) = None" "req_method = js ''POST''"
    "submitted (push_try env req_body) = Some p"
    "origin = None \<longrightarrow> js ''*'' \<notin> set (ALLOWED_ORIGINS env)"
    unfolding push_handler_submitted_iff by simp_all
  then obtain b where b: "req_body = Some b"
    unfolding push_try_submitted_iff by blast
  have e: "fst (push_handler env m ip now origin req_method req_body) = push_try env (Some b)"
    using push_handler_passed [OF h(1,4)] h(2) b by simp
  have u: "jiraUrl b = JStr url" using assms(2) b by simp
  have i: "attachment_items (object_items env) (attachments b) = Some items"
    using assms(3) b by simp
  obtain l where l: "jiraPayload (to_string env) (fetch_metadata env)
                 (projectKey b) (fields' b) (customFields b) = Some (p, l)"
    "logged (push_try env (Some b)) =
       l @ (case create_issue env p of
              CreateOk data \<Rightarrow> fst (snd (after_create env url data items))
            | _ \<Rightarrow> [])"
    and r: "response (push_try env (Some b)) =
           (case create_issue env p of
              CreateThrows message \<Rightarrow> server_error message
            | CreateNotOk st \<Rightarrow> Response st UpstreamErrorBody
            | CreateOk data \<Rightarrow> fst (after_create env url data items))"
    using push_try_response [OF h(3) [unfolded b] u i] by blast
  have no_id: "\<not> truthy (fst (getEngineeringTeamId (projectKey b) (fetch_metadata env) team))"
    using assms(9) b getEngineeringTeamId_failed(1,2) [of "projectKey b" team] by auto
  have et: "engineering_team (to_string env) (projectKey b) (fetch_metadata env) (customFields b) =
           Some (Some (ValueOnly team),
                 (if snd (getEngineeringTeamId (projectKey b) (fetch_metadata env) team)
                  then [WarningMetadata] else []) @ [TeamValueOnly])"
    using assms(5,6,7,8) no_id b by (intro engineering_team_value_only) simp_all
  have p: "customfield_11737 p = Some (ValueOnly team)"
    "TeamValueOnly \<in> set l"
    "fetch_metadata env = MetaThrows \<longrightarrow> WarningMetadata \<in> set l"
    using l(1) et assms(4) b getEngineeringTeamId_failed(3) [of "projectKey b" team]
    by (auto simp: jiraPayload_def split: option.splits)
  show ?thesis
    apply (rule exI [of _ p])
    using s p b unfolding e l(2) r
    by (cases "create_issue env p") (auto simp: server_error_def)
qed

theorem engineering_team_lookup_is_best_effort_witness:
  "accepted sample_env Map.empty (js ''203.0.113.7'') 0 sample_origin (js ''POST'') (Some (sample_body []))
   \<and> \<not> truthy (fst (getEngineeringTeamId (JStr (js ''BUG'')) (fetch_metadata sample_env)
                       (js ''Checkout'')))
   \<and> (\<exists>p. submitted (fst (push_handler sample_env Map.empty (js ''203.0.113.7'') 0 sample_origin (js ''POST'')
                (Some (sample_body [])))) = Some p
          \<and> customfield_11737 p = Some (ValueOnly (js ''Checkout''))
          \<and> TeamValueOnly \<in> set (logged (fst (push_handler sample_env Map.empty
                (js ''203.0.113.7'') 0 sample_origin (js ''POST'') (Some (sample_body []))))))"
proof -
  have a: "accepted sample_env Map.empty (js ''203.0.113.7'') 0 sample_origin (js ''POST'') (Some (sample_body []))"
    by (rule sample_accepted)
  have u: "jiraUrl (the (Some (sample_body []))) = JStr (js ''https://acme.atlassian.net'')"
    by (simp add: sample_body_def)
  have i: "attachment_items (object_items sample_env) (attachments (the (Some (sample_body []))))
           = Some []"
    by (simp add: sample_body_def attachment_items_def length_throws_def)
  have c: "truthy (customFields (the (Some (sample_body []))))"
    by (simp add: sample_body_def)
  have e: "truthy (get (customFields (the (Some (sample_body [])))) (js ''engineeringTeam''))"
    by (simp add: sample_body_def js_def)
  have s: "js_String (to_string sample_env)
             (get (customFields (the (Some (sample_body [])))) (js ''engineeringTeam''))
           = Some (js '' Checkout '')"
    by (simp add: sample_body_def)
  have t: "js ''Checkout'' = trim (js '' Checkout '')"
    by (simp add: sample_team)
  have n: "js ''Checkout'' \<noteq> []" by (simp add: js_def)
  have k: "projectKey (the (Some (sample_body []))) = JStr (js ''BUG'')"
    by (simp add: sample_body_def)
  have l: "\<not> truthy (fst (getEngineeringTeamId (JStr (js ''BUG'')) (fetch_metadata sample_env)
                       (js ''Checkout'')))"
    by (simp add: sample_env_def sample_lookup)
  then have l': "fetch_metadata sample_env = MetaThrows \<or> fetch_metadata sample_env = MetaNotOk
         \<or> \<not> truthy (fst (getEngineeringTeamId (projectKey (the (Some (sample_body []))))
                 (fetch_metadata sample_env) (js ''Checkout'')))"
    unfolding k by simp
  show ?thesis
    using a l engineering_team_lookup_is_best_effort [OF a u i c e s t n l']
    by blast
qed

subsection \<open>The attachments\<close>

lemma continue_with_simps [simp]:
  "fst (continue_with ls rs r) = ls @ fst r"
  "fst (snd (continue_with ls rs r)) = rs @ fst (snd r)"
  "snd (snd (continue_with ls rs r)) = snd (snd r)"
  by (simp_all add: continue_with_def)

lemma upt_first: "[i ..< i + Suc n] = i # [Suc i ..< Suc i + n]"
proof -
  have "i < i + Suc n" by simp
  then have "[i ..< i + Suc n] = i # [Suc i ..< i + Suc n]" by (rule upt_conv_Cons)
  then show ?thesis by simp
qed

text \<open>
  Attachments that are well formed and meet no status 413 are all uploaded, in the order
  of the list, whatever else fails on the way.
\<close>

lemma upload_loop_no_413:
  assumes "\<forall>a \<in> set atts. well_formed_attachment a"
    and "\<forall>k < length atts. up (i + k) \<noteq> UploadStatus 413"
  shows "fst (snd (upload_loop False up i atts)) = [i ..< i + length atts]
       \<and> snd (snd (upload_loop False up i atts)) = Completed"
  using assms
proof (induction atts arbitrary: i)
  case Nil
  then show ?case by simp
next
  case (Cons a atts)
  have wf: "a \<noteq> JNull" "a \<noteq> JUndefined" "isString (get a (js ''data''))" "\<not> catch_throws a"
    using Cons.prems(1) by (simp_all add: well_formed_attachment_def catch_throws_def)
  have here: "up i \<noteq> UploadStatus 413" using Cons.prems(2) by force
  have "\<forall>k < length atts. up (Suc i + k) \<noteq> UploadStatus 413"
    using Cons.prems(2) by force
  then have IH: "fst (snd (upload_loop False up (Suc i) atts)) = [Suc i ..< Suc i + length atts]
       \<and> snd (snd (upload_loop False up (Suc i) atts)) = Completed"
    using Cons.prems(1) by (intro Cons.IH) simp_all
  have up: "[i ..< i + length (a # atts)] = i # [Suc i ..< Suc i + length atts]"
    using upt_first [of i "length atts"] by simp
  show ?case
    using wf here IH unfolding up
    by (cases "up i") auto
qed

text \<open>
  The first status 413 ends the loop with the response 413; the attachments up to that
  one were uploaded, none after it.
\<close>

lemma upload_loop_first_413:
  assumes "\<forall>a \<in> set atts. well_formed_attachment a"
    and "j < length atts" "up (i + j) = UploadStatus 413"
    and "\<forall>k < j. up (i + k) \<noteq> UploadStatus 413"
  shows "fst (snd (upload_loop False up i atts)) = [i ..< i + Suc j]
       \<and> snd (snd (upload_loop False up i atts)) = Returned (Response 413 (ErrorBody
           (js ''One or more files are too large for Jira. Please remove large files and try again.'')))"
  using assms
proof (induction atts arbitrary: i j)
  case Nil
  then show ?case by simp
next
  case (Cons a atts)
  have wf: "a \<noteq> JNull" "a \<noteq> JUndefined" "isString (get a (js ''data''))" "\<not> catch_throws a"
    using Cons.prems(1) by (simp_all add: well_formed_attachment_def catch_throws_def)
  show ?case
  proof (cases j)
    case 0
    then show ?thesis using Cons.prems wf by (simp add: too_large_def)
  next
    case (Suc j')
    have here: "up i \<noteq> UploadStatus 413" using Cons.prems(4) Suc by force
    have "j' < length atts" "up (Suc i + j') = UploadStatus 413"
      using Cons.prems(2,3) Suc by simp_all
    moreover have "\<forall>k < j'. up (Suc i + k) \<noteq> UploadStatus 413"
      using Cons.prems(4) Suc by force
    ultimately have IH: "fst (snd (upload_loop False up (Suc i) atts)) = [Suc i ..< Suc i + Suc j']
       \<and> snd (snd (upload_loop False up (Suc i) atts)) = Returned (Response 413 (ErrorBody
           (js ''One or more files are too large for Jira. Please remove large files and try again.'')))"
      using Cons.prems(1) by (intro Cons.IH) simp_all
    have up: "[i ..< i + Suc j] = i # [Suc i ..< Suc i + Suc j']"
      using upt_first [of i j] Suc by simp
    show ?thesis
      using wf here IH unfolding up
      by (cases "up i") auto
  qed
qed

lemma after_create_no_413:
  assumes "data \<noteq> JNull" "data \<noteq> JUndefined"
    and "js_String (to_string env) (get data (js ''key'')) = Some key"
    and "import_form_data env"
    and "\<forall>a \<in> set atts. well_formed_attachment a"
    and "\<forall>k < length atts. fetch_upload env k \<noteq> UploadStatus 413"
  shows "fst (after_create env url data atts) =
           Response 200
             (CreatedBody (get data (js ''key'')) (get data (js ''id'')) (get data (js ''self''))
                (cleanJiraUrl url @ js ''/browse/'' @ key))
       \<and> snd (snd (after_create env url data atts)) = [0 ..< length atts]"
proof -
  have k: "\<not> string_throws (get data (js ''key''))"
    using assms(3) by (auto simp: js_String_def split: if_splits)
  have l: "fst (snd (upload_loop False (fetch_upload env) 0 atts)) = [0 ..< 0 + length atts]
       \<and> snd (snd (upload_loop False (fetch_upload env) 0 atts)) = Completed"
    using assms(5,6) by (intro upload_loop_no_413) simp_all
  show ?thesis
  proof (cases "atts = []")
    case True
    then show ?thesis using assms(1-3) by (simp add: after_create_def upload_all_def)
  next
    case False
    then show ?thesis
      using assms(1-4) k l
      by (cases "upload_loop False (fetch_upload env) 0 atts")
        (simp add: after_create_def upload_all_def)
  qed
qed

lemma after_create_first_413:
  assumes "data \<noteq> JNull" "data \<noteq> JUndefined"
    and "\<not> string_throws (get data (js ''key''))"
    and "import_form_data env"
    and "\<forall>a \<in> set atts. well_formed_attachment a"
    and "j < length atts" "fetch_upload env j = UploadStatus 413"
    and "\<forall>k < j. fetch_upload env k \<noteq> UploadStatus 413"
  shows "fst (after_create env url data atts) = Response 413 (ErrorBody
           (js ''One or more files are too large for Jira. Please remove large files and try again.''))
       \<and> snd (snd (after_create env url data atts)) = [0 ..< Suc j]"
proof -
  have l: "fst (snd (upload_loop False (fetch_upload env) 0 atts)) = [0 ..< 0 + Suc j]
       \<and> snd (snd (upload_loop False (fetch_upload env) 0 atts)) = Returned (Response 413 (ErrorBody
           (js ''One or more files are too large for Jira. Please remove large files and try again.'')))"
    using assms(5-8) by (intro upload_loop_first_413) simp_all
  have n: "atts \<noteq> []" using assms(6) by auto
  show ?thesis
    using assms(1-4) n l
    by (cases "upload_loop False (fetch_upload env) 0 atts")
      (simp add: after_create_def upload_all_def)
qed

lemma client_messages:
  "pushToJira_error 413 other = client_too_large"
  "client_too_large \<noteq> js ''Failed to create Jira ticket''"
  "pushToJira_error 401 other \<noteq> client_too_large"
  "pushToJira_error 403 other \<noteq> client_too_large"
  "pushToJira_error 404 other \<noteq> client_too_large"
  by (simp_all add: pushToJira_error_def client_too_large_def js_def)

text \<open>
  For attachments that are well formed the handler does what the \<open>catch\<close> block of the
  loop is written for (\<open>// Continue with other files\<close>): after a created issue every
  attachment is uploaded in the order of the list unless a status 413 comes first, and
  then the response is 413 with the text about files that are too large.
\<close>

lemma well_formed_uploads_are_isolated:
  assumes "accepted env m ip now origin req_method (Some b)"
    and "jiraUrl b = JStr url"
    and "submitted (fst (push_handler env m ip now origin req_method (Some b))) = Some p"
    and "create_issue env p = CreateOk data" "data \<noteq> JNull" "data \<noteq> JUndefined"
    and "js_String (to_string env) (get data (js ''key'')) = Some key"
    and "import_form_data env"
    and "attachments b = JArr atts"
    and "\<forall>a \<in> set atts. well_formed_attachment a"
  shows "((\<forall>k < length atts. fetch_upload env k \<noteq> UploadStatus 413) \<longrightarrow>
            response (fst (push_handler env m ip now origin req_method (Some b))) =
              Response 200
                (CreatedBody (get data (js ''key'')) (get data (js ''id'')) (get data (js ''self''))
                   (cleanJiraUrl url @ js ''/browse/'' @ key))
            \<and> uploads (fst (push_handler env m ip now origin req_method (Some b)))
                = [0 ..< length atts])
       \<and> (j < length atts \<and> fetch_upload env j = UploadStatus 413
            \<and> (\<forall>k < j. fetch_upload env k \<noteq> UploadStatus 413) \<longrightarrow>
            response (fst (push_handler env m ip now origin req_method (Some b))) =
              Response 413 (ErrorBody
                (js ''One or more files are too large for Jira. Please remove large files and try again.''))
            \<and> uploads (fst (push_handler env m ip now origin req_method (Some b))) = [0 ..< Suc j])"
proof -
  have h: "fst (push_rate_limit m ip now) = None" "req_method = js ''POST''"
    "submitted (push_try env (Some b)) = Some p"
    "origin = None \<longrightarrow> js ''*'' \<notin> set (ALLOWED_ORIGINS env)"
    using assms(3) unfolding push_handler_submitted_iff by simp_all
  have e: "fst (push_handler env m ip now origin req_method (Some b)) = push_try env (Some b)"
    using push_handler_passed [OF h(1,4)] h(2) by simp
  have i: "attachment_items (object_items env) (attachments b) = Some atts"
    using assms(9) by (simp add: attachment_items_def length_throws_def)
  have r: "response (push_try env (Some b)) = fst (after_create env url data atts)"
    "uploads (push_try env (Some b)) = snd (snd (after_create env url data atts))"
    using push_try_response [OF h(3) assms(2) i] assms(4) by auto
  have k: "\<not> string_throws (get data (js ''key''))"
    using assms(7) by (auto simp: js_String_def split: if_splits)
  show ?thesis
    unfolding e r
    using after_create_no_413 [OF assms(5,6,7,8,10), where url = url]
      after_create_first_413 [OF assms(5,6) k assms(8,10), where j = j and url = url]
    by blast
qed

text \<open>
  The \<open>catch\<close> block of one attachment throws itself when the element is \<open>null\<close> or
  \<open>undefined\<close>: the loop is left at that element, through the outer \<open>catch\<close>.
\<close>

lemma upload_loop_null:
  assumes "attachment = JNull \<or> attachment = JUndefined"
  shows "upload_loop key_throws up i (attachment # rest) = ([], [], Aborted)"
  using assms by (auto simp: catch_throws_def)

text \<open>
  Claim C6. The claim does not hold of the handler. When an element of the list of
  attachments is \<open>null\<close>, processing it fails inside the \<open>try\<close> of the loop
  (\<open>attachment.data\<close>, line 283), and the \<open>catch\<close> block written to go on with the other
  files (lines 317-320) fails too, on \<open>attachment.filename\<close>. The exception leaves the
  loop for the outer \<open>catch\<close> (line 324): after a created issue, a list that starts with
  \<open>null\<close> has none of its attachments uploaded, whatever follows the \<open>null\<close>; no
  status 413 is involved, the handler logs the error of the outer \<open>catch\<close> and answers
  200 with the key of the issue.
\<close>

theorem null_attachment_abandons_remaining_uploads:
  assumes "accepted env m ip now origin req_method (Some b)"
    and "jiraUrl b = JStr url"
    and "submitted (fst (push_handler env m ip now origin req_method (Some b))) = Some p"
    and "create_issue env p = CreateOk data" "data \<noteq> JNull" "data \<noteq> JUndefined"
    and "js_String (to_string env) (get data (js ''key'')) = Some key"
    and "import_form_data env"
    and "attachments b = JArr (JNull # rest)"
  shows "uploads (fst (push_handler env m ip now origin req_method (Some b))) = []
       \<and> response (fst (push_handler env m ip now origin req_method (Some b))) =
           Response 200
             (CreatedBody (get data (js ''key'')) (get data (js ''id'')) (get data (js ''self''))
                (cleanJiraUrl url @ js ''/browse/'' @ key))
       \<and> AttachmentsError \<in> set (logged (fst (push_handler env m ip now origin req_method (Some b))))
       \<and> AllProcessed \<notin> set (logged (fst (push_handler env m ip now origin req_method (Some b))))"
proof -
  have h: "fst (push_rate_limit m ip now) = None" "req_method = js ''POST''"
    "submitted (push_try env (Some b)) = Some p"
    "origin = None \<longrightarrow> js ''*'' \<notin> set (ALLOWED_ORIGINS env)"
    using assms(3) unfolding push_handler_submitted_iff by simp_all
  have e: "fst (push_handler env m ip now origin req_method (Some b)) = push_try env (Some b)"
    using push_handler_passed [OF h(1,4)] h(2) by simp
  have i: "attachment_items (object_items env) (attachments b) = Some (JNull # rest)"
    using assms(9) by (simp add: attachment_items_def length_throws_def)
  obtain l where l: "jiraPayload (to_string env) (fetch_metadata env)
                 (projectKey b) (fields' b) (customFields b) = Some (p, l)"
    "logged (push_try env (Some b)) = l @ fst (snd (after_create env url data (JNull # rest)))"
    and r: "response (push_try env (Some b)) = fst (after_create env url data (JNull # rest))"
    "uploads (push_try env (Some b)) = snd (snd (after_create env url data (JNull # rest)))"
    using push_try_response [OF h(3) assms(2) i] assms(4) by auto
  have a: "after_create env url data (JNull # rest) =
      (Response 200
         (CreatedBody (get data (js ''key'')) (get data (js ''id'')) (get data (js ''self''))
            (cleanJiraUrl url @ js ''/browse/'' @ key)),
       [AttachmentsError], [])"
    using assms(5-8) upload_loop_null [of JNull]
    by (simp add: after_create_def upload_all_def)
  have n: "AllProcessed \<notin> set l"
    using l(1)
    by (auto simp: jiraPayload_def engineering_team_def Let_def case_prod_beta
        split: option.splits if_splits)
  show ?thesis
    unfolding e r l(2) a using n by simp
qed

theorem null_attachment_abandons_remaining_uploads_witness:
  "uploads (fst (push_handler sample_env Map.empty (js ''203.0.113.7'') 0 sample_origin (js ''POST'')
      (Some (sample_body [JNull, sample_attachment])))) = []
   \<and> response (fst (push_handler sample_env Map.empty (js ''203.0.113.7'') 0 sample_origin (js ''POST'')
      (Some (sample_body [JNull, sample_attachment])))) =
        Response 200 (CreatedBody (JStr (js ''BUG-1'')) JUndefined JUndefined
          (js ''https://acme.atlassian.net/browse/BUG-1''))
   \<and> well_formed_attachment sample_attachment
   \<and> fetch_upload sample_env 1 = UploadStatus 200"
proof -
  let ?b = "sample_body [JNull, sample_attachment]"
  let ?d = "JObj [(js ''key'', JStr (js ''BUG-1''))]"
  have a: "accepted sample_env Map.empty (js ''203.0.113.7'') 0 sample_origin (js ''POST'') (Some ?b)"
    by (rule sample_accepted)
  then obtain p where p: "submitted (fst (push_handler sample_env Map.empty (js ''203.0.113.7'') 0 sample_origin
      (js ''POST'') (Some ?b))) = Some p"
    unfolding accepted_iff_submitted by blast
  have u: "jiraUrl ?b = JStr (js ''https://acme.atlassian.net'')"
    by (simp add: sample_body_def)
  have c: "create_issue sample_env p = CreateOk ?d" by (simp add: sample_env_def)
  have d: "?d \<noteq> JNull" "?d \<noteq> JUndefined" by simp_all
  have g: "get ?d (js ''key'') = JStr (js ''BUG-1'')" "get ?d (js ''id'') = JUndefined"
    "get ?d (js ''self'') = JUndefined"
    by simp_all
  have k: "js_String (to_string sample_env) (get ?d (js ''key'')) = Some (js ''BUG-1'')"
    unfolding g by simp
  have i: "import_form_data sample_env" by (simp add: sample_env_def)
  have t: "attachments ?b = JArr (JNull # [sample_attachment])" by (simp add: sample_body_def)
  have l: "cleanJiraUrl (js ''https://acme.atlassian.net'') @ js ''/browse/'' @ js ''BUG-1''
           = js ''https://acme.atlassian.net/browse/BUG-1''"
    by (simp add: cleanJiraUrl_def js_def)
  have w: "well_formed_attachment sample_attachment"
    by (simp add: well_formed_attachment_def sample_attachment_def isString_def)
  have f: "fetch_upload sample_env 1 = UploadStatus 200" by (simp add: sample_env_def)
  show ?thesis
    using null_attachment_abandons_remaining_uploads [OF a u p c d k i t] w f
    unfolding g l by simp
qed

text \<open>The same request with the \<open>null\<close> left out has its attachment uploaded.\<close>

lemma sample_attachment_uploaded:
  "uploads (fst (push_handler sample_env Map.empty (js ''203.0.113.7'') 0 sample_origin (js ''POST'')
      (Some (sample_body [sample_attachment])))) = [0]"
proof -
  let ?b = "sample_body [sample_attachment]"
  let ?d = "JObj [(js ''key'', JStr (js ''BUG-1''))]"
  have a: "accepted sample_env Map.empty (js ''203.0.113.7'') 0 sample_origin (js ''POST'') (Some ?b)"
    by (rule sample_accepted)
  then obtain p where p: "submitted (fst (push_handler sample_env Map.empty (js ''203.0.113.7'') 0 sample_origin
      (js ''POST'') (Some ?b))) = Some p"
    unfolding accepted_iff_submitted by blast
  have u: "jiraUrl ?b = JStr (js ''https://acme.atlassian.net'')"
    by (simp add: sample_body_def)
  have c: "create_issue sample_env p = CreateOk ?d" by (simp add: sample_env_def)
  have d: "?d \<noteq> JNull" "?d \<noteq> JUndefined" by simp_all
  have k: "js_String (to_string sample_env) (get ?d (js ''key'')) = Some (js ''BUG-1'')"
    by simp
  have i: "import_form_data sample_env" by (simp add: sample_env_def)
  have t: "attachments ?b = JArr [sample_attachment]" by (simp add: sample_body_def)
  have w: "\<forall>a \<in> set [sample_attachment]. well_formed_attachment a"
    by (simp add: well_formed_attachment_def sample_attachment_def isString_def)
  have f: "\<forall>k < length [sample_attachment]. fetch_upload sample_env k \<noteq> UploadStatus 413"
    by (simp add: sample_env_def)
  show ?thesis
    using well_formed_uploads_are_isolated [OF a u p c d k i t w] f
    by simp
qed

section \<open>Properties of the startup\<close>
text \<open>
  Claim C9, as stated, fails on the serverless function: an instance whose key is absent
  is called, counts the request in its rate limiter and answers it with status 500. It
  does not fail at startup.
\<close>

theorem generate_handler_answers_without_key:
  "generate_handler None Map.empty (js ''203.0.113.7'') 0 (js ''POST'')
     = (Answer 500 (js ''Server configuration error: API key not set''),
        [js ''203.0.113.7'' \<mapsto> \<lparr>count = 1, resetTime = 60000\<rparr>])
   \<and> generate_life None Map.empty [(js ''203.0.113.7'', 0, js ''POST'')]
     = [Answer 500 (js ''Server configuration error: API key not set'')]"
  by (simp add: generate_handler_def generate_rate_limit_def handler_rate_limit_def key_missing_def
      RATE_LIMIT_WINDOW_def)

lemma generate_life_length: "length (generate_life k m rs) = length rs"
  by (induction rs arbitrary: m) auto

lemma generate_handler_missing_key:
  assumes "key_missing k"
  shows "fst (generate_handler k m ip now httpMethod) =
           (case fst (generate_rate_limit m ip now) of
              Some (st, message) \<Rightarrow> Answer st message
            | None \<Rightarrow> Answer 500 (js ''Server configuration error: API key not set''))"
  using assms by (simp add: generate_handler_def split: prod.splits option.splits)

lemma generate_rate_limit_429:
  "fst (generate_rate_limit m ip now) = Some r \<Longrightarrow> r = too_many_requests"
  by (auto simp: generate_rate_limit_def handler_rate_limit_def split: option.splits if_splits)

lemma generate_handler_missing_key_cases:
  assumes "key_missing k"
  shows "fst (generate_handler k m ip now httpMethod) \<in>
           {Answer 429 (js ''Too many requests. Please try again in a minute.''),
            Answer 500 (js ''Server configuration error: API key not set'')}"
proof (cases "fst (generate_rate_limit m ip now)")
  case None
  then show ?thesis using generate_handler_missing_key [OF assms, of m ip now httpMethod] by simp
next
  case (Some r)
  then have "r = too_many_requests" by (rule generate_rate_limit_429)
  then show ?thesis
    using Some generate_handler_missing_key [OF assms, of m ip now httpMethod]
    by (simp add: too_many_requests_def)
qed

lemma generate_life_missing_key:
  assumes "key_missing k"
  shows "set (generate_life k m rs) \<subseteq>
           {Answer 429 (js ''Too many requests. Please try again in a minute.''),
            Answer 500 (js ''Server configuration error: API key not set'')}"
proof (induction rs arbitrary: m)
  case Nil
  then show ?case by simp
next
  case (Cons r rs)
  obtain ip now httpMethod where r: "r = (ip, now, httpMethod)" by (cases r)
  show ?case
    using Cons.IH [of "snd (generate_handler k m ip now httpMethod)"]
      generate_handler_missing_key_cases [OF assms, of m ip now httpMethod] r
    by simp
qed

lemma generate_handler_missing_key_exact:
  assumes "key_missing k"
  shows "fst (generate_handler k m ip now httpMethod) =
           (if (\<exists>e. m ip = Some e \<and> now < resetTime e \<and> 15 \<le> count e)
            then Answer 429 (js ''Too many requests. Please try again in a minute.'')
            else Answer 500 (js ''Server configuration error: API key not set''))"
  using assms
  by (cases "m ip")
    (auto simp: generate_handler_def generate_rate_limit_def handler_rate_limit_def
      too_many_requests_def)

lemma generate_handler_map:
  "snd (generate_handler k m ip now httpMethod) = snd (generate_rate_limit m ip now)"
  by (cases "generate_rate_limit m ip now")
    (auto simp: generate_handler_def split: option.splits)

text \<open>
  Claim C9, amended. When the key is unset or empty, the local server ends with exit code 1
  at startup and serves no request. The serverless ticket generation function has no
  startup check: it still answers every call. Its answer is 429 with the text
  \<open>Too many requests. Please try again in a minute.\<close> exactly when its rate limiter
  denies the call (the caller has an entry whose window is running and whose count has
  reached 15), and otherwise 500 with the text
  \<open>Server configuration error: API key not set\<close>; the next call finds the map the
  rate limiter left. It never goes on to call the API of the language model.
\<close>

theorem missing_key_server_exits_function_answers:
  assumes "key_missing k"
  shows "server_life k rs = (Exit 1, [])
       \<and> fst (generate_handler k m ip now httpMethod) =
           (if (\<exists>e. m ip = Some e \<and> now < resetTime e \<and> 15 \<le> count e)
            then Answer 429 (js ''Too many requests. Please try again in a minute.'')
            else Answer 500 (js ''Server configuration error: API key not set''))
       \<and> generate_life k m ((ip, now, httpMethod) # calls) =
           (if (\<exists>e. m ip = Some e \<and> now < resetTime e \<and> 15 \<le> count e)
            then Answer 429 (js ''Too many requests. Please try again in a minute.'')
            else Answer 500 (js ''Server configuration error: API key not set''))
           # generate_life k (snd (generate_rate_limit m ip now)) calls
       \<and> length (generate_life k m calls) = length calls
       \<and> set (generate_life k m calls) \<subseteq>
           {Answer 429 (js ''Too many requests. Please try again in a minute.''),
            Answer 500 (js ''Server configuration error: API key not set'')}
       \<and> Forward \<notin> set (generate_life k m calls)"
proof -
  have "server_life k rs = (Exit 1, [])"
    using assms by (simp add: server_life_def server_startup_def)
  moreover have "Forward \<notin> set (generate_life k m calls)"
    using generate_life_missing_key [OF assms, of m calls] by auto
  moreover have "generate_life k m ((ip, now, httpMethod) # calls) =
           (if (\<exists>e. m ip = Some e \<and> now < resetTime e \<and> 15 \<le> count e)
            then Answer 429 (js ''Too many requests. Please try again in a minute.'')
            else Answer 500 (js ''Server configuration error: API key not set''))
           # generate_life k (snd (generate_rate_limit m ip now)) calls"
    using generate_handler_missing_key_exact [OF assms, of m ip now httpMethod]
    by (simp add: generate_handler_map)
  ultimately show ?thesis
    using generate_life_length [of k m calls] generate_life_missing_key [OF assms, of m calls]
      generate_handler_missing_key_exact [OF assms, of m ip now httpMethod]
    by simp
qed

theorem missing_key_server_exits_function_answers_witness:
  "key_missing None
   \<and> server_life None [(js ''203.0.113.7'', 0)] = (Exit 1, [])
   \<and> fst (generate_handler None Map.empty (js ''203.0.113.7'') 0 (js ''POST''))
       = Answer 500 (js ''Server configuration error: API key not set'')
   \<and> fst (generate_handler None [js ''203.0.113.7'' \<mapsto> \<lparr>count = 15, resetTime = 60000\<rparr>]
          (js ''203.0.113.7'') 1000 (js ''POST''))
       = Answer 429 (js ''Too many requests. Please try again in a minute.'')
   \<and> Forward \<notin> set (generate_life None Map.empty [(js ''203.0.113.7'', 0, js ''POST'')])"
proof -
  have h: "key_missing None" by (simp add: key_missing_def)
  show ?thesis
    using h
      missing_key_server_exits_function_answers
        [OF h, of "[(js ''203.0.113.7'', 0)]" Map.empty "js ''203.0.113.7''" 0 "js ''POST''"
           "[(js ''203.0.113.7'', 0, js ''POST'')]"]
      missing_key_server_exits_function_answers
        [OF h, of "[]" "[js ''203.0.113.7'' \<mapsto> \<lparr>count = 15, resetTime = 60000\<rparr>]"
           "js ''203.0.113.7''" 1000 "js ''POST''" "[]"]
    by (simp del: generate_life.simps)
qed

end
